theory Spec2Isabelle
  imports Complex_Main "HOL-Library.Char_ord" "HOL-Library.AList" "HOL-Library.List_Lexorder" "HOL-Library.Multiset"
begin

section \<open>JavaScript values and errors\<close>

text \<open>
  The values JSON.parse can return, and \<^verbatim>\<open>undefined\<close> for a property that is absent.
  Numbers are modelled by their rational value.
\<close>

datatype js_value =
    JUndefined
  | JNull
  | JBool bool
  | JNum rat
  | JStr string
  | JArr "js_value list"
  | JObj "(string \<times> js_value) list"

text \<open>Truthiness, as \<^verbatim>\<open>||\<close> and \<^verbatim>\<open>!\<close> test it.\<close>

fun truthy :: "js_value \<Rightarrow> bool" where
  "truthy JUndefined = False"
| "truthy JNull = False"
| "truthy (JBool b) = b"
| "truthy (JNum n) = (n \<noteq> 0)"
| "truthy (JStr s) = (s \<noteq> [])"
| "truthy (JArr xs) = True"
| "truthy (JObj kvs) = True"

definition js_or :: "js_value \<Rightarrow> js_value \<Rightarrow> js_value" where
  "js_or a b = (if truthy a then a else b)"

text \<open>
  A thrown value: an \<^verbatim>\<open>Error\<close> instance with its message, or anything else.
\<close>

datatype thrown = JsError string | NonErrorValue

text \<open>
  Reading a property \<^verbatim>\<open>v.k\<close>: a TypeError on \<^verbatim>\<open>null\<close> and \<^verbatim>\<open>undefined\<close>, the
  value of the key in an object (of the last occurrence, as JSON.parse keeps it), and
  \<^verbatim>\<open>undefined\<close> otherwise. The keys read by the code are not built-in
  properties of numbers, strings, booleans or arrays.
\<close>

definition field_of :: "(string \<times> js_value) list \<Rightarrow> string \<Rightarrow> js_value" where
  "field_of kvs k = (case map_of (rev kvs) k of None \<Rightarrow> JUndefined | Some v \<Rightarrow> v)"

fun prop_of :: "js_value \<Rightarrow> string \<Rightarrow> js_value" where
  "prop_of (JObj kvs) k = field_of kvs k"
| "prop_of v k = JUndefined"

fun get_prop :: "js_value \<Rightarrow> string \<Rightarrow> thrown + js_value" where
  "get_prop JUndefined k = Inl (JsError ''TypeError: Cannot read properties of undefined'')"
| "get_prop JNull k = Inl (JsError ''TypeError: Cannot read properties of null'')"
| "get_prop v k = Inr (prop_of v k)"

text \<open>\<^verbatim>\<open>s.includes(pat)\<close>: \<open>pat\<close> occurs in \<open>s\<close>.\<close>

fun js_includes :: "string \<Rightarrow> string \<Rightarrow> bool" where
  "js_includes [] pat = (pat = [])"
| "js_includes (c # cs) pat = (if take (length pat) (c # cs) = pat then True else js_includes cs pat)"

text \<open>
  \<^verbatim>\<open>text.match(/\{[\s\S]*\}/)\<close>: the span from the first opening brace to the last
  closing brace after it, if there is one.
\<close>

definition match_braces :: "string \<Rightarrow> string option" where
  "match_braces text =
     (let from_open = dropWhile (\<lambda>c. c \<noteq> CHR ''{'') text;
          to_close = rev (dropWhile (\<lambda>c. c \<noteq> CHR ''}'') (rev from_open))
      in if to_close = [] then None else Some to_close)"

section \<open>Numbers and dates\<close>

text \<open>
  A value of type \<^verbatim>\<open>number\<close>: not-a-number, an infinity, or a finite number, given
  by its rational value. Sums of finite numbers are exact in the model, as they are for
  whole numbers of moderate size in the code.
\<close>

datatype js_number = NaN | PosInfinity | NegInfinity | Finite rat

fun js_neg :: "js_number \<Rightarrow> js_number" where
  "js_neg NaN = NaN"
| "js_neg PosInfinity = NegInfinity"
| "js_neg NegInfinity = PosInfinity"
| "js_neg (Finite q) = Finite (- q)"

fun js_add :: "js_number \<Rightarrow> js_number \<Rightarrow> js_number" where
  "js_add (Finite a) (Finite b) = Finite (a + b)"
| "js_add NaN y = NaN"
| "js_add x NaN = NaN"
| "js_add PosInfinity NegInfinity = NaN"
| "js_add NegInfinity PosInfinity = NaN"
| "js_add PosInfinity y = PosInfinity"
| "js_add NegInfinity y = NegInfinity"
| "js_add x PosInfinity = PosInfinity"
| "js_add x NegInfinity = NegInfinity"

text \<open>
  A valid JavaScript \<^verbatim>\<open>Date\<close> is modelled by its time value, the number of
  milliseconds since the epoch; an Invalid Date is \<open>None\<close>.

  \<^verbatim>\<open>d.setDate(d.getDate() + x)\<close> moves \<open>d\<close> by whole calendar days of the time zone
  of the process, keeping the local time of day: the result depends on the zone and its
  daylight-saving rules, and it is an Invalid Date when \<open>x\<close> is not a finite number or
  the result is out of the range of \<^verbatim>\<open>Date\<close>. This operation of the runtime is a
  parameter of the model, a \<open>calendar\<close>: \<open>cal t x\<close> is the time value of the date
  with time value \<open>t\<close> after \<^verbatim>\<open>setDate(getDate() + x)\<close>.
  \<^verbatim>\<open>setDate(getDate() - x)\<close> is \<open>cal t (js_neg x)\<close>.
\<close>

type_synonym instant = int

type_synonym calendar = "instant \<Rightarrow> js_number \<Rightarrow> instant option"

definition day_ms :: int where
  "day_ms = 86400000"

text \<open>
  A calendar in which moving by a whole number of days is moving by that many times
  24 hours, as long as the result is in the range of \<^verbatim>\<open>Date\<close>: the calendar of a
  process whose zone has one fixed offset from UTC (UTC itself, for one).
\<close>

definition whole_days_24h :: "calendar \<Rightarrow> bool" where
  "whole_days_24h cal =
     (\<forall>t n. \<bar>t + n * day_ms\<bar> \<le> 8640000000000000 \<longrightarrow>
        cal t (Finite (of_int n)) = Some (t + n * day_ms))"

section \<open>The durable store (lib/db/tasks.ts)\<close>

text \<open>
  A row of \<^verbatim>\<open>prisma.suggestedTask\<close>, with the columns the code writes and reads.
  Row ids (cuids in the database) are modelled as natural numbers drawn from a counter.
  The Prisma schema is not among the sources; the column types are those of the values
  the code writes. The priority column is a text column (the database is SQLite) that
  holds the strings \<^verbatim>\<open>'high'\<close>, \<^verbatim>\<open>'medium'\<close>, \<^verbatim>\<open>'low'\<close>. A date column holds
  valid dates only: the database client rejects an Invalid Date.
\<close>

record task_row =
  task_id :: nat
  analyzedEventId :: nat
  householdId :: string
  title :: string
  description :: "string option"
  task_type :: string
  priority :: string
  dueDate :: instant
  status :: string

subsection \<open>The query of getUpcomingTasks\<close>

text \<open>
  \<^verbatim>\<open>orderBy: [{ dueDate: 'asc' }, { priority: 'desc' }]\<close>: rows are ordered by
  ascending due date, and rows of equal due date by descending value of the priority
  column, a text column compared as text (byte by byte). The rows are returned without
  the joined \<^verbatim>\<open>analyzedEvent\<close>, which no property here reads.
\<close>

definition orderBy_le :: "task_row \<Rightarrow> task_row \<Rightarrow> bool" where
  "orderBy_le a b =
     (if dueDate a = dueDate b then priority b \<le> priority a else dueDate a < dueDate b)"

fun orderBy_insert :: "task_row \<Rightarrow> task_row list \<Rightarrow> task_row list" where
  "orderBy_insert t [] = [t]"
| "orderBy_insert t (u # us) =
     (if orderBy_le t u then t # u # us else u # orderBy_insert t us)"

fun orderBy :: "task_row list \<Rightarrow> task_row list" where
  "orderBy [] = []"
| "orderBy (t # ts) = orderBy_insert t (orderBy ts)"

text \<open>
  The options argument: a field left out is \<open>None\<close> and takes its default in the
  destructuring (\<^verbatim>\<open>daysAhead = 30\<close>, \<^verbatim>\<open>includeCompleted = false\<close>).
\<close>

record upcoming_options =
  opt_daysAhead :: "js_number option"
  opt_includeCompleted :: "bool option"

text \<open>
  getUpcomingTasks reads the clock five times (\<^verbatim>\<open>new Date()\<close>): for the end of the
  window, for the lower bound of the query, and, after the query has returned, for the
  three bucket boundaries. The readings are inputs of the model.
\<close>

record clock_reads =
  at_endDate :: instant
  at_query :: instant
  at_today :: instant
  at_thisWeek :: instant
  at_nextWeek :: instant

record upcoming =
  overdue :: "task_row list"
  thisWeek :: "task_row list"
  nextWeek :: "task_row list"
  later :: "task_row list"
  all_tasks :: "task_row list"

definition findMany_upcoming ::
  "task_row list \<Rightarrow> string \<Rightarrow> bool \<Rightarrow> instant \<Rightarrow> instant \<Rightarrow> task_row list" where
  "findMany_upcoming table hid includeCompleted lo hi =
     orderBy (filter (\<lambda>t. householdId t = hid
                        \<and> (if includeCompleted then True else status t \<in> set [''pending''])
                        \<and> dueDate t \<le> hi \<and> lo \<le> dueDate t) table)"

text \<open>
  A comparison of a due date with a bound that may be an Invalid Date: with an Invalid
  Date both \<^verbatim>\<open><\<close> and \<^verbatim>\<open>>=\<close> are false.
\<close>

definition date_lt :: "instant \<Rightarrow> instant option \<Rightarrow> bool" where
  "date_lt d bound = (case bound of Some b \<Rightarrow> d < b | None \<Rightarrow> False)"

definition date_ge :: "instant \<Rightarrow> instant option \<Rightarrow> bool" where
  "date_ge d bound = (case bound of Some b \<Rightarrow> d \<ge> b | None \<Rightarrow> False)"

text \<open>
  getUpcomingTasks throws when the end of the window is an Invalid Date: the query
  rejects it.
\<close>

definition getUpcomingTasks ::
  "calendar \<Rightarrow> task_row list \<Rightarrow> clock_reads \<Rightarrow> string \<Rightarrow> upcoming_options \<Rightarrow> thrown + upcoming" where
  "getUpcomingTasks cal table clk hid opts =
     (let daysAhead = (case opt_daysAhead opts of None \<Rightarrow> Finite 30 | Some d \<Rightarrow> d);
          includeCompleted = (case opt_includeCompleted opts of None \<Rightarrow> False | Some b \<Rightarrow> b)
      in case cal (at_endDate clk) daysAhead of
           None \<Rightarrow> Inl (JsError ''PrismaClientValidationError'')
         | Some endDate \<Rightarrow>
             (let tasks = findMany_upcoming table hid includeCompleted (at_query clk) endDate;
                  today = at_today clk;
                  thisWeek = cal (at_thisWeek clk) (Finite 7);
                  nextWeek = cal (at_nextWeek clk) (Finite 14)
              in Inr \<lparr> overdue = filter (\<lambda>t. dueDate t < today) tasks,
                       thisWeek = filter (\<lambda>t. dueDate t \<ge> today \<and> date_lt (dueDate t) thisWeek) tasks,
                       nextWeek = filter (\<lambda>t. date_ge (dueDate t) thisWeek \<and> date_lt (dueDate t) nextWeek) tasks,
                       later = filter (\<lambda>t. date_ge (dueDate t) nextWeek) tasks,
                       all_tasks = tasks \<rparr>))"

subsection \<open>Example rows\<close>

text \<open>
  A pending task of household \<open>''h1''\<close>, given by its id, priority and due date, and
  a clock that reads 2025-11-03T00:00:00Z before the query and 2 ms later after it.
  The example calendar is that of a process in UTC on the offsets the examples use,
  whole numbers of days; it is not used on other offsets.
\<close>

definition example_task :: "nat \<Rightarrow> string \<Rightarrow> instant \<Rightarrow> task_row" where
  "example_task i p d =
     \<lparr> task_id = i, analyzedEventId = 0, householdId = ''h1'', title = ''Book babysitter'',
       description = None, task_type = ''booking'', priority = p, dueDate = d,
       status = ''pending'' \<rparr>"

definition example_now :: instant where
  "example_now = 1762128000000"

definition example_clock :: clock_reads where
  "example_clock =
     \<lparr> at_endDate = example_now, at_query = example_now, at_today = example_now + 2,
       at_thisWeek = example_now + 2, at_nextWeek = example_now + 2 \<rparr>"

definition no_options :: upcoming_options where
  "no_options = \<lparr> opt_daysAhead = None, opt_includeCompleted = None \<rparr>"

definition example_calendar :: calendar where
  "example_calendar t x =
     (case x of
        Finite q \<Rightarrow>
          if of_int \<lfloor>q\<rfloor> = q \<and> \<bar>t + \<lfloor>q\<rfloor> * day_ms\<bar> \<le> 8640000000000000
          then Some (t + \<lfloor>q\<rfloor> * day_ms) else None
      | _ \<Rightarrow> None)"

section \<open>The Analysis Client, settings-aware variant\<close>

text \<open>
  A calendar event as the code receives it. The route passes on untyped JSON, so the
  \<^verbatim>\<open>start\<close> and \<^verbatim>\<open>end\<close> objects can be missing: \<open>None\<close> stands for a property
  that is absent, \<^verbatim>\<open>undefined\<close> or \<^verbatim>\<open>null\<close>. The event itself is an object, and
  its id is a string.
\<close>

record time_spec =
  dateTime :: "string option"
  date :: "string option"

record CalendarEvent =
  event_id :: string
  summary :: "string option"
  event_description :: "string option"
  location :: "string option"
  event_start :: "time_spec option"
  event_end :: "time_spec option"

definition has_start_end :: "CalendarEvent \<Rightarrow> bool" where
  "has_start_end event = (event_start event \<noteq> None \<and> event_end event \<noteq> None)"

text \<open>
  The household settings, with the fields of the interface, and a knowledge-base item.
  The value of an item is given by what \<^verbatim>\<open>JSON.stringify\<close> does with it: it returns
  a string, or it throws a TypeError with a message (a circular structure, a BigInt).
\<close>

record family_member =
  member_name :: string
  relationship :: string
  age :: "js_number option"

record HouseholdSettings =
  familyMembers :: "family_member list option"
  homeCity :: "string option"
  homeState :: "string option"
  customContext :: "string option"
  sitterStartTime :: "js_number option"
  bookFlightsDaysAhead :: "js_number option"
  bookSitterDaysAhead :: "js_number option"
  drivingRadiusMiles :: "js_number option"
  sitterExceptions :: "string list option"

datatype kb_value = Serializable string | Unserializable string

record KnowledgeBaseItem =
  kb_key :: string
  kb_val :: kb_value

text \<open>
  The statements before the try block build the prompt. They throw a TypeError when
  \<^verbatim>\<open>event.start\<close> or \<^verbatim>\<open>event.end\<close> is missing (the message names
  \<^verbatim>\<open>dateTime\<close>) and when a knowledge-base value cannot be serialised; on settings of
  the declared type they do not throw. The prompt is a text made of the event, the
  settings and the serialised knowledge base; the model keeps these three parts, from
  which the provider answers.
\<close>

record prompt_input =
  prompt_event :: CalendarEvent
  prompt_settings :: "HouseholdSettings option"
  prompt_knowledge :: "(string \<times> string) list"

fun stringify_all :: "KnowledgeBaseItem list \<Rightarrow> thrown + (string \<times> string) list" where
  "stringify_all [] = Inr []"
| "stringify_all (k # ks) =
     (case kb_val k of
        Unserializable message \<Rightarrow> Inl (JsError message)
      | Serializable s \<Rightarrow>
          (case stringify_all ks of Inl err \<Rightarrow> Inl err | Inr rest \<Rightarrow> Inr ((kb_key k, s) # rest)))"

definition build_prompt ::
  "CalendarEvent \<Rightarrow> HouseholdSettings option \<Rightarrow> KnowledgeBaseItem list option
     \<Rightarrow> thrown + prompt_input" where
  "build_prompt event settings knowledgeBase =
     (case event_start event of
        None \<Rightarrow> Inl (JsError ''TypeError: Cannot read properties of undefined (reading dateTime)'')
      | Some start \<Rightarrow>
          (case event_end event of
             None \<Rightarrow> Inl (JsError ''TypeError: Cannot read properties of undefined (reading dateTime)'')
           | Some fin \<Rightarrow>
               (case stringify_all (case knowledgeBase of None \<Rightarrow> [] | Some items \<Rightarrow> items) of
                  Inl err \<Rightarrow> Inl err
                | Inr knowledge \<Rightarrow>
                    Inr \<lparr> prompt_event = event, prompt_settings = settings,
                          prompt_knowledge = knowledge \<rparr>)))"

text \<open>
  The provider call \<^verbatim>\<open>anthropic.messages.create\<close> either rejects with a thrown value
  or resolves with a list of content blocks; a block is of type text or of another type.
\<close>

datatype content_block = TextBlock string | OtherBlock

datatype llm_outcome = Rejected thrown | Resolved "content_block list"

text \<open>
  The object analyzeCalendarEvent returns: the interface EventAnalysis, with the values
  the fields hold at run time.
\<close>

record EventAnalysis =
  eventType :: js_value
  requiresSitter :: js_value
  requiresTravel :: js_value
  requiresFormalAttire :: js_value
  tasks :: js_value
  reasoning :: js_value
  confidence :: js_value

definition default_analysis :: EventAnalysis where
  "default_analysis =
     \<lparr> eventType = JStr ''other'', requiresSitter = JBool False, requiresTravel = JBool False,
       requiresFormalAttire = JBool False, tasks = JArr [],
       reasoning = JStr ''Analysis failed - using defaults'', confidence = JNum (1 / 10) \<rparr>"

text \<open>
  The text handed to JSON.parse: the matched span, or the whole reply when nothing
  matches.
\<close>

definition analysisText_of :: "string \<Rightarrow> string" where
  "analysisText_of text = (case match_braces text of Some m \<Rightarrow> m | None \<Rightarrow> text)"

text \<open>
  The object built from a parsed reply that is not \<^verbatim>\<open>null\<close>: every missing or falsy
  field takes its own default.
\<close>

definition analysis_from :: "js_value \<Rightarrow> EventAnalysis" where
  "analysis_from analysis =
     \<lparr> eventType = js_or (prop_of analysis ''eventType'') (JStr ''other''),
       requiresSitter = js_or (prop_of analysis ''requiresSitter'') (JBool False),
       requiresTravel = js_or (prop_of analysis ''requiresTravel'') (JBool False),
       requiresFormalAttire = js_or (prop_of analysis ''requiresFormalAttire'') (JBool False),
       tasks = js_or (prop_of analysis ''tasks'') (JArr []),
       reasoning = js_or (prop_of analysis ''reasoning'') (JStr []),
       confidence = js_or (prop_of analysis ''confidence'') (JNum (8 / 10)) \<rparr>"

text \<open>The body of the try block; \<open>JSON_parse\<close> returns \<open>None\<close> for a SyntaxError.\<close>

definition analyze_try ::
  "(string \<Rightarrow> js_value option) \<Rightarrow> llm_outcome \<Rightarrow> thrown + EventAnalysis" where
  "analyze_try JSON_parse outcome =
     (case outcome of
        Rejected err \<Rightarrow> Inl err
      | Resolved content \<Rightarrow>
          (case content of
             [] \<Rightarrow> Inl (JsError ''TypeError: Cannot read properties of undefined'')
           | OtherBlock # rest \<Rightarrow> Inl (JsError ''Unexpected response type from Claude'')
           | TextBlock text # rest \<Rightarrow>
               (case JSON_parse (analysisText_of text) of
                  None \<Rightarrow> Inl (JsError ''SyntaxError'')
                | Some analysis \<Rightarrow>
                    (case get_prop analysis ''eventType'' of
                       Inl err \<Rightarrow> Inl err
                     | Inr et \<Rightarrow> Inr (analysis_from analysis)))))"

text \<open>
  analyzeCalendarEvent: what is thrown before the try block leaves the function; what is
  thrown inside it is caught and replaced by the default analysis.
\<close>

definition analyzeCalendarEvent ::
  "(string \<Rightarrow> js_value option) \<Rightarrow> (prompt_input \<Rightarrow> llm_outcome) \<Rightarrow> CalendarEvent
     \<Rightarrow> HouseholdSettings option \<Rightarrow> KnowledgeBaseItem list option \<Rightarrow> thrown + EventAnalysis" where
  "analyzeCalendarEvent JSON_parse llm event settings knowledgeBase =
     (case build_prompt event settings knowledgeBase of
        Inl err \<Rightarrow> Inl err
      | Inr prompt \<Rightarrow>
          (case analyze_try JSON_parse (llm prompt) of
             Inr analysis \<Rightarrow> Inr analysis
           | Inl err \<Rightarrow> Inr default_analysis))"

section \<open>The Batch Dispatcher, settings-aware variant\<close>

text \<open>
  The state of the loop: the result Map (an association list in insertion order;
  \<^verbatim>\<open>results.set\<close> replaces the value of a key in place or appends), the number of
  analysis calls made, and the delays slept so far, in milliseconds.
\<close>

record dispatch_state =
  results :: "(string \<times> EventAnalysis) list"
  calls :: nat
  sleeps :: "nat list"

definition is_rate_limit :: "thrown \<Rightarrow> bool" where
  "is_rate_limit err = (case err of JsError message \<Rightarrow> js_includes message ''429'' | NonErrorValue \<Rightarrow> False)"

definition dispatcher_default :: EventAnalysis where
  "dispatcher_default =
     \<lparr> eventType = JStr ''other'', requiresSitter = JBool False, requiresTravel = JBool False,
       requiresFormalAttire = JBool False, tasks = JArr [],
       reasoning = JStr ''Analysis failed due to error'', confidence = JNum (1 / 10) \<rparr>"

text \<open>
  The for loop of analyzeBatchEvents over an analysis client that may throw. The client
  gets the number of calls made before, so that it can answer a retry differently.
  \<^verbatim>\<open>i--; continue\<close> followed by the loop's \<^verbatim>\<open>i++\<close> leaves \<open>i\<close> as it is. The loop
  may run forever; then the result is \<open>None\<close>.
\<close>

partial_function (option) dispatch_loop ::
  "(nat \<Rightarrow> CalendarEvent \<Rightarrow> thrown + EventAnalysis) \<Rightarrow> CalendarEvent list \<Rightarrow> nat
     \<Rightarrow> dispatch_state \<Rightarrow> dispatch_state option" where
  "dispatch_loop client events i st =
     (if i < length events then
        (let event = events ! i in
         case client (calls st) event of
           Inr analysis \<Rightarrow>
             dispatch_loop client events (i + 1)
               \<lparr> results = AList.update (event_id event) analysis (results st),
                 calls = calls st + 1,
                 sleeps = (if i + 1 < length events then sleeps st @ [1500] else sleeps st) \<rparr>
         | Inl err \<Rightarrow>
             (if is_rate_limit err then
                dispatch_loop client events i
                  \<lparr> results = results st, calls = calls st + 1, sleeps = sleeps st @ [60000] \<rparr>
              else
                dispatch_loop client events (i + 1)
                  \<lparr> results = AList.update (event_id event) dispatcher_default (results st),
                    calls = calls st + 1, sleeps = sleeps st \<rparr>))
      else Some st)"

definition initial_dispatch :: dispatch_state where
  "initial_dispatch = \<lparr> results = [], calls = 0, sleeps = [] \<rparr>"

text \<open>
  analyzeBatchEvents with its effects: the provider answers the \<open>n\<close>-th call for a
  prompt.
\<close>

definition analyzeBatchEvents_run ::
  "(string \<Rightarrow> js_value option) \<Rightarrow> (nat \<Rightarrow> prompt_input \<Rightarrow> llm_outcome) \<Rightarrow> CalendarEvent list
     \<Rightarrow> HouseholdSettings option \<Rightarrow> KnowledgeBaseItem list option \<Rightarrow> dispatch_state option" where
  "analyzeBatchEvents_run JSON_parse provider events settings knowledgeBase =
     dispatch_loop (\<lambda>n event. analyzeCalendarEvent JSON_parse (provider n) event settings knowledgeBase)
       events 0 initial_dispatch"

definition analyzeBatchEvents ::
  "(string \<Rightarrow> js_value option) \<Rightarrow> (nat \<Rightarrow> prompt_input \<Rightarrow> llm_outcome) \<Rightarrow> CalendarEvent list
     \<Rightarrow> HouseholdSettings option \<Rightarrow> KnowledgeBaseItem list option
     \<Rightarrow> (string \<times> EventAnalysis) list option" where
  "analyzeBatchEvents JSON_parse provider events settings knowledgeBase =
     map_option results (analyzeBatchEvents_run JSON_parse provider events settings knowledgeBase)"

text \<open>
  What a loop that never retries computes, as a fold over the events: the value stored
  for the \<open>n\<close>-th call is stored under the event's id.
\<close>

fun collect ::
  "(nat \<Rightarrow> CalendarEvent \<Rightarrow> EventAnalysis) \<Rightarrow> CalendarEvent list \<Rightarrow> nat
     \<Rightarrow> (string \<times> EventAnalysis) list \<Rightarrow> (string \<times> EventAnalysis) list" where
  "collect f [] n m = m"
| "collect f (e # es) n m = collect f es (n + 1) (AList.update (event_id e) (f n e) m)"

text \<open>
  The value a successful analyzeCalendarEvent returns for the \<open>n\<close>-th call of the
  provider: the analysis parsed from the reply, or the default analysis when the try
  block failed. The value the dispatcher stores for a call: the value the client
  returned, or the dispatcher's own default when the client threw.
\<close>

definition client_value ::
  "(string \<Rightarrow> js_value option) \<Rightarrow> (nat \<Rightarrow> prompt_input \<Rightarrow> llm_outcome)
     \<Rightarrow> HouseholdSettings option \<Rightarrow> (string \<times> string) list \<Rightarrow> nat \<Rightarrow> CalendarEvent
     \<Rightarrow> EventAnalysis" where
  "client_value JSON_parse provider settings knowledge n e =
     (case analyze_try JSON_parse
             (provider n \<lparr> prompt_event = e, prompt_settings = settings, prompt_knowledge = knowledge \<rparr>) of
        Inr a \<Rightarrow> a
      | Inl err \<Rightarrow> default_analysis)"

definition stored_value ::
  "(nat \<Rightarrow> CalendarEvent \<Rightarrow> thrown + EventAnalysis) \<Rightarrow> nat \<Rightarrow> CalendarEvent \<Rightarrow> EventAnalysis" where
  "stored_value client n e = (case client n e of Inr a \<Rightarrow> a | Inl err \<Rightarrow> dispatcher_default)"

subsection \<open>Example events and providers\<close>

text \<open>
  An event titled Birthday Party, given by its id, with start and end times; the same
  event as an all-day event, with dates only; and the same event as a client can post
  it, without its \<^verbatim>\<open>end\<close>. JSON.parse on the reply texts of the examples:
  \<^verbatim>\<open>{}\<close> is the empty object, \<^verbatim>\<open>null\<close> is null, \<^verbatim>\<open>42\<close> is a number, and the other
  reply text used (a refusal in plain words) is not JSON.
\<close>

definition example_event :: "string \<Rightarrow> CalendarEvent" where
  "example_event i =
     \<lparr> event_id = i, summary = Some ''Birthday Party'', event_description = None,
       location = None,
       event_start = Some \<lparr> dateTime = Some ''2025-11-13T18:00:00Z'', date = None \<rparr>,
       event_end = Some \<lparr> dateTime = Some ''2025-11-13T21:00:00Z'', date = None \<rparr> \<rparr>"

definition all_day_event :: "string \<Rightarrow> CalendarEvent" where
  "all_day_event i =
     \<lparr> event_id = i, summary = Some ''Birthday Party'', event_description = None,
       location = None,
       event_start = Some \<lparr> dateTime = None, date = Some ''2025-11-13'' \<rparr>,
       event_end = Some \<lparr> dateTime = None, date = Some ''2025-11-14'' \<rparr> \<rparr>"

definition event_without_end :: "string \<Rightarrow> CalendarEvent" where
  "event_without_end i =
     \<lparr> event_id = i, summary = Some ''Birthday Party'', event_description = None,
       location = None,
       event_start = Some \<lparr> dateTime = Some ''2025-11-13T18:00:00Z'', date = None \<rparr>,
       event_end = None \<rparr>"

definition example_JSON_parse :: "string \<Rightarrow> js_value option" where
  "example_JSON_parse s =
     (if s = ''{}'' then Some (JObj []) else if s = ''null'' then Some JNull
      else if s = ''42'' then Some (JNum 42) else None)"

definition empty_object_reply :: "prompt_input \<Rightarrow> llm_outcome" where
  "empty_object_reply p = Resolved [TextBlock ''{}'']"

definition number_reply :: "prompt_input \<Rightarrow> llm_outcome" where
  "number_reply p = Resolved [TextBlock ''42'']"

definition rate_limited_provider :: "nat \<Rightarrow> prompt_input \<Rightarrow> llm_outcome" where
  "rate_limited_provider n p = Rejected (JsError ''429 rate_limit_error'')"

text \<open>
  A provider that answers event \<open>e2\<close> with a rate-limit error, event \<open>e3\<close> with a
  refusal in plain words, and every other event with the empty object.
\<close>

definition example_provider :: "nat \<Rightarrow> prompt_input \<Rightarrow> llm_outcome" where
  "example_provider n p =
     (if event_id (prompt_event p) = ''e2'' then Rejected (JsError ''429 rate_limit_error'')
      else if event_id (prompt_event p) = ''e3'' then Resolved [TextBlock ''Sorry, I cannot help.'']
      else Resolved [TextBlock ''{}''])"

text \<open>
  An analysis client that throws a rate-limit error at its first call and returns the
  default analysis afterwards.
\<close>

definition throwing_client :: "nat \<Rightarrow> CalendarEvent \<Rightarrow> thrown + EventAnalysis" where
  "throwing_client n e =
     (if n = 0 then Inl (JsError ''429 rate_limit_error'') else Inr default_analysis)"

section \<open>The Task Materializer (saveAnalyzedEvent)\<close>

text \<open>
  An element of \<^verbatim>\<open>analysis.suggestedTasks\<close>, and the analysis argument as
  saveAnalyzedEvent reads it. \<^verbatim>\<open>forceReanalysis\<close> is tested for truthiness; the event
  type and the flags are written to the database, which accepts a string and booleans;
  \<^verbatim>\<open>suggestedTasks\<close> is \<open>None\<close> when the object has no such property.
\<close>

record SuggestedTask =
  st_title :: string
  st_type :: string
  daysBeforeEvent :: js_number
  st_priority :: string
  st_description :: "string option"

record analysis_arg =
  forceReanalysis :: js_value
  arg_eventType :: js_value
  arg_requiresSitter :: js_value
  arg_requiresTravel :: js_value
  arg_requiresFormalAttire :: js_value
  suggestedTasks :: "SuggestedTask list option"

text \<open>
  A row of \<^verbatim>\<open>prisma.analyzedEvent\<close>; \<^verbatim>\<open>eventId\<close> is its unique key. The two
  JSON columns are modelled by the values that are serialised into them. The create
  branch of the upsert does not supply \<^verbatim>\<open>analyzedAt\<close>.
\<close>

record ae_row =
  ae_id :: nat
  eventId :: string
  ae_householdId :: string
  eventTitle :: string
  eventStart :: instant
  eventEnd :: instant
  eventData :: CalendarEvent
  ae_eventType :: string
  ae_requiresSitter :: bool
  ae_requiresTravel :: bool
  ae_requiresFormalAttire :: bool
  analysisData :: analysis_arg
  analyzedAt :: "instant option"

record store =
  analyzedEvent_table :: "ae_row list"
  suggestedTask_table :: "task_row list"
  next_id :: nat

text \<open>What saveAnalyzedEvent returns: the row with its tasks.\<close>

record saved =
  saved_event :: ae_row
  saved_tasks :: "task_row list"

text \<open>
  \<^verbatim>\<open>a || b\<close> on two optional strings (absent and empty are falsy), and
  \<^verbatim>\<open>new Date(dateTime || date || new Date())\<close>: \<open>Date_parse\<close> gives the time value
  of a date string, \<open>None\<close> for an Invalid Date.
\<close>

definition first_truthy :: "string option \<Rightarrow> string option \<Rightarrow> string option" where
  "first_truthy a b =
     (case a of
        Some s \<Rightarrow> if s \<noteq> [] then Some s else (case b of Some t \<Rightarrow> if t \<noteq> [] then Some t else None | None \<Rightarrow> None)
      | None \<Rightarrow> (case b of Some t \<Rightarrow> if t \<noteq> [] then Some t else None | None \<Rightarrow> None))"

definition resolve_date :: "(string \<Rightarrow> instant option) \<Rightarrow> instant \<Rightarrow> time_spec \<Rightarrow> instant option" where
  "resolve_date Date_parse now ts =
     (case first_truthy (dateTime ts) (date ts) of Some s \<Rightarrow> Date_parse s | None \<Rightarrow> Some now)"

definition title_of :: "CalendarEvent \<Rightarrow> string" where
  "title_of event = (case summary event of Some s \<Rightarrow> if s \<noteq> [] then s else ''Untitled'' | None \<Rightarrow> ''Untitled'')"

definition findUnique :: "store \<Rightarrow> string \<Rightarrow> ae_row option" where
  "findUnique s eid = find (\<lambda>r. eventId r = eid) (analyzedEvent_table s)"

definition tasks_of :: "store \<Rightarrow> nat \<Rightarrow> task_row list" where
  "tasks_of s aid = filter (\<lambda>t. analyzedEventId t = aid) (suggestedTask_table s)"

text \<open>
  \<^verbatim>\<open>prisma.analyzedEvent.upsert\<close>. The database rejects an Invalid Date, an event
  type that is not a string and a flag that is not a boolean. An existing row keeps its
  id and its household; a new row takes a fresh id.
\<close>

definition upsert ::
  "instant \<Rightarrow> string \<Rightarrow> CalendarEvent \<Rightarrow> analysis_arg \<Rightarrow> instant option \<Rightarrow> instant option \<Rightarrow> store
     \<Rightarrow> thrown + (ae_row \<times> store)" where
  "upsert now hid event analysis startDate endDate s =
     (case (startDate, endDate, arg_eventType analysis, arg_requiresSitter analysis,
            arg_requiresTravel analysis, arg_requiresFormalAttire analysis) of
        (Some sd, Some ed, JStr et, JBool rs, JBool rt, JBool rf) \<Rightarrow>
          (case findUnique s (event_id event) of
             Some row \<Rightarrow>
               (let row' = row \<lparr> eventTitle := title_of event, eventStart := sd, eventEnd := ed,
                                 eventData := event, ae_eventType := et, ae_requiresSitter := rs,
                                 ae_requiresTravel := rt, ae_requiresFormalAttire := rf,
                                 analysisData := analysis, analyzedAt := Some now \<rparr>
                in Inr (row', s \<lparr> analyzedEvent_table :=
                                   map (\<lambda>r. if eventId r = event_id event then row' else r)
                                     (analyzedEvent_table s) \<rparr>))
           | None \<Rightarrow>
               (let row' = \<lparr> ae_id = next_id s, eventId = event_id event, ae_householdId = hid,
                             eventTitle = title_of event, eventStart = sd, eventEnd = ed,
                             eventData = event, ae_eventType = et, ae_requiresSitter = rs,
                             ae_requiresTravel = rt, ae_requiresFormalAttire = rf,
                             analysisData = analysis, analyzedAt = None \<rparr>
                in Inr (row', s \<lparr> analyzedEvent_table := analyzedEvent_table s @ [row'],
                                  next_id := next_id s + 1 \<rparr>)))
      | _ \<Rightarrow> Inl (JsError ''PrismaClientValidationError''))"

definition deleteMany_tasks :: "nat \<Rightarrow> store \<Rightarrow> store" where
  "deleteMany_tasks aid s =
     s \<lparr> suggestedTask_table := filter (\<lambda>t. analyzedEventId t \<noteq> aid) (suggestedTask_table s) \<rparr>"

text \<open>
  The due date of a suggested task:
  \<^verbatim>\<open>dueDate.setDate(dueDate.getDate() - task.daysBeforeEvent)\<close> on
  \<^verbatim>\<open>new Date(startDate)\<close>, a copy of the start date; the copy of an Invalid Date is
  an Invalid Date and stays one. The data of one \<^verbatim>\<open>prisma.suggestedTask.create\<close>,
  with status pending.
\<close>

definition due_date :: "calendar \<Rightarrow> instant option \<Rightarrow> SuggestedTask \<Rightarrow> instant option" where
  "due_date cal startDate task =
     (case startDate of
        None \<Rightarrow> None
      | Some sd \<Rightarrow> cal sd (js_neg (daysBeforeEvent task)))"

definition new_task :: "string \<Rightarrow> nat \<Rightarrow> instant \<Rightarrow> nat \<Rightarrow> SuggestedTask \<Rightarrow> task_row" where
  "new_task hid aid due i task =
     \<lparr> task_id = i, analyzedEventId = aid, householdId = hid, title = st_title task,
       description = st_description task, task_type = st_type task,
       priority = st_priority task, dueDate = due, status = ''pending'' \<rparr>"

text \<open>
  \<^verbatim>\<open>Promise.all\<close> over the creates, which are started in the order of the list. A
  create whose due date is an Invalid Date rejects (\<open>None\<close>) and writes nothing; the
  other creates still write their rows.
\<close>

fun create_tasks ::
  "calendar \<Rightarrow> string \<Rightarrow> nat \<Rightarrow> instant option \<Rightarrow> SuggestedTask list \<Rightarrow> store
     \<Rightarrow> task_row option list \<times> store" where
  "create_tasks cal hid aid startDate [] s = ([], s)"
| "create_tasks cal hid aid startDate (task # rest) s =
     (case due_date cal startDate task of
        None \<Rightarrow>
          (let (rows, s') = create_tasks cal hid aid startDate rest s in (None # rows, s'))
      | Some due \<Rightarrow>
          (let row = new_task hid aid due (next_id s) task;
               s' = s \<lparr> suggestedTask_table := suggestedTask_table s @ [row], next_id := next_id s + 1 \<rparr>;
               (rows, s'') = create_tasks cal hid aid startDate rest s'
           in (Some row # rows, s'')))"

text \<open>
  saveAnalyzedEvent returns a value or throws, and leaves a store in both cases: what
  was written before a throw stays written. \<open>write_analysis\<close> is the part after the
  cache check: the upsert, the deletion of the old tasks and the creation of the new
  ones. A missing \<^verbatim>\<open>suggestedTasks\<close> makes \<^verbatim>\<open>.map\<close> throw a TypeError.
\<close>

definition write_analysis ::
  "calendar \<Rightarrow> instant \<Rightarrow> string \<Rightarrow> CalendarEvent \<Rightarrow> analysis_arg \<Rightarrow> instant option \<Rightarrow> instant option
     \<Rightarrow> store \<Rightarrow> (thrown + saved) \<times> store" where
  "write_analysis cal now hid event analysis startDate endDate s =
     (case upsert now hid event analysis startDate endDate s of
        Inl err \<Rightarrow> (Inl err, s)
      | Inr (analyzedEvent, s1) \<Rightarrow>
          (let s2 = deleteMany_tasks (ae_id analyzedEvent) s1 in
           case suggestedTasks analysis of
             None \<Rightarrow> (Inl (JsError ''TypeError: Cannot read properties of undefined''), s2)
           | Some sts \<Rightarrow>
               (let (rows, s3) = create_tasks cal hid (ae_id analyzedEvent) startDate sts s2
                in case those rows of
                     None \<Rightarrow> (Inl (JsError ''PrismaClientValidationError''), s3)
                   | Some created \<Rightarrow> (Inr \<lparr> saved_event = analyzedEvent, saved_tasks = created \<rparr>, s3))))"

text \<open>
  The first two statements read \<^verbatim>\<open>event.start.dateTime\<close> and
  \<^verbatim>\<open>event.end.dateTime\<close> and throw a TypeError when the object is missing.
\<close>

definition saveAnalyzedEvent ::
  "calendar \<Rightarrow> (string \<Rightarrow> instant option) \<Rightarrow> instant \<Rightarrow> string \<Rightarrow> CalendarEvent \<Rightarrow> analysis_arg
     \<Rightarrow> store \<Rightarrow> (thrown + saved) \<times> store" where
  "saveAnalyzedEvent cal Date_parse now hid event analysis s =
     (case event_start event of
        None \<Rightarrow> (Inl (JsError ''TypeError: Cannot read properties of undefined (reading dateTime)''), s)
      | Some start \<Rightarrow>
          (case event_end event of
             None \<Rightarrow> (Inl (JsError ''TypeError: Cannot read properties of undefined (reading dateTime)''), s)
           | Some fin \<Rightarrow>
               (let startDate = resolve_date Date_parse now start;
                    endDate = resolve_date Date_parse now fin
                in case findUnique s (event_id event) of
                     Some existing \<Rightarrow>
                       (if \<not> truthy (forceReanalysis analysis) then
                          (Inr \<lparr> saved_event = existing, saved_tasks = tasks_of s (ae_id existing) \<rparr>, s)
                        else write_analysis cal now hid event analysis startDate endDate s)
                   | None \<Rightarrow> write_analysis cal now hid event analysis startDate endDate s)))"

text \<open>
  The invariant of the store: \<^verbatim>\<open>eventId\<close> is unique, and every id in use is below
  the counter of fresh ids.
\<close>

definition wf_store :: "store \<Rightarrow> bool" where
  "wf_store s =
     (distinct (map eventId (analyzedEvent_table s))
      \<and> list_all (\<lambda>r. ae_id r < next_id s) (analyzedEvent_table s)
      \<and> list_all (\<lambda>t. task_id t < next_id s) (suggestedTask_table s))"

subsection \<open>Example analysis and store\<close>

text \<open>
  The end-to-end example: the Birthday Party starts ten days after \<open>example_now\<close> at
  18:00; its analysis asks for a sitter and suggests one task, seven days before.
  \<open>example_Date_parse\<close> gives the time values of the date strings of the examples; a
  date without a time is midnight UTC.
\<close>

definition example_Date_parse :: "string \<Rightarrow> instant option" where
  "example_Date_parse s =
     (if s = ''2025-11-13T18:00:00Z'' then Some 1763056800000
      else if s = ''2025-11-13T21:00:00Z'' then Some 1763067600000
      else if s = ''2025-11-13'' then Some 1762992000000
      else if s = ''2025-11-14'' then Some 1763078400000 else None)"

definition example_analysis :: "js_value \<Rightarrow> string \<Rightarrow> rat \<Rightarrow> analysis_arg" where
  "example_analysis force task_title days =
     \<lparr> forceReanalysis = force, arg_eventType = JStr ''social'', arg_requiresSitter = JBool True,
       arg_requiresTravel = JBool False, arg_requiresFormalAttire = JBool False,
       suggestedTasks = Some [\<lparr> st_title = task_title, st_type = ''booking'',
                                daysBeforeEvent = Finite days, st_priority = ''high'',
                                st_description = None \<rparr>] \<rparr>"

definition empty_store :: store where
  "empty_store = \<lparr> analyzedEvent_table = [], suggestedTask_table = [], next_id = 0 \<rparr>"

text \<open>The store after the first analysis of event \<open>e1\<close> has been saved.\<close>

definition example_store :: store where
  "example_store =
     snd (saveAnalyzedEvent example_calendar example_Date_parse example_now ''h1'' (example_event ''e1'')
            (example_analysis JUndefined ''Book babysitter'' 7) empty_store)"

section \<open>The analyze route (app/api/calendar/analyze/route.ts, POST)\<close>

text \<open>
  The object built by the settings-aware analyzeCalendarEvent, as saveAnalyzedEvent reads
  it: it has the event type and the three flags, and neither a \<^verbatim>\<open>forceReanalysis\<close>
  nor a \<^verbatim>\<open>suggestedTasks\<close> property.
\<close>

definition as_analysis_arg :: "EventAnalysis \<Rightarrow> analysis_arg" where
  "as_analysis_arg a =
     \<lparr> forceReanalysis = JUndefined, arg_eventType = eventType a,
       arg_requiresSitter = requiresSitter a, arg_requiresTravel = requiresTravel a,
       arg_requiresFormalAttire = requiresFormalAttire a, suggestedTasks = None \<rparr>"

text \<open>
  The body of the request: \<open>req_events\<close> is \<open>None\<close> when \<^verbatim>\<open>events\<close> is missing
  or not an array, \<open>req_skipCache\<close> is \<open>None\<close> when \<^verbatim>\<open>skipCache\<close> is left out
  (it then defaults to false).
\<close>

record analyze_request =
  req_events :: "CalendarEvent list option"
  req_skipCache :: "bool option"

text \<open>
  The filter of the route: the event starts at or after one week before now. An event
  without a start object or a start string gives \<^verbatim>\<open>new Date('')\<close>, an Invalid Date,
  whose comparison is false, as is the comparison with an Invalid Date for the week
  before.
\<close>

definition is_relevant :: "calendar \<Rightarrow> (string \<Rightarrow> instant option) \<Rightarrow> instant \<Rightarrow> CalendarEvent \<Rightarrow> bool" where
  "is_relevant cal Date_parse now event =
     (case event_start event of
        None \<Rightarrow> False
      | Some start \<Rightarrow>
          (case first_truthy (dateTime start) (date start) of
             None \<Rightarrow> False
           | Some s \<Rightarrow> (case Date_parse s of None \<Rightarrow> False | Some d \<Rightarrow> date_ge d (cal now (Finite (- 7))))))"

text \<open>
  The loop that saves the analyses; a throw of saveAnalyzedEvent ends it.
\<close>

fun save_all ::
  "calendar \<Rightarrow> (string \<Rightarrow> instant option) \<Rightarrow> instant \<Rightarrow> string \<Rightarrow> (string \<times> EventAnalysis) list
     \<Rightarrow> CalendarEvent list \<Rightarrow> saved list \<Rightarrow> store \<Rightarrow> (thrown + saved list) \<times> store" where
  "save_all cal Date_parse now hid analysisResults [] savedEvents s = (Inr savedEvents, s)"
| "save_all cal Date_parse now hid analysisResults (event # rest) savedEvents s =
     (case map_of analysisResults (event_id event) of
        None \<Rightarrow> save_all cal Date_parse now hid analysisResults rest savedEvents s
      | Some analysis \<Rightarrow>
          (case saveAnalyzedEvent cal Date_parse now hid event (as_analysis_arg analysis) s of
             (Inl err, s') \<Rightarrow> (Inl err, s')
           | (Inr sv, s') \<Rightarrow>
               save_all cal Date_parse now hid analysisResults rest (savedEvents @ [sv]) s'))"

text \<open>
  The outcome of POST, for an authenticated user whose household is \<open>hid\<close>, up to the
  saving of the analyses: the HTTP status of an error response (400 for a bad body, 500
  for a throw) or the saved events, the store afterwards, and whether the skip-cache
  line was logged. \<open>dev\<close> says that \<^verbatim>\<open>NODE_ENV\<close> is development. The route calls
  analyzeBatchEvents with undefined settings and knowledge base. The outcome is \<open>None\<close>
  when analyzeBatchEvents does not return.
\<close>

record post_outcome =
  response :: "nat + saved list"
  store_after :: store
  skip_cache_logged :: bool

definition POST_analyze ::
  "calendar \<Rightarrow> (string \<Rightarrow> js_value option) \<Rightarrow> (nat \<Rightarrow> prompt_input \<Rightarrow> llm_outcome)
     \<Rightarrow> (string \<Rightarrow> instant option) \<Rightarrow> instant \<Rightarrow> bool \<Rightarrow> string \<Rightarrow> analyze_request \<Rightarrow> store
     \<Rightarrow> post_outcome option" where
  "POST_analyze cal JSON_parse provider Date_parse now dev hid req s =
     (let skipCache = (case req_skipCache req of None \<Rightarrow> False | Some b \<Rightarrow> b);
          logged = (skipCache \<and> dev)
      in case req_events req of
           None \<Rightarrow> Some \<lparr> response = Inl 400, store_after = s, skip_cache_logged = logged \<rparr>
         | Some events \<Rightarrow>
             (let relevantEvents = filter (is_relevant cal Date_parse now) events;
                  eventsToAnalyze = take 10 relevantEvents
              in case analyzeBatchEvents JSON_parse provider eventsToAnalyze None None of
                   None \<Rightarrow> None
                 | Some analysisResults \<Rightarrow>
                     (case save_all cal Date_parse now hid analysisResults eventsToAnalyze [] s of
                        (Inl err, s') \<Rightarrow>
                          Some \<lparr> response = Inl 500, store_after = s', skip_cache_logged = logged \<rparr>
                      | (Inr savedEvents, s') \<Rightarrow>
                          Some \<lparr> response = Inr savedEvents, store_after = s',
                                 skip_cache_logged = logged \<rparr>)))"

section \<open>The simple variants of the client and the dispatcher (lib/ai/event-analyzer.ts)\<close>

text \<open>
  The simple analyzeCalendarEvent reads \<^verbatim>\<open>event.start\<close> and \<^verbatim>\<open>event.end\<close> before
  its try block too, and throws a TypeError when one is missing. Inside the try block it
  returns the parsed object itself after checking that it has an event type and an array
  of suggested tasks, and throws when the reply has no \<^verbatim>\<open>{...}\<close> span. Its default
  has no confidence and no reasoning field. The provider answers from the event.
\<close>

fun is_array :: "js_value \<Rightarrow> bool" where
  "is_array (JArr xs) = True"
| "is_array v = False"

definition default_analysis_v1 :: js_value where
  "default_analysis_v1 =
     JObj [(''eventType'', JStr ''other''), (''requiresSitter'', JBool False),
           (''requiresTravel'', JBool False), (''requiresFormalAttire'', JBool False),
           (''suggestedTasks'', JArr []), (''preparations'', JArr []),
           (''notes'', JStr ''Analysis failed - manual review recommended'')]"

definition analyze_try_v1 ::
  "(string \<Rightarrow> js_value option) \<Rightarrow> llm_outcome \<Rightarrow> thrown + js_value" where
  "analyze_try_v1 JSON_parse outcome =
     (case outcome of
        Rejected err \<Rightarrow> Inl err
      | Resolved content \<Rightarrow>
          (case content of
             [] \<Rightarrow> Inl (JsError ''TypeError: Cannot read properties of undefined'')
           | OtherBlock # rest \<Rightarrow> Inl (JsError ''Unexpected response type from Claude'')
           | TextBlock text # rest \<Rightarrow>
               (case match_braces text of
                  None \<Rightarrow> Inl (JsError ''No JSON found in response'')
                | Some jsonMatch \<Rightarrow>
                    (case JSON_parse jsonMatch of
                       None \<Rightarrow> Inl (JsError ''SyntaxError'')
                     | Some analysis \<Rightarrow>
                         (case get_prop analysis ''eventType'' of
                            Inl err \<Rightarrow> Inl err
                          | Inr et \<Rightarrow>
                              if truthy et \<and> is_array (prop_of analysis ''suggestedTasks'')
                              then Inr analysis
                              else Inl (JsError ''Invalid analysis structure''))))))"

definition analyzeCalendarEvent_v1 ::
  "(string \<Rightarrow> js_value option) \<Rightarrow> (CalendarEvent \<Rightarrow> llm_outcome) \<Rightarrow> CalendarEvent
     \<Rightarrow> thrown + js_value" where
  "analyzeCalendarEvent_v1 JSON_parse llm event =
     (case event_start event of
        None \<Rightarrow> Inl (JsError ''TypeError: Cannot read properties of undefined (reading dateTime)'')
      | Some start \<Rightarrow>
          (case event_end event of
             None \<Rightarrow> Inl (JsError ''TypeError: Cannot read properties of undefined (reading dateTime)'')
           | Some fin \<Rightarrow>
               (case analyze_try_v1 JSON_parse (llm event) of
                  Inr analysis \<Rightarrow> Inr analysis
                | Inl err \<Rightarrow> Inr default_analysis_v1)))"

text \<open>
  \<^verbatim>\<open>xs.slice(start, fin)\<close>: each index is made an integer by truncation
  (not-a-number is 0), a negative index counts from the end, and an index beyond the
  length is cut off.
\<close>

definition js_trunc :: "rat \<Rightarrow> int" where
  "js_trunc q = (if 0 \<le> q then \<lfloor>q\<rfloor> else \<lceil>q\<rceil>)"

definition relative_index :: "nat \<Rightarrow> js_number \<Rightarrow> nat" where
  "relative_index len x =
     (case x of
        NaN \<Rightarrow> 0
      | NegInfinity \<Rightarrow> 0
      | PosInfinity \<Rightarrow> len
      | Finite q \<Rightarrow>
          (let k = js_trunc q
           in if k < 0 then nat (max (int len + k) 0) else nat (min k (int len))))"

definition js_slice :: "'a list \<Rightarrow> js_number \<Rightarrow> js_number \<Rightarrow> 'a list" where
  "js_slice xs start fin =
     (let k = relative_index (length xs) start;
          f = relative_index (length xs) fin
      in take (f - k) (drop k xs))"

text \<open>\<^verbatim>\<open>i < events.length\<close> for a number \<open>i\<close>.\<close>

definition js_less_length :: "js_number \<Rightarrow> nat \<Rightarrow> bool" where
  "js_less_length i len =
     (case i of NaN \<Rightarrow> False | PosInfinity \<Rightarrow> False | NegInfinity \<Rightarrow> True
      | Finite q \<Rightarrow> q < of_nat len)"

text \<open>
  One batch: the calls are started in the order of the batch, a call that throws gives
  \<^verbatim>\<open>null\<close> (here \<open>None\<close>), and the results that are not null are stored in order.
\<close>

fun batch_results ::
  "(nat \<Rightarrow> CalendarEvent \<Rightarrow> thrown + js_value) \<Rightarrow> nat \<Rightarrow> CalendarEvent list
     \<Rightarrow> (string \<times> js_value) option list" where
  "batch_results client n [] = []"
| "batch_results client n (event # rest) =
     (case client n event of Inr analysis \<Rightarrow> Some (event_id event, analysis) | Inl err \<Rightarrow> None)
       # batch_results client (n + 1) rest"

fun store_results ::
  "(string \<times> js_value) option list \<Rightarrow> (string \<times> js_value) list \<Rightarrow> (string \<times> js_value) list" where
  "store_results [] m = m"
| "store_results (None # rest) m = store_results rest m"
| "store_results (Some (k, a) # rest) m = store_results rest (AList.update k a m)"

text \<open>
  The loop \<^verbatim>\<open>for (let i = 0; i < events.length; i += maxConcurrent)\<close>; it does not
  end when \<^verbatim>\<open>maxConcurrent\<close> is zero or negative and there is an event.
\<close>

partial_function (option) batch_loop_v1 ::
  "(nat \<Rightarrow> CalendarEvent \<Rightarrow> thrown + js_value) \<Rightarrow> CalendarEvent list \<Rightarrow> js_number \<Rightarrow> js_number
     \<Rightarrow> nat \<Rightarrow> (string \<times> js_value) list \<Rightarrow> (string \<times> js_value) list option" where
  "batch_loop_v1 client events maxConcurrent i n m =
     (if js_less_length i (length events) then
        (let batch = js_slice events i (js_add i maxConcurrent)
         in batch_loop_v1 client events maxConcurrent (js_add i maxConcurrent) (n + length batch)
              (store_results (batch_results client n batch) m))
      else Some m)"

definition analyzeBatchEvents_v1 ::
  "(string \<Rightarrow> js_value option) \<Rightarrow> (nat \<Rightarrow> CalendarEvent \<Rightarrow> llm_outcome) \<Rightarrow> CalendarEvent list
     \<Rightarrow> js_number option \<Rightarrow> (string \<times> js_value) list option" where
  "analyzeBatchEvents_v1 JSON_parse provider events opt_maxConcurrent =
     (let maxConcurrent = (case opt_maxConcurrent of None \<Rightarrow> Finite 3 | Some k \<Rightarrow> k)
      in batch_loop_v1 (\<lambda>n. analyzeCalendarEvent_v1 JSON_parse (provider n)) events maxConcurrent
           (Finite 0) 0 [])"

text \<open>
  The value the simple analyzeCalendarEvent returns for the \<open>n\<close>-th call of the provider,
  when it returns.
\<close>

definition client_value_v1 ::
  "(string \<Rightarrow> js_value option) \<Rightarrow> (nat \<Rightarrow> CalendarEvent \<Rightarrow> llm_outcome) \<Rightarrow> nat \<Rightarrow> CalendarEvent
     \<Rightarrow> js_value" where
  "client_value_v1 JSON_parse provider n e =
     (case analyze_try_v1 JSON_parse (provider n e) of Inr a \<Rightarrow> a | Inl err \<Rightarrow> default_analysis_v1)"

text \<open>The same providers, answering from the event.\<close>

definition example_provider_v1 :: "nat \<Rightarrow> CalendarEvent \<Rightarrow> llm_outcome" where
  "example_provider_v1 n e =
     (if event_id e = ''e2'' then Rejected (JsError ''429 rate_limit_error'')
      else if event_id e = ''e3'' then Resolved [TextBlock ''Sorry, I cannot help.'']
      else Resolved [TextBlock ''{}''])"

section \<open>The Task Bucketizer\<close>

lemma mset_orderBy_insert: "mset (orderBy_insert t ts) = add_mset t (mset ts)"
  by (induction ts) auto

lemma mset_orderBy: "mset (orderBy ts) = mset ts"
  by (induction ts) (auto simp: mset_orderBy_insert)

lemma filter_split_mset:
  fixes a b c :: int
  assumes "a \<le> b" "b \<le> c"
  shows "mset (filter (\<lambda>t. f t < a) xs) + mset (filter (\<lambda>t. f t \<ge> a \<and> f t < b) xs)
       + mset (filter (\<lambda>t. f t \<ge> b \<and> f t < c) xs) + mset (filter (\<lambda>t. f t \<ge> c) xs) = mset xs"
  using assms by (induction xs) auto

lemma whole_days_24hD:
  "whole_days_24h cal \<Longrightarrow> \<bar>t + n * 86400000\<bar> \<le> 8640000000000000 \<Longrightarrow>
     cal t (Finite (of_int n)) = Some (t + n * 86400000)"
  by (simp add: whole_days_24h_def day_ms_def)

lemma whole_days_24h_example: "whole_days_24h example_calendar"
  by (simp add: whole_days_24h_def example_calendar_def)

text \<open>
  When the end of the window is an Invalid Date (a \<^verbatim>\<open>daysAhead\<close> that is not a finite
  number, or too large), getUpcomingTasks throws.
\<close>

lemma getUpcomingTasks_invalid_window:
  "cal (at_endDate clk) (case opt_daysAhead opts of None \<Rightarrow> Finite 30 | Some d \<Rightarrow> d) = None \<Longrightarrow>
     getUpcomingTasks cal table clk hid opts = Inl (JsError ''PrismaClientValidationError'')"
  by (simp add: getUpcomingTasks_def Let_def)

text \<open>
  C1 (as amended). Let \<open>E\<close> be the end of the lookahead window, the clock reading moved
  forward by \<^verbatim>\<open>daysAhead\<close> (default 30) calendar days of the zone of the process, and
  \<open>W\<close> and \<open>N\<close> the clock readings moved forward by 7 and 14 calendar days. Then
  getUpcomingTasks returns exactly the tasks of the household that are pending (or of any
  status, when completed ones are asked for) and due between the clock reading of the
  query and \<open>E\<close>, both inclusive. The four buckets partition this result: overdue is the
  part due before the clock reading of the bucketing, this-week the part from there to
  before \<open>W\<close>, next-week the part from \<open>W\<close> to before \<open>N\<close>, later the part from \<open>N\<close>
  on. A task due before the query's clock reading is in no bucket: the overdue bucket
  holds only tasks that fell due between the clock reading of the query and the later
  reading of the bucketing. The partition needs the boundaries to be in order, as they
  are when the clock does not run backwards: the clock reading of the bucketing is not
  after \<open>W\<close>, and \<open>W\<close> is not after \<open>N\<close>. In a zone with a fixed offset from UTC, a
  calendar day is 24 hours: \<open>W\<close> and \<open>N\<close> are 7 and 14 times 86400000 ms after their
  clock readings, and \<open>E\<close> is \<^verbatim>\<open>daysAhead\<close> times 86400000 ms after its clock
  reading, for the default of 30 days and for every whole number of days.
\<close>

theorem getUpcomingTasks_window:
  fixes cal :: calendar and table clk hid opts E W N
  assumes endD: "cal (at_endDate clk) (case opt_daysAhead opts of None \<Rightarrow> Finite 30 | Some d \<Rightarrow> d) = Some E"
    and wk: "cal (at_thisWeek clk) (Finite 7) = Some W"
    and nx: "cal (at_nextWeek clk) (Finite 14) = Some N"
    and mono: "at_today clk \<le> W" "W \<le> N"
  shows "\<exists>r. getUpcomingTasks cal table clk hid opts = Inr r
       \<and> mset (all_tasks r) =
           filter_mset (\<lambda>t. householdId t = hid
              \<and> (opt_includeCompleted opts = Some True \<or> status t = ''pending'')
              \<and> at_query clk \<le> dueDate t \<and> dueDate t \<le> E)
             (mset table)
       \<and> mset (overdue r) + mset (thisWeek r) + mset (nextWeek r) + mset (later r) = mset (all_tasks r)
       \<and> overdue r = filter (\<lambda>t. dueDate t < at_today clk) (all_tasks r)
       \<and> thisWeek r = filter (\<lambda>t. at_today clk \<le> dueDate t \<and> dueDate t < W) (all_tasks r)
       \<and> nextWeek r = filter (\<lambda>t. W \<le> dueDate t \<and> dueDate t < N) (all_tasks r)
       \<and> later r = filter (\<lambda>t. N \<le> dueDate t) (all_tasks r)
       \<and> (\<forall>t \<in> set (all_tasks r). at_query clk \<le> dueDate t)
       \<and> (\<forall>t \<in> set (overdue r). at_query clk \<le> dueDate t \<and> dueDate t < at_today clk)
       \<and> (whole_days_24h cal \<and> \<bar>at_thisWeek clk + 7 * 86400000\<bar> \<le> 8640000000000000
            \<longrightarrow> W = at_thisWeek clk + 7 * 86400000)
       \<and> (whole_days_24h cal \<and> \<bar>at_nextWeek clk + 14 * 86400000\<bar> \<le> 8640000000000000
            \<longrightarrow> N = at_nextWeek clk + 14 * 86400000)
       \<and> (whole_days_24h cal \<and> opt_daysAhead opts = None
              \<and> \<bar>at_endDate clk + 30 * 86400000\<bar> \<le> 8640000000000000
            \<longrightarrow> E = at_endDate clk + 30 * 86400000)
       \<and> (\<forall>n. whole_days_24h cal \<and> opt_daysAhead opts = Some (Finite (of_int n))
              \<and> \<bar>at_endDate clk + n * 86400000\<bar> \<le> 8640000000000000
            \<longrightarrow> E = at_endDate clk + n * 86400000)"
proof -
  define inc where "inc = (case opt_includeCompleted opts of None \<Rightarrow> False | Some b \<Rightarrow> b)"
  define tasks where "tasks = findMany_upcoming table hid inc (at_query clk) E"
  define r where "r = \<lparr> overdue = filter (\<lambda>t. dueDate t < at_today clk) tasks,
                       thisWeek = filter (\<lambda>t. at_today clk \<le> dueDate t \<and> dueDate t < W) tasks,
                       nextWeek = filter (\<lambda>t. W \<le> dueDate t \<and> dueDate t < N) tasks,
                       later = filter (\<lambda>t. N \<le> dueDate t) tasks,
                       all_tasks = tasks \<rparr>"
  have ret: "getUpcomingTasks cal table clk hid opts = Inr r"
    by (simp add: getUpcomingTasks_def Let_def endD wk nx date_lt_def date_ge_def r_def tasks_def inc_def)
  have all: "mset (all_tasks r) = filter_mset (\<lambda>t. householdId t = hid
              \<and> (opt_includeCompleted opts = Some True \<or> status t = ''pending'')
              \<and> at_query clk \<le> dueDate t \<and> dueDate t \<le> E)
             (mset table)"
    unfolding r_def tasks_def inc_def findMany_upcoming_def
    by (auto simp: mset_orderBy split: option.splits intro!: filter_mset_cong)
  have b1: "overdue r = filter (\<lambda>t. dueDate t < at_today clk) (all_tasks r)"
    and b2: "thisWeek r = filter (\<lambda>t. at_today clk \<le> dueDate t \<and> dueDate t < W) (all_tasks r)"
    and b3: "nextWeek r = filter (\<lambda>t. W \<le> dueDate t \<and> dueDate t < N) (all_tasks r)"
    and b4: "later r = filter (\<lambda>t. N \<le> dueDate t) (all_tasks r)"
    by (simp_all add: r_def)
  have part: "mset (overdue r) + mset (thisWeek r) + mset (nextWeek r) + mset (later r) = mset (all_tasks r)"
    unfolding b1 b2 b3 b4
    using mono by (intro filter_split_mset) auto
  have lo: "\<forall>t \<in> set (all_tasks r). at_query clk \<le> dueDate t"
  proof
    fix t assume "t \<in> set (all_tasks r)"
    then have "t \<in># mset (all_tasks r)" by simp
    then show "at_query clk \<le> dueDate t" unfolding all by simp
  qed
  have od: "\<forall>t \<in> set (overdue r). at_query clk \<le> dueDate t \<and> dueDate t < at_today clk"
    using lo unfolding b1 by simp
  have w24: "whole_days_24h cal \<and> \<bar>at_thisWeek clk + 7 * 86400000\<bar> \<le> 8640000000000000
            \<longrightarrow> W = at_thisWeek clk + 7 * 86400000"
  proof
    assume h: "whole_days_24h cal \<and> \<bar>at_thisWeek clk + 7 * 86400000\<bar> \<le> 8640000000000000"
    then have "cal (at_thisWeek clk) (Finite 7) = Some (at_thisWeek clk + 7 * 86400000)"
      using whole_days_24hD [of cal "at_thisWeek clk" 7] by simp
    with wk show "W = at_thisWeek clk + 7 * 86400000" by (simp add: day_ms_def)
  qed
  have n24: "whole_days_24h cal \<and> \<bar>at_nextWeek clk + 14 * 86400000\<bar> \<le> 8640000000000000
            \<longrightarrow> N = at_nextWeek clk + 14 * 86400000"
  proof
    assume h: "whole_days_24h cal \<and> \<bar>at_nextWeek clk + 14 * 86400000\<bar> \<le> 8640000000000000"
    then have "cal (at_nextWeek clk) (Finite 14) = Some (at_nextWeek clk + 14 * 86400000)"
      using whole_days_24hD [of cal "at_nextWeek clk" 14] by simp
    with nx show "N = at_nextWeek clk + 14 * 86400000" by (simp add: day_ms_def)
  qed
  have e24: "whole_days_24h cal \<and> opt_daysAhead opts = None
              \<and> \<bar>at_endDate clk + 30 * 86400000\<bar> \<le> 8640000000000000
            \<longrightarrow> E = at_endDate clk + 30 * 86400000"
  proof
    assume h: "whole_days_24h cal \<and> opt_daysAhead opts = None
              \<and> \<bar>at_endDate clk + 30 * 86400000\<bar> \<le> 8640000000000000"
    then have "cal (at_endDate clk) (Finite 30) = Some (at_endDate clk + 30 * 86400000)"
      using whole_days_24hD [of cal "at_endDate clk" 30] by simp
    with endD h show "E = at_endDate clk + 30 * 86400000" by (simp add: day_ms_def)
  qed
  have en24: "\<forall>n. whole_days_24h cal \<and> opt_daysAhead opts = Some (Finite (of_int n))
              \<and> \<bar>at_endDate clk + n * 86400000\<bar> \<le> 8640000000000000
            \<longrightarrow> E = at_endDate clk + n * 86400000"
  proof (intro allI impI)
    fix n
    assume h: "whole_days_24h cal \<and> opt_daysAhead opts = Some (Finite (of_int n))
              \<and> \<bar>at_endDate clk + n * 86400000\<bar> \<le> 8640000000000000"
    then have "cal (at_endDate clk) (Finite (of_int n)) = Some (at_endDate clk + n * 86400000)"
      using whole_days_24hD [of cal "at_endDate clk" n] by simp
    with endD h show "E = at_endDate clk + n * 86400000" by simp
  qed
  show ?thesis
    apply (rule exI [of _ r])
    apply (intro conjI)
    apply (rule ret, rule all, rule part, rule b1, rule b2, rule b3, rule b4, rule lo, rule od,
      rule w24, rule n24, rule e24, rule en24)
    done
qed

text \<open>
  The theorem at the example of the specification, in UTC: tasks due one day before now
  and 2, 10 and 20 days after now. The three future tasks are returned, each in its
  bucket; the past one is not.
\<close>

theorem getUpcomingTasks_window_witness:
  "example_calendar (at_endDate example_clock) (Finite 30) = Some (example_now + 30 * 86400000)
   \<and> example_calendar (at_thisWeek example_clock) (Finite 7) = Some (example_now + 2 + 7 * 86400000)
   \<and> example_calendar (at_nextWeek example_clock) (Finite 14) = Some (example_now + 2 + 14 * 86400000)
   \<and> at_today example_clock \<le> example_now + 2 + 7 * 86400000
   \<and> example_now + 2 + 7 * 86400000 \<le> example_now + 2 + 14 * 86400000
   \<and> whole_days_24h example_calendar
   \<and> (\<exists>r. getUpcomingTasks example_calendar
          [example_task 1 ''high'' (example_now - 86400000),
           example_task 2 ''high'' (example_now + 2 * 86400000),
           example_task 3 ''high'' (example_now + 10 * 86400000),
           example_task 4 ''high'' (example_now + 20 * 86400000)] example_clock ''h1'' no_options = Inr r
        \<and> mset (overdue r) + mset (thisWeek r) + mset (nextWeek r) + mset (later r) = mset (all_tasks r)
        \<and> map task_id (all_tasks r) = [2, 3, 4]
        \<and> map task_id (overdue r) = []
        \<and> map task_id (thisWeek r) = [2]
        \<and> map task_id (nextWeek r) = [3]
        \<and> map task_id (later r) = [4])"
proof -
  let ?table = "[example_task 1 ''high'' (example_now - 86400000),
           example_task 2 ''high'' (example_now + 2 * 86400000),
           example_task 3 ''high'' (example_now + 10 * 86400000),
           example_task 4 ''high'' (example_now + 20 * 86400000)]"
  have e: "example_calendar (at_endDate example_clock)
             (case opt_daysAhead no_options of None \<Rightarrow> Finite 30 | Some d \<Rightarrow> d)
           = Some (example_now + 30 * 86400000)"
    by (simp add: example_calendar_def example_clock_def example_now_def no_options_def day_ms_def)
  have e': "example_calendar (at_endDate example_clock) (Finite 30) = Some (example_now + 30 * 86400000)"
    by (simp add: example_calendar_def example_clock_def example_now_def day_ms_def)
  have w: "example_calendar (at_thisWeek example_clock) (Finite 7) = Some (example_now + 2 + 7 * 86400000)"
    by (simp add: example_calendar_def example_clock_def example_now_def day_ms_def)
  have n: "example_calendar (at_nextWeek example_clock) (Finite 14) = Some (example_now + 2 + 14 * 86400000)"
    by (simp add: example_calendar_def example_clock_def example_now_def day_ms_def)
  have m: "at_today example_clock \<le> example_now + 2 + 7 * 86400000"
    "example_now + 2 + 7 * 86400000 \<le> example_now + 2 + 14 * 86400000"
    by (simp_all add: example_clock_def)
  from getUpcomingTasks_window [OF e w n m, of ?table "''h1''"] obtain r where
    r: "getUpcomingTasks example_calendar ?table example_clock ''h1'' no_options = Inr r"
    and p: "mset (overdue r) + mset (thisWeek r) + mset (nextWeek r) + mset (later r) = mset (all_tasks r)"
    by (elim exE conjE)
  have v: "getUpcomingTasks example_calendar ?table example_clock ''h1'' no_options
      = Inr \<lparr> overdue = [], thisWeek = [example_task 2 ''high'' (example_now + 2 * 86400000)],
              nextWeek = [example_task 3 ''high'' (example_now + 10 * 86400000)],
              later = [example_task 4 ''high'' (example_now + 20 * 86400000)],
              all_tasks = [example_task 2 ''high'' (example_now + 2 * 86400000),
                           example_task 3 ''high'' (example_now + 10 * 86400000),
                           example_task 4 ''high'' (example_now + 20 * 86400000)] \<rparr>"
    by (simp add: Let_def getUpcomingTasks_def findMany_upcoming_def example_task_def example_clock_def
        example_now_def no_options_def example_calendar_def day_ms_def orderBy_le_def
        date_lt_def date_ge_def)
  have ids: "map task_id (all_tasks r) = [2, 3, 4]" "map task_id (overdue r) = []"
    "map task_id (thisWeek r) = [2]" "map task_id (nextWeek r) = [3]" "map task_id (later r) = [4]"
    using r v by (auto simp: example_task_def)
  have ex: "\<exists>r. getUpcomingTasks example_calendar ?table example_clock ''h1'' no_options = Inr r
        \<and> mset (overdue r) + mset (thisWeek r) + mset (nextWeek r) + mset (later r) = mset (all_tasks r)
        \<and> map task_id (all_tasks r) = [2, 3, 4]
        \<and> map task_id (overdue r) = []
        \<and> map task_id (thisWeek r) = [2]
        \<and> map task_id (nextWeek r) = [3]
        \<and> map task_id (later r) = [4]"
    using r p ids by (intro exI [of _ r]) simp
  show ?thesis
    apply (intro conjI)
    apply (rule e', rule w, rule n, rule m(1), rule m(2), rule whole_days_24h_example, rule ex)
    done
qed

text \<open>
  C1 as stated fails: a pending task due one day in the past is left out by the query
  (\<^verbatim>\<open>gte: new Date()\<close>, "Don't show past-due tasks by default"), so it is in no
  bucket, and the overdue bucket is empty.
\<close>

theorem getUpcomingTasks_past_due_counterexample:
  "getUpcomingTasks example_calendar [example_task 1 ''high'' (example_now - 86400000)]
      example_clock ''h1'' no_options
   = Inr \<lparr> overdue = [], thisWeek = [], nextWeek = [], later = [], all_tasks = [] \<rparr>"
  by (simp add: Let_def getUpcomingTasks_def findMany_upcoming_def example_task_def example_clock_def
      example_now_def no_options_def example_calendar_def day_ms_def)

text \<open>
  C5. The result is ordered by ascending due date. Among tasks of equal due date the
  order is the descending text order of the priority column, which puts
  \<^verbatim>\<open>'medium'\<close> before \<^verbatim>\<open>'low'\<close> before \<^verbatim>\<open>'high'\<close>: for a high and a
  medium task due at the same instant, the medium one comes first.
\<close>

theorem getUpcomingTasks_priority_order:
  "map_sum id (\<lambda>r. map priority (all_tasks r)) (getUpcomingTasks example_calendar
      [example_task 1 ''high'' (example_now + 86400000),
       example_task 2 ''medium'' (example_now + 86400000),
       example_task 3 ''low'' (example_now + 86400000)] example_clock ''h1'' no_options)
   = Inr [''medium'', ''low'', ''high'']"
  by (simp add: Let_def getUpcomingTasks_def findMany_upcoming_def example_task_def example_clock_def
      example_now_def no_options_def example_calendar_def day_ms_def orderBy_le_def)

section \<open>The Analysis Client and the Batch Dispatcher\<close>

lemma prop_of_non_object: "\<forall>kvs. v \<noteq> JObj kvs \<Longrightarrow> prop_of v k = JUndefined"
  by (cases v) simp_all

lemma analysis_from_non_object:
  "\<forall>kvs. v \<noteq> JObj kvs \<Longrightarrow>
     analysis_from v =
       \<lparr> eventType = JStr ''other'', requiresSitter = JBool False, requiresTravel = JBool False,
         requiresFormalAttire = JBool False, tasks = JArr [], reasoning = JStr [],
         confidence = JNum (8 / 10) \<rparr>"
  by (simp add: analysis_from_def prop_of_non_object js_or_def)

lemma get_prop_Inr: "v \<noteq> JNull \<Longrightarrow> v \<noteq> JUndefined \<Longrightarrow> get_prop v k = Inr (prop_of v k)"
  by (cases v) simp_all

lemma build_prompt_Inr_iff:
  "(\<exists>prompt. build_prompt e settings knowledgeBase = Inr prompt)
     \<longleftrightarrow> has_start_end e
         \<and> (\<exists>knowledge. stringify_all (case knowledgeBase of None \<Rightarrow> [] | Some items \<Rightarrow> items) = Inr knowledge)"
  by (auto simp: build_prompt_def has_start_end_def split: option.splits sum.splits)

lemma build_prompt_ok:
  "has_start_end e \<Longrightarrow>
   stringify_all (case knowledgeBase of None \<Rightarrow> [] | Some items \<Rightarrow> items) = Inr knowledge \<Longrightarrow>
     build_prompt e settings knowledgeBase =
       Inr \<lparr> prompt_event = e, prompt_settings = settings, prompt_knowledge = knowledge \<rparr>"
  by (auto simp: build_prompt_def has_start_end_def split: option.splits)

lemma build_prompt_missing:
  "\<not> has_start_end e \<Longrightarrow>
     build_prompt e settings knowledgeBase =
       Inl (JsError ''TypeError: Cannot read properties of undefined (reading dateTime)'')"
  by (auto simp: build_prompt_def has_start_end_def split: option.splits)

lemma analyzeCalendarEvent_value:
  "has_start_end e \<Longrightarrow>
   stringify_all (case knowledgeBase of None \<Rightarrow> [] | Some items \<Rightarrow> items) = Inr knowledge \<Longrightarrow>
     analyzeCalendarEvent P (provider n) e settings knowledgeBase =
       Inr (client_value P provider settings knowledge n e)"
  by (simp add: analyzeCalendarEvent_def build_prompt_ok client_value_def split: sum.splits)

lemma analyzeCalendarEvent_missing:
  "\<not> has_start_end e \<Longrightarrow>
     analyzeCalendarEvent P llm e settings knowledgeBase =
       Inl (JsError ''TypeError: Cannot read properties of undefined (reading dateTime)'')"
  by (simp add: analyzeCalendarEvent_def build_prompt_missing)

lemma type_error_not_rate_limit:
  "\<not> is_rate_limit (JsError ''TypeError: Cannot read properties of undefined (reading dateTime)'')"
  by (simp add: is_rate_limit_def)

lemma analyze_try_simps:
  "analyze_try P (Rejected err) = Inl err"
  "analyze_try P (Resolved []) = Inl (JsError ''TypeError: Cannot read properties of undefined'')"
  "analyze_try P (Resolved (OtherBlock # rest)) = Inl (JsError ''Unexpected response type from Claude'')"
  "analyze_try P (Resolved (TextBlock text # rest)) =
     (case P (analysisText_of text) of
        None \<Rightarrow> Inl (JsError ''SyntaxError'')
      | Some analysis \<Rightarrow>
          (case get_prop analysis ''eventType'' of
             Inl err \<Rightarrow> Inl err
           | Inr et \<Rightarrow> Inr (analysis_from analysis)))"
  by (simp_all add: analyze_try_def)

lemma failure_policy_settings_aware:
  assumes bp: "build_prompt e settings knowledgeBase = Inr prompt"
  shows "(\<exists>a. analyzeCalendarEvent P llm e settings knowledgeBase = Inr a)
   \<and> (llm prompt = Rejected err
        \<longrightarrow> analyzeCalendarEvent P llm e settings knowledgeBase = Inr default_analysis)
   \<and> (llm prompt = Resolved []
        \<longrightarrow> analyzeCalendarEvent P llm e settings knowledgeBase = Inr default_analysis)
   \<and> (llm prompt = Resolved (OtherBlock # rest)
        \<longrightarrow> analyzeCalendarEvent P llm e settings knowledgeBase = Inr default_analysis)
   \<and> (llm prompt = Resolved (TextBlock text # rest) \<and> P (analysisText_of text) = None
        \<longrightarrow> analyzeCalendarEvent P llm e settings knowledgeBase = Inr default_analysis)
   \<and> (llm prompt = Resolved (TextBlock text # rest) \<and> P (analysisText_of text) = Some JNull
        \<longrightarrow> analyzeCalendarEvent P llm e settings knowledgeBase = Inr default_analysis)
   \<and> (llm prompt = Resolved (TextBlock text # rest) \<and> P (analysisText_of text) = Some v
        \<and> v \<noteq> JNull \<and> v \<noteq> JUndefined
        \<longrightarrow> analyzeCalendarEvent P llm e settings knowledgeBase =
              Inr \<lparr> eventType = js_or (prop_of v ''eventType'') (JStr ''other''),
                    requiresSitter = js_or (prop_of v ''requiresSitter'') (JBool False),
                    requiresTravel = js_or (prop_of v ''requiresTravel'') (JBool False),
                    requiresFormalAttire = js_or (prop_of v ''requiresFormalAttire'') (JBool False),
                    tasks = js_or (prop_of v ''tasks'') (JArr []),
                    reasoning = js_or (prop_of v ''reasoning'') (JStr []),
                    confidence = js_or (prop_of v ''confidence'') (JNum (8 / 10)) \<rparr>)
   \<and> (llm prompt = Resolved (TextBlock text # rest) \<and> P (analysisText_of text) = Some v
        \<and> v \<noteq> JNull \<and> v \<noteq> JUndefined \<and> (v = JObj [] \<or> (\<forall>kvs. v \<noteq> JObj kvs))
        \<longrightarrow> analyzeCalendarEvent P llm e settings knowledgeBase =
              Inr \<lparr> eventType = JStr ''other'', requiresSitter = JBool False,
                    requiresTravel = JBool False, requiresFormalAttire = JBool False,
                    tasks = JArr [], reasoning = JStr [], confidence = JNum (8 / 10) \<rparr>)"
proof -
  have ace: "analyzeCalendarEvent P llm e settings knowledgeBase =
      (case analyze_try P (llm prompt) of Inr a \<Rightarrow> Inr a | Inl err \<Rightarrow> Inr default_analysis)"
    by (simp add: analyzeCalendarEvent_def bp)
  have c1: "\<exists>a. analyzeCalendarEvent P llm e settings knowledgeBase = Inr a"
    unfolding ace by (cases "analyze_try P (llm prompt)") simp_all
  have c2: "llm prompt = Rejected err
        \<longrightarrow> analyzeCalendarEvent P llm e settings knowledgeBase = Inr default_analysis"
    unfolding ace by (simp add: analyze_try_simps)
  have c3: "llm prompt = Resolved []
        \<longrightarrow> analyzeCalendarEvent P llm e settings knowledgeBase = Inr default_analysis"
    unfolding ace by (simp add: analyze_try_simps)
  have c4: "llm prompt = Resolved (OtherBlock # rest)
        \<longrightarrow> analyzeCalendarEvent P llm e settings knowledgeBase = Inr default_analysis"
    unfolding ace by (simp add: analyze_try_simps)
  have c5: "llm prompt = Resolved (TextBlock text # rest) \<and> P (analysisText_of text) = None
        \<longrightarrow> analyzeCalendarEvent P llm e settings knowledgeBase = Inr default_analysis"
    unfolding ace by (simp add: analyze_try_simps)
  have c6: "llm prompt = Resolved (TextBlock text # rest) \<and> P (analysisText_of text) = Some JNull
        \<longrightarrow> analyzeCalendarEvent P llm e settings knowledgeBase = Inr default_analysis"
    unfolding ace by (simp add: analyze_try_simps)
  have c7: "llm prompt = Resolved (TextBlock text # rest) \<and> P (analysisText_of text) = Some v
        \<and> v \<noteq> JNull \<and> v \<noteq> JUndefined
        \<longrightarrow> analyzeCalendarEvent P llm e settings knowledgeBase =
              Inr \<lparr> eventType = js_or (prop_of v ''eventType'') (JStr ''other''),
                    requiresSitter = js_or (prop_of v ''requiresSitter'') (JBool False),
                    requiresTravel = js_or (prop_of v ''requiresTravel'') (JBool False),
                    requiresFormalAttire = js_or (prop_of v ''requiresFormalAttire'') (JBool False),
                    tasks = js_or (prop_of v ''tasks'') (JArr []),
                    reasoning = js_or (prop_of v ''reasoning'') (JStr []),
                    confidence = js_or (prop_of v ''confidence'') (JNum (8 / 10)) \<rparr>"
    unfolding ace by (simp add: analyze_try_simps get_prop_Inr analysis_from_def)
  have c8: "llm prompt = Resolved (TextBlock text # rest) \<and> P (analysisText_of text) = Some v
        \<and> v \<noteq> JNull \<and> v \<noteq> JUndefined \<and> (v = JObj [] \<or> (\<forall>kvs. v \<noteq> JObj kvs))
        \<longrightarrow> analyzeCalendarEvent P llm e settings knowledgeBase =
              Inr \<lparr> eventType = JStr ''other'', requiresSitter = JBool False,
                    requiresTravel = JBool False, requiresFormalAttire = JBool False,
                    tasks = JArr [], reasoning = JStr [], confidence = JNum (8 / 10) \<rparr>"
  proof
    assume a: "llm prompt = Resolved (TextBlock text # rest) \<and> P (analysisText_of text) = Some v
        \<and> v \<noteq> JNull \<and> v \<noteq> JUndefined \<and> (v = JObj [] \<or> (\<forall>kvs. v \<noteq> JObj kvs))"
    then have "v = JObj [] \<or> (\<forall>kvs. v \<noteq> JObj kvs)" by simp
    then have af: "analysis_from v = \<lparr> eventType = JStr ''other'', requiresSitter = JBool False,
                    requiresTravel = JBool False, requiresFormalAttire = JBool False,
                    tasks = JArr [], reasoning = JStr [], confidence = JNum (8 / 10) \<rparr>"
    proof
      assume "v = JObj []"
      then show ?thesis by (simp add: analysis_from_def field_of_def js_or_def)
    next
      assume "\<forall>kvs. v \<noteq> JObj kvs"
      then show ?thesis by (rule analysis_from_non_object)
    qed
    from a have "analyze_try P (llm prompt) = Inr (analysis_from v)"
      by (simp add: analyze_try_simps get_prop_Inr)
    then show "analyzeCalendarEvent P llm e settings knowledgeBase =
              Inr \<lparr> eventType = JStr ''other'', requiresSitter = JBool False,
                    requiresTravel = JBool False, requiresFormalAttire = JBool False,
                    tasks = JArr [], reasoning = JStr [], confidence = JNum (8 / 10) \<rparr>"
      unfolding ace af by simp
  qed
  show ?thesis
    apply (intro conjI)
    apply (rule c1, rule c2, rule c3, rule c4, rule c5, rule c6, rule c7, rule c8)
    done
qed

lemma dispatch_loop_no_throw:
  assumes ok: "\<And>n e. e \<in> set events \<Longrightarrow> client n e = Inr (f n e)"
  shows "i \<le> length events \<Longrightarrow>
    dispatch_loop client events i st =
      Some \<lparr> results = collect f (drop i events) (calls st) (results st),
             calls = calls st + (length events - i),
             sleeps = sleeps st @ replicate (length events - i - 1) 1500 \<rparr>"
proof (induction "length events - i" arbitrary: i st)
  case 0
  then have "i = length events" by simp
  then show ?case by (subst dispatch_loop.simps) simp
next
  case (Suc k)
  then have lt: "i < length events" by simp
  have k: "k = length events - Suc i" using Suc.hyps(2) by simp
  have le: "Suc i \<le> length events" using lt by simp
  have mem: "events ! i \<in> set events" using lt by simp
  have dr: "drop i events = events ! i # drop (Suc i) events"
    using lt by (simp add: Cons_nth_drop_Suc)
  let ?st' = "\<lparr> results = AList.update (event_id (events ! i)) (f (calls st) (events ! i)) (results st),
                 calls = calls st + 1,
                 sleeps = (if i + 1 < length events then sleeps st @ [1500] else sleeps st) \<rparr>"
  have step: "dispatch_loop client events i st = dispatch_loop client events (Suc i) ?st'"
    by (subst dispatch_loop.simps) (simp add: lt ok [OF mem] Let_def)
  have sl: "sleeps ?st' @ replicate (length events - Suc i - 1) 1500
          = sleeps st @ replicate (length events - i - 1) (1500::nat)"
  proof (cases "i + 1 < length events")
    case True
    then have "length events - i - 1 = Suc (length events - Suc i - 1)" by simp
    then show ?thesis using True by (simp add: replicate_app_Cons_same)
  next
    case False
    then show ?thesis using lt by simp
  qed
  have "dispatch_loop client events (Suc i) ?st' =
      Some \<lparr> results = collect f (drop (Suc i) events) (calls ?st') (results ?st'),
             calls = calls ?st' + (length events - Suc i),
             sleeps = sleeps ?st' @ replicate (length events - Suc i - 1) 1500 \<rparr>"
    by (rule Suc.hyps(1) [OF k le])
  also have "\<dots> = Some \<lparr> results = collect f (drop i events) (calls st) (results st),
             calls = calls st + (length events - i),
             sleeps = sleeps st @ replicate (length events - i - 1) 1500 \<rparr>"
    unfolding sl using lt by (simp add: dr)
  finally show ?case using step by simp
qed

text \<open>
  The loop over a client that throws, but never a rate-limit error: it ends after one
  call per event, stores for each event the value returned or the dispatcher's default,
  and never sleeps the 60 s.
\<close>

lemma dispatch_loop_no_retry:
  assumes nr: "\<And>n e err. e \<in> set events \<Longrightarrow> client n e = Inl err \<Longrightarrow> \<not> is_rate_limit err"
  shows "i \<le> length events \<Longrightarrow>
    \<exists>st'. dispatch_loop client events i st = Some st'
       \<and> results st' = collect (stored_value client) (drop i events) (calls st) (results st)
       \<and> calls st' = calls st + (length events - i)
       \<and> set (sleeps st') \<subseteq> set (sleeps st) \<union> {1500}"
proof (induction "length events - i" arbitrary: i st)
  case 0
  then have "i = length events" by simp
  then show ?case by (subst dispatch_loop.simps) auto
next
  case (Suc k)
  then have lt: "i < length events" by simp
  have k: "k = length events - Suc i" using Suc.hyps(2) by simp
  have le: "Suc i \<le> length events" using lt by simp
  have mem: "events ! i \<in> set events" using lt by simp
  have dr: "drop i events = events ! i # drop (Suc i) events"
    using lt by (simp add: Cons_nth_drop_Suc)
  define sl where "sl = (case client (calls st) (events ! i) of
      Inr a \<Rightarrow> (if i + 1 < length events then sleeps st @ [1500] else sleeps st)
    | Inl err \<Rightarrow> sleeps st)"
  let ?st' = "\<lparr> results = AList.update (event_id (events ! i))
                   (stored_value client (calls st) (events ! i)) (results st),
                 calls = calls st + 1, sleeps = sl \<rparr>"
  have step: "dispatch_loop client events i st = dispatch_loop client events (Suc i) ?st'"
  proof (cases "client (calls st) (events ! i)")
    case (Inr a)
    then show ?thesis
      by (subst dispatch_loop.simps) (simp add: lt Let_def stored_value_def sl_def)
  next
    case (Inl err)
    from nr [OF mem Inl] have "\<not> is_rate_limit err" .
    with Inl show ?thesis
      by (subst dispatch_loop.simps) (simp add: lt Let_def stored_value_def sl_def)
  qed
  have slsub: "set sl \<subseteq> set (sleeps st) \<union> {1500}"
    by (auto simp: sl_def split: sum.splits)
  from Suc.hyps(1) [OF k le, of ?st'] obtain st' where
    r: "dispatch_loop client events (Suc i) ?st' = Some st'" and
    res: "results st' = collect (stored_value client) (drop (Suc i) events) (calls ?st') (results ?st')" and
    c: "calls st' = calls ?st' + (length events - Suc i)" and
    s: "set (sleeps st') \<subseteq> set (sleeps ?st') \<union> {1500}"
    by (elim exE conjE)
  show ?case
  proof (intro exI [of _ st'] conjI)
    show "dispatch_loop client events i st = Some st'" using step r by simp
    show "results st' = collect (stored_value client) (drop i events) (calls st) (results st)"
      using res by (simp add: dr)
    show "calls st' = calls st + (length events - i)" using c lt by simp
    show "set (sleeps st') \<subseteq> set (sleeps st) \<union> {1500}" using s slsub by auto
  qed
qed

lemma update_entryD:
  "(k', a) \<in> set (AList.update k v al) \<Longrightarrow> (k', a) \<in> set al \<or> (k' = k \<and> a = v)"
  by (induction al) (auto split: if_splits)

lemma collect_keys: "fst ` set (collect f es n m) = fst ` set m \<union> event_id ` set es"
  by (induction es arbitrary: n m) (auto simp: AList.dom_update)

lemma collect_distinct: "distinct (map fst m) \<Longrightarrow> distinct (map fst (collect f es n m))"
  by (induction es arbitrary: n m) (auto simp: AList.distinct_update)

lemma collect_entryD:
  "(k, a) \<in> set (collect f es n m) \<Longrightarrow>
     (k, a) \<in> set m \<or> (\<exists>j e. e \<in> set es \<and> event_id e = k \<and> a = f j e)"
proof (induction es arbitrary: n m)
  case Nil
  then show ?case by simp
next
  case (Cons e es)
  from Cons.prems have "(k, a) \<in> set (collect f es (n + 1) (AList.update (event_id e) (f n e) m))"
    by simp
  from Cons.IH [OF this] show ?case
    by (auto dest: update_entryD)
qed

lemma collect_cong:
  "(\<And>n e. e \<in> set es \<Longrightarrow> f n e = g n e) \<Longrightarrow> collect f es n m = collect g es n m"
  by (induction es arbitrary: n m) simp_all

lemma update_fresh: "k \<notin> fst ` set al \<Longrightarrow> AList.update k v al = al @ [(k, v)]"
  by (induction al) auto

lemma collect_distinct_ids:
  "distinct (map event_id es) \<Longrightarrow> event_id ` set es \<inter> fst ` set m = {} \<Longrightarrow>
     collect f es n m = m @ map (\<lambda>(j, e). (event_id e, f j e)) (enumerate n es)"
proof (induction es arbitrary: n m)
  case Nil
  then show ?case by simp
next
  case (Cons e es)
  have fresh: "event_id e \<notin> fst ` set m" using Cons.prems(2) by auto
  have upd: "AList.update (event_id e) (f n e) m = m @ [(event_id e, f n e)]"
    by (rule update_fresh [OF fresh])
  have d: "distinct (map event_id es)" using Cons.prems(1) by simp
  have disj: "event_id ` set es \<inter> fst ` set (m @ [(event_id e, f n e)]) = {}"
    using Cons.prems by auto
  show ?case
    using Cons.IH [OF d disj, of "Suc n"] by (simp add: upd)
qed

text \<open>
  The run of the dispatcher when every event has its start and its end and the knowledge
  base can be serialised: the client returns at every call.
\<close>

lemma run_eq:
  assumes se: "list_all has_start_end events"
    and kb: "stringify_all (case knowledgeBase of None \<Rightarrow> [] | Some items \<Rightarrow> items) = Inr knowledge"
  shows "analyzeBatchEvents_run P provider events settings knowledgeBase =
     Some \<lparr> results = collect (client_value P provider settings knowledge) events 0 [],
            calls = length events,
            sleeps = replicate (length events - 1) 1500 \<rparr>"
proof -
  have ok: "\<And>n e. e \<in> set events \<Longrightarrow>
      analyzeCalendarEvent P (provider n) e settings knowledgeBase
        = Inr (client_value P provider settings knowledge n e)"
    using se kb by (simp add: list_all_iff analyzeCalendarEvent_value)
  show ?thesis
    unfolding analyzeBatchEvents_run_def
    using dispatch_loop_no_throw
      [where client = "\<lambda>n event. analyzeCalendarEvent P (provider n) event settings knowledgeBase"
        and f = "client_value P provider settings knowledge" and i = 0 and events = events
        and st = initial_dispatch, OF ok]
    by (simp add: initial_dispatch_def)
qed

text \<open>
  The run of the dispatcher on any list of events, when the knowledge base can be
  serialised: an event without start or end makes the client throw a TypeError, which is
  no rate-limit error.
\<close>

lemma run_any:
  assumes kb: "stringify_all (case knowledgeBase of None \<Rightarrow> [] | Some items \<Rightarrow> items) = Inr knowledge"
  shows "\<exists>st. analyzeBatchEvents_run P provider events settings knowledgeBase = Some st
     \<and> results st = collect (\<lambda>n e. if has_start_end e
                                   then client_value P provider settings knowledge n e
                                   else dispatcher_default) events 0 []
     \<and> calls st = length events
     \<and> 60000 \<notin> set (sleeps st)"
proof -
  let ?client = "\<lambda>n event. analyzeCalendarEvent P (provider n) event settings knowledgeBase"
  have nr: "\<And>n e err. e \<in> set events \<Longrightarrow> ?client n e = Inl err \<Longrightarrow> \<not> is_rate_limit err"
  proof -
    fix n e err assume "e \<in> set events" and "?client n e = Inl err"
    then show "\<not> is_rate_limit err"
      using analyzeCalendarEvent_value [OF _ kb, of e P provider n settings]
        analyzeCalendarEvent_missing [of e P "provider n" settings knowledgeBase]
        type_error_not_rate_limit
      by (cases "has_start_end e") auto
  qed
  have sv: "stored_value ?client =
      (\<lambda>n e. if has_start_end e then client_value P provider settings knowledge n e
             else dispatcher_default)"
    using kb
    by (intro ext) (simp add: stored_value_def analyzeCalendarEvent_value analyzeCalendarEvent_missing)
  have "\<exists>st'. dispatch_loop ?client events 0 initial_dispatch = Some st'
       \<and> results st' = collect (stored_value ?client) (drop 0 events) (calls initial_dispatch)
           (results initial_dispatch)
       \<and> calls st' = calls initial_dispatch + (length events - 0)
       \<and> set (sleeps st') \<subseteq> set (sleeps initial_dispatch) \<union> {1500}"
  proof (rule dispatch_loop_no_retry)
    fix n e err assume "e \<in> set events" and "?client n e = Inl err"
    then show "\<not> is_rate_limit err" by (rule nr)
  qed simp
  then obtain st where r: "dispatch_loop ?client events 0 initial_dispatch = Some st"
    and res: "results st = collect (stored_value ?client) (drop 0 events) (calls initial_dispatch)
        (results initial_dispatch)"
    and c: "calls st = calls initial_dispatch + (length events - 0)"
    and s: "set (sleeps st) \<subseteq> set (sleeps initial_dispatch) \<union> {1500}"
    by (elim exE conjE)
  show ?thesis
  proof (intro exI [of _ st] conjI)
    show "analyzeBatchEvents_run P provider events settings knowledgeBase = Some st"
      using r by (simp add: analyzeBatchEvents_run_def)
    show "results st = collect (\<lambda>n e. if has_start_end e
                                   then client_value P provider settings knowledge n e
                                   else dispatcher_default) events 0 []"
      using res by (simp add: initial_dispatch_def sv)
    show "calls st = length events" using c by (simp add: initial_dispatch_def)
    show "60000 \<notin> set (sleeps st)" using s by (auto simp: initial_dispatch_def)
  qed
qed

text \<open>
  C10 (as amended). In the settings-aware variant, let the knowledge base be one that
  can be serialised. When every event of the list has its \<^verbatim>\<open>start\<close> and its
  \<^verbatim>\<open>end\<close>, the catch branch of the dispatcher is not entered: the loop ends after
  exactly one call per event, sleeps only the 1.5 s pacing delay between calls, and
  every entry of the output mapping is the value analyzeCalendarEvent returned for that
  event; for events of distinct ids the mapping lists, in input order, each event's id
  with the value of its one call. For any list of events the loop ends after one call
  per event and never sleeps the 60 s cooldown; but an event without start or end makes
  analyzeCalendarEvent throw a TypeError before its try block, the catch branch of the
  dispatcher is entered, and the dispatcher's own default is stored for that event.
\<close>

theorem dispatcher_error_branch_unreachable:
  assumes kb: "stringify_all (case knowledgeBase of None \<Rightarrow> [] | Some items \<Rightarrow> items) = Inr knowledge"
  shows "(list_all has_start_end events \<longrightarrow>
            analyzeBatchEvents_run P provider events settings knowledgeBase =
              Some \<lparr> results = collect (client_value P provider settings knowledge) events 0 [],
                     calls = length events,
                     sleeps = replicate (length events - 1) 1500 \<rparr>
          \<and> (distinct (map event_id events) \<longrightarrow>
               analyzeBatchEvents P provider events settings knowledgeBase =
                 Some (map (\<lambda>(n, e). (event_id e, client_value P provider settings knowledge n e))
                        (enumerate 0 events))))
       \<and> (\<exists>st. analyzeBatchEvents_run P provider events settings knowledgeBase = Some st
             \<and> results st = collect (\<lambda>n e. if has_start_end e
                                           then client_value P provider settings knowledge n e
                                           else dispatcher_default) events 0 []
             \<and> calls st = length events
             \<and> 60000 \<notin> set (sleeps st))
       \<and> (\<forall>n e. \<not> has_start_end e \<longrightarrow>
             analyzeCalendarEvent P (provider n) e settings knowledgeBase =
               Inl (JsError ''TypeError: Cannot read properties of undefined (reading dateTime)'')
           \<and> analyzeBatchEvents_run P provider [e] settings knowledgeBase =
               Some \<lparr> results = [(event_id e, dispatcher_default)], calls = 1, sleeps = [] \<rparr>)"
proof (intro conjI impI allI)
  assume se: "list_all has_start_end events"
  show "analyzeBatchEvents_run P provider events settings knowledgeBase =
              Some \<lparr> results = collect (client_value P provider settings knowledge) events 0 [],
                     calls = length events,
                     sleeps = replicate (length events - 1) 1500 \<rparr>"
    by (rule run_eq [OF se kb])
next
  assume se: "list_all has_start_end events" and d: "distinct (map event_id events)"
  show "analyzeBatchEvents P provider events settings knowledgeBase =
                 Some (map (\<lambda>(n, e). (event_id e, client_value P provider settings knowledge n e))
                        (enumerate 0 events))"
    using collect_distinct_ids [of events "[]" "client_value P provider settings knowledge" 0] d
    by (simp add: analyzeBatchEvents_def run_eq [OF se kb])
next
  show "\<exists>st. analyzeBatchEvents_run P provider events settings knowledgeBase = Some st
             \<and> results st = collect (\<lambda>n e. if has_start_end e
                                           then client_value P provider settings knowledge n e
                                           else dispatcher_default) events 0 []
             \<and> calls st = length events
             \<and> 60000 \<notin> set (sleeps st)"
    by (rule run_any [OF kb])
next
  fix n e assume "\<not> has_start_end e"
  then show "analyzeCalendarEvent P (provider n) e settings knowledgeBase =
               Inl (JsError ''TypeError: Cannot read properties of undefined (reading dateTime)'')"
    by (rule analyzeCalendarEvent_missing)
next
  fix n :: nat and e assume ns: "\<not> has_start_end e"
  show "analyzeBatchEvents_run P provider [e] settings knowledgeBase =
               Some \<lparr> results = [(event_id e, dispatcher_default)], calls = 1, sleeps = [] \<rparr>"
    unfolding analyzeBatchEvents_run_def
    apply (subst dispatch_loop.simps)
    apply (simp add: analyzeCalendarEvent_missing [OF ns] type_error_not_rate_limit initial_dispatch_def)
    apply (subst dispatch_loop.simps)
    apply simp
    done
qed

lemma example_values:
  "client_value example_JSON_parse example_provider None [] n (example_event ''e1'') =
     \<lparr> eventType = JStr ''other'', requiresSitter = JBool False,
       requiresTravel = JBool False, requiresFormalAttire = JBool False,
       tasks = JArr [], reasoning = JStr [], confidence = JNum (8 / 10) \<rparr>"
  "client_value example_JSON_parse example_provider None [] n (example_event ''e2'') = default_analysis"
  "client_value example_JSON_parse example_provider None [] n (example_event ''e3'') = default_analysis"
  by (simp_all add: client_value_def analyze_try_def example_provider_def example_event_def
      example_JSON_parse_def analysisText_of_def match_braces_def js_or_def field_of_def
      analysis_from_def)

theorem dispatcher_error_branch_unreachable_witness:
  "stringify_all (case (None :: KnowledgeBaseItem list option) of None \<Rightarrow> [] | Some items \<Rightarrow> items) = Inr []
   \<and> list_all has_start_end [example_event ''e1'', example_event ''e2'', example_event ''e3'']
   \<and> distinct (map event_id [example_event ''e1'', example_event ''e2'', example_event ''e3''])
   \<and> analyzeBatchEvents example_JSON_parse example_provider
        [example_event ''e1'', example_event ''e2'', example_event ''e3''] None None
     = Some [(''e1'', \<lparr> eventType = JStr ''other'', requiresSitter = JBool False,
                    requiresTravel = JBool False, requiresFormalAttire = JBool False,
                    tasks = JArr [], reasoning = JStr [], confidence = JNum (8 / 10) \<rparr>),
             (''e2'', default_analysis), (''e3'', default_analysis)]
   \<and> analyzeBatchEvents_run example_JSON_parse example_provider
        [example_event ''e1'', example_event ''e2'', example_event ''e3''] None None
     = Some \<lparr> results = [(''e1'', \<lparr> eventType = JStr ''other'', requiresSitter = JBool False,
                    requiresTravel = JBool False, requiresFormalAttire = JBool False,
                    tasks = JArr [], reasoning = JStr [], confidence = JNum (8 / 10) \<rparr>),
                 (''e2'', default_analysis), (''e3'', default_analysis)],
              calls = 3, sleeps = [1500, 1500] \<rparr>
   \<and> \<not> has_start_end (event_without_end ''e4'')
   \<and> analyzeBatchEvents_run example_JSON_parse example_provider [event_without_end ''e4''] None None
     = Some \<lparr> results = [(event_id (event_without_end ''e4''), dispatcher_default)],
              calls = 1, sleeps = [] \<rparr>"
proof -
  let ?es = "[example_event ''e1'', example_event ''e2'', example_event ''e3'']"
  have kb: "stringify_all (case (None :: KnowledgeBaseItem list option) of None \<Rightarrow> [] | Some items \<Rightarrow> items) = Inr []"
    by simp
  have se: "list_all has_start_end ?es"
    by (simp add: has_start_end_def example_event_def)
  have d: "distinct (map event_id ?es)"
    by (simp add: example_event_def)
  have ns: "\<not> has_start_end (event_without_end ''e4'')"
    by (simp add: has_start_end_def event_without_end_def)
  note T = dispatcher_error_branch_unreachable [OF kb, of ?es example_JSON_parse example_provider None]
  have run: "analyzeBatchEvents_run example_JSON_parse example_provider ?es None None =
              Some \<lparr> results = collect (client_value example_JSON_parse example_provider None []) ?es 0 [],
                     calls = length ?es,
                     sleeps = replicate (length ?es - 1) 1500 \<rparr>"
    using T [THEN conjunct1, THEN mp, OF se, THEN conjunct1] .
  have all: "analyzeBatchEvents example_JSON_parse example_provider ?es None None =
        Some (map (\<lambda>(n, e). (event_id e, client_value example_JSON_parse example_provider None [] n e))
                        (enumerate 0 ?es))"
    using T [THEN conjunct1, THEN mp, OF se, THEN conjunct2, THEN mp, OF d] .
  have one: "analyzeBatchEvents_run example_JSON_parse example_provider [event_without_end ''e4''] None None
     = Some \<lparr> results = [(event_id (event_without_end ''e4''), dispatcher_default)],
              calls = 1, sleeps = [] \<rparr>"
    using dispatcher_error_branch_unreachable [OF kb, of "[]" example_JSON_parse example_provider None,
        THEN conjunct2, THEN conjunct2, THEN spec, THEN spec, THEN mp, OF ns, THEN conjunct2] .
  have all': "analyzeBatchEvents example_JSON_parse example_provider ?es None None
     = Some [(''e1'', \<lparr> eventType = JStr ''other'', requiresSitter = JBool False,
                    requiresTravel = JBool False, requiresFormalAttire = JBool False,
                    tasks = JArr [], reasoning = JStr [], confidence = JNum (8 / 10) \<rparr>),
             (''e2'', default_analysis), (''e3'', default_analysis)]"
    unfolding all by (simp add: example_values) (simp add: example_event_def)
  have run': "analyzeBatchEvents_run example_JSON_parse example_provider ?es None None
     = Some \<lparr> results = [(''e1'', \<lparr> eventType = JStr ''other'', requiresSitter = JBool False,
                    requiresTravel = JBool False, requiresFormalAttire = JBool False,
                    tasks = JArr [], reasoning = JStr [], confidence = JNum (8 / 10) \<rparr>),
                 (''e2'', default_analysis), (''e3'', default_analysis)],
              calls = 3, sleeps = [1500, 1500] \<rparr>"
    unfolding run by (simp add: example_values numeral_eq_Suc) (simp add: example_event_def)
  show ?thesis
    apply (intro conjI)
    apply (rule kb, rule se, rule d, rule all', rule run', rule ns, rule one)
    done
qed

text \<open>
  C10 as stated fails: for an event posted without its \<^verbatim>\<open>end\<close>, analyzeCalendarEvent
  throws before its try block, and the entry of the output mapping is the
  dispatcher-level default ("Analysis failed due to error"), which is not the default
  analysis of the client.
\<close>

theorem dispatcher_error_branch_counterexample:
  "analyzeCalendarEvent example_JSON_parse (example_provider 0) (event_without_end ''e1'') None None
     = Inl (JsError ''TypeError: Cannot read properties of undefined (reading dateTime)'')
   \<and> analyzeBatchEvents_run example_JSON_parse example_provider [event_without_end ''e1''] None None
     = Some \<lparr> results = [(''e1'', dispatcher_default)], calls = 1, sleeps = [] \<rparr>
   \<and> dispatcher_default \<noteq> default_analysis"
proof (intro conjI)
  show "analyzeCalendarEvent example_JSON_parse (example_provider 0) (event_without_end ''e1'') None None
     = Inl (JsError ''TypeError: Cannot read properties of undefined (reading dateTime)'')"
    by (simp add: analyzeCalendarEvent_def build_prompt_def event_without_end_def)
  show "analyzeBatchEvents_run example_JSON_parse example_provider [event_without_end ''e1''] None None
     = Some \<lparr> results = [(''e1'', dispatcher_default)], calls = 1, sleeps = [] \<rparr>"
    unfolding analyzeBatchEvents_run_def
    apply (subst dispatch_loop.simps)
    apply (simp add: analyzeCalendarEvent_def build_prompt_def event_without_end_def
        is_rate_limit_def initial_dispatch_def)
    apply (subst dispatch_loop.simps)
    apply simp
    done
  show "dispatcher_default \<noteq> default_analysis"
    by (simp add: dispatcher_default_def default_analysis_def)
qed

text \<open>
  The output mapping of the settings-aware dispatcher is complete when the knowledge
  base can be serialised.
\<close>

lemma batch_complete_settings_aware:
  assumes kb: "stringify_all (case knowledgeBase of None \<Rightarrow> [] | Some items \<Rightarrow> items) = Inr knowledge"
  shows "\<exists>m. analyzeBatchEvents P provider events settings knowledgeBase = Some m
     \<and> distinct (map fst m)
     \<and> fst ` set m = event_id ` set events
     \<and> (\<forall>(k, a) \<in> set m. \<exists>n e. e \<in> set events \<and> event_id e = k
           \<and> (if has_start_end e
               then analyzeCalendarEvent P (provider n) e settings knowledgeBase = Inr a
                  \<and> (analyze_try P (provider n \<lparr> prompt_event = e, prompt_settings = settings,
                                                 prompt_knowledge = knowledge \<rparr>) = Inr a
                     \<or> a = default_analysis)
               else a = dispatcher_default))"
proof -
  let ?f = "\<lambda>n e. if has_start_end e then client_value P provider settings knowledge n e
                  else dispatcher_default"
  let ?m = "collect ?f events 0 []"
  from run_any [OF kb, of P provider events settings] obtain st where
    r: "analyzeBatchEvents_run P provider events settings knowledgeBase = Some st"
    and res: "results st = ?m"
    by (elim exE conjE)
  have run: "analyzeBatchEvents P provider events settings knowledgeBase = Some ?m"
    using r res by (simp add: analyzeBatchEvents_def)
  have d: "distinct (map fst ?m)" by (rule collect_distinct) simp
  have keys: "fst ` set ?m = event_id ` set events" by (simp add: collect_keys)
  have vals: "\<forall>(k, a) \<in> set ?m. \<exists>n e. e \<in> set events \<and> event_id e = k
           \<and> (if has_start_end e
               then analyzeCalendarEvent P (provider n) e settings knowledgeBase = Inr a
                  \<and> (analyze_try P (provider n \<lparr> prompt_event = e, prompt_settings = settings,
                                                 prompt_knowledge = knowledge \<rparr>) = Inr a
                     \<or> a = default_analysis)
               else a = dispatcher_default)"
  proof (clarify)
    fix k a assume "(k, a) \<in> set ?m"
    from collect_entryD [OF this] obtain j e
      where e: "e \<in> set events" "event_id e = k" "a = ?f j e"
      by auto
    have "if has_start_end e
               then analyzeCalendarEvent P (provider j) e settings knowledgeBase = Inr a
                  \<and> (analyze_try P (provider j \<lparr> prompt_event = e, prompt_settings = settings,
                                                 prompt_knowledge = knowledge \<rparr>) = Inr a
                     \<or> a = default_analysis)
               else a = dispatcher_default"
      using e(3) analyzeCalendarEvent_value [OF _ kb, of e P provider j settings]
      by (cases "analyze_try P (provider j \<lparr> prompt_event = e, prompt_settings = settings,
                                                 prompt_knowledge = knowledge \<rparr>)")
         (auto simp: client_value_def)
    with e(1,2) show "\<exists>n e. e \<in> set events \<and> event_id e = k
           \<and> (if has_start_end e
               then analyzeCalendarEvent P (provider n) e settings knowledgeBase = Inr a
                  \<and> (analyze_try P (provider n \<lparr> prompt_event = e, prompt_settings = settings,
                                                 prompt_knowledge = knowledge \<rparr>) = Inr a
                     \<or> a = default_analysis)
               else a = dispatcher_default)"
      by (intro exI [of _ j] exI [of _ e] conjI)
  qed
  show ?thesis
    apply (rule exI [of _ ?m])
    apply (intro conjI)
    apply (rule run, rule d, rule keys, rule vals)
    done
qed

text \<open>
  C4. When the provider answers every call with a rate-limit error (429), the client
  turns the error into its default analysis, and the dispatcher records that default
  after a single call, without the 60 s cooldown and without a retry.
\<close>

theorem rate_limit_not_retried:
  "analyzeBatchEvents_run example_JSON_parse rate_limited_provider [example_event ''e1''] None None
   = Some \<lparr> results = [(''e1'', default_analysis)], calls = 1, sleeps = [] \<rparr>"
proof -
  have se: "list_all has_start_end [example_event ''e1'']"
    by (simp add: has_start_end_def example_event_def)
  have kb: "stringify_all (case (None :: KnowledgeBaseItem list option) of None \<Rightarrow> [] | Some items \<Rightarrow> items) = Inr []"
    by simp
  show ?thesis
    unfolding run_eq [OF se kb]
    by (simp add: client_value_def analyze_try_def rate_limited_provider_def example_event_def)
qed

text \<open>
  The catch branch itself, run with a client that does throw: a rate-limit error is
  followed by a 60 s sleep and a second call for the same event.
\<close>

lemma dispatch_loop_retries_throwing_client:
  "dispatch_loop throwing_client [example_event ''e1''] 0 initial_dispatch
   = Some \<lparr> results = [(''e1'', default_analysis)], calls = 2, sleeps = [60000] \<rparr>"
  apply (subst dispatch_loop.simps)
  apply (simp add: throwing_client_def initial_dispatch_def is_rate_limit_def)
  apply (subst dispatch_loop.simps)
  apply (simp add: throwing_client_def example_event_def)
  apply (subst dispatch_loop.simps)
  apply simp
  done

text \<open>
  The loop over any analysis client, also one that throws: whenever the loop returns, the
  keys of the mapping are the ids of the events, each once. A rate-limit error that is
  followed by a success leaves one entry for the event.
\<close>

lemma dispatch_loop_keys:
  assumes "dispatch_loop client events i st = Some st'"
  shows "fst ` set (results st') = fst ` set (results st) \<union> event_id ` set (drop i events)
       \<and> (distinct (map fst (results st)) \<longrightarrow> distinct (map fst (results st')))"
proof (rule dispatch_loop.raw_induct
    [where P = "\<lambda>client events i st st'.
       fst ` set (results st') = fst ` set (results st) \<union> event_id ` set (drop i events)
       \<and> (distinct (map fst (results st)) \<longrightarrow> distinct (map fst (results st')))", OF _ assms])
  fix loop :: "(nat \<Rightarrow> CalendarEvent \<Rightarrow> thrown + EventAnalysis) \<Rightarrow> CalendarEvent list \<Rightarrow> nat
     \<Rightarrow> dispatch_state \<Rightarrow> dispatch_state option"
  fix client events i st st'
  assume IH: "\<And>client events i st st'. loop client events i st = Some st' \<Longrightarrow>
       fst ` set (results st') = fst ` set (results st) \<union> event_id ` set (drop i events)
       \<and> (distinct (map fst (results st)) \<longrightarrow> distinct (map fst (results st')))"
  assume body: "(if i < length events then
        (let event = events ! i in
         case client (calls st) event of
           Inr analysis \<Rightarrow>
             loop client events (i + 1)
               \<lparr> results = AList.update (event_id event) analysis (results st),
                 calls = calls st + 1,
                 sleeps = (if i + 1 < length events then sleeps st @ [1500] else sleeps st) \<rparr>
         | Inl err \<Rightarrow>
             (if is_rate_limit err then
                loop client events i
                  \<lparr> results = results st, calls = calls st + 1, sleeps = sleeps st @ [60000] \<rparr>
              else
                loop client events (i + 1)
                  \<lparr> results = AList.update (event_id event) dispatcher_default (results st),
                    calls = calls st + 1, sleeps = sleeps st \<rparr>))
      else Some st) = Some st'"
  note 1 = IH body
  show "fst ` set (results st') = fst ` set (results st) \<union> event_id ` set (drop i events)
       \<and> (distinct (map fst (results st)) \<longrightarrow> distinct (map fst (results st')))"
  proof (cases "i < length events")
    case False
    with 1(2) show ?thesis by simp
  next
    case True
    have dr: "drop i events = events ! i # drop (Suc i) events"
      using True by (simp add: Cons_nth_drop_Suc)
    show ?thesis
    proof (cases "client (calls st) (events ! i)")
      case (Inr a)
      with True 1(2) have "loop client events (i + 1)
               \<lparr> results = AList.update (event_id (events ! i)) a (results st),
                 calls = calls st + 1,
                 sleeps = (if i + 1 < length events then sleeps st @ [1500] else sleeps st) \<rparr> = Some st'"
        by (simp add: Let_def)
      from 1(1) [OF this] show ?thesis
        by (auto simp: dr AList.dom_update AList.distinct_update)
    next
      case (Inl err)
      show ?thesis
      proof (cases "is_rate_limit err")
        case True
        with \<open>i < length events\<close> Inl 1(2) have "loop client events i
                  \<lparr> results = results st, calls = calls st + 1, sleeps = sleeps st @ [60000] \<rparr> = Some st'"
          by (simp add: Let_def)
        from 1(1) [OF this] show ?thesis by simp
      next
        case False
        with \<open>i < length events\<close> Inl 1(2) have "loop client events (i + 1)
                  \<lparr> results = AList.update (event_id (events ! i)) dispatcher_default (results st),
                    calls = calls st + 1, sleeps = sleeps st \<rparr> = Some st'"
          by (simp add: Let_def)
        from 1(1) [OF this] show ?thesis
          by (auto simp: dr AList.dom_update AList.distinct_update)
      qed
    qed
  qed
qed

section \<open>The Task Materializer\<close>

lemma create_tasks_those:
  "create_tasks cal hid aid sd sts s = (rows, s') \<Longrightarrow> those rows = Some created \<Longrightarrow>
     map Some created =
       map (\<lambda>(i, t). map_option (\<lambda>due. new_task hid aid due i t) (due_date cal sd t))
         (enumerate (next_id s) sts)
     \<and> suggestedTask_table s' = suggestedTask_table s @ created
     \<and> analyzedEvent_table s' = analyzedEvent_table s
     \<and> next_id s' = next_id s + length sts"
proof (induction sts arbitrary: s rows s' created)
  case Nil
  then show ?case by auto
next
  case (Cons t sts)
  show ?case
  proof (cases "due_date cal sd t")
    case None
    with Cons.prems show ?thesis by (auto simp: Let_def split: prod.splits)
  next
    case (Some due)
    let ?row = "new_task hid aid due (next_id s) t"
    let ?s1 = "s \<lparr> suggestedTask_table := suggestedTask_table s @ [?row], next_id := next_id s + 1 \<rparr>"
    obtain rows1 s2 where rest: "create_tasks cal hid aid sd sts ?s1 = (rows1, s2)"
      by (cases "create_tasks cal hid aid sd sts ?s1")
    from Cons.prems(1) Some rest have rows: "rows = Some ?row # rows1" and s': "s' = s2"
      by (simp_all add: Let_def)
    from Cons.prems(2) rows obtain created1 where
      th: "those rows1 = Some created1" and cr: "created = ?row # created1"
      by (auto split: option.splits)
    note IH = Cons.IH [OF rest th]
    show ?thesis
      using IH Some by (simp add: cr s')
  qed
qed

lemma created_rows:
  "map Some created =
     map (\<lambda>(i, t). map_option (\<lambda>due. new_task hid aid due i t) (D t)) (enumerate n sts) \<Longrightarrow>
   length created = length sts
   \<and> list_all (\<lambda>row. analyzedEventId row = aid \<and> n \<le> task_id row
                      \<and> task_id row < n + length sts \<and> status row = ''pending'') created
   \<and> map title created = map st_title sts
   \<and> map (Some \<circ> dueDate) created = map D sts"
proof (induction sts arbitrary: created n)
  case Nil
  then show ?case by simp
next
  case (Cons t sts)
  from Cons.prems obtain row rest where c: "created = row # rest"
    by (cases created) auto
  from Cons.prems c have hd: "Some row = map_option (\<lambda>due. new_task hid aid due n t) (D t)"
    and tl: "map Some rest =
       map (\<lambda>(i, t). map_option (\<lambda>due. new_task hid aid due i t) (D t)) (enumerate (Suc n) sts)"
    by simp_all
  from hd obtain due where due: "D t = Some due" and row: "row = new_task hid aid due n t"
    by (cases "D t") auto
  from Cons.IH [OF tl] show ?case
    by (auto simp: c row due new_task_def list_all_iff)
qed

lemma find_map_update:
  "find (\<lambda>r. eventId r = k) rows = Some row \<Longrightarrow> eventId row' = k \<Longrightarrow>
     find (\<lambda>r. eventId r = k) (map (\<lambda>r. if eventId r = k then row' else r) rows) = Some row'"
  by (induction rows) (auto split: if_splits)

lemma find_eventId:
  "find (\<lambda>r. eventId r = k) rows = Some row \<Longrightarrow> eventId row = k"
  by (induction rows) (auto split: if_splits)

lemma find_append_new:
  "find (\<lambda>r. eventId r = k) rows = None \<Longrightarrow> eventId row' = k \<Longrightarrow>
     find (\<lambda>r. eventId r = k) (rows @ [row']) = Some row'"
  by (induction rows) (auto split: if_splits)

lemma upsert_InrD:
  assumes "upsert now hid event analysis startDate endDate s = Inr (row', s1)"
  shows "findUnique s1 (event_id event) = Some row' \<and>
    suggestedTask_table s1 = suggestedTask_table s \<and>
    eventId row' = event_id event \<and>
    startDate = Some (eventStart row') \<and>
    next_id s \<le> next_id s1 \<and>
    (case findUnique s (event_id event) of Some row \<Rightarrow> ae_id row' = ae_id row
       | None \<Rightarrow> ae_id row' = next_id s)"
proof -
  from assms obtain sd ed et rs rt rf where v: "startDate = Some sd" "endDate = Some ed"
    "arg_eventType analysis = JStr et" "arg_requiresSitter analysis = JBool rs"
    "arg_requiresTravel analysis = JBool rt" "arg_requiresFormalAttire analysis = JBool rf"
    by (auto simp: upsert_def split: option.splits js_value.splits)
  show ?thesis
  proof (cases "findUnique s (event_id event)")
    case None
    with assms v have r: "row' = \<lparr> ae_id = next_id s, eventId = event_id event, ae_householdId = hid,
                             eventTitle = title_of event, eventStart = sd, eventEnd = ed,
                             eventData = event, ae_eventType = et, ae_requiresSitter = rs,
                             ae_requiresTravel = rt, ae_requiresFormalAttire = rf,
                             analysisData = analysis, analyzedAt = None \<rparr>"
      and s1: "s1 = s \<lparr> analyzedEvent_table := analyzedEvent_table s @ [row'],
                                  next_id := next_id s + 1 \<rparr>"
      by (auto simp: upsert_def Let_def)
    have e: "eventId row' = event_id event" by (simp add: r)
    have f: "findUnique s1 (event_id event) = Some row'"
      using None find_append_new [OF _ e, of "analyzedEvent_table s"]
      by (simp add: findUnique_def s1)
    have g: "suggestedTask_table s1 = suggestedTask_table s" "next_id s \<le> next_id s1"
      by (simp_all add: s1)
    have h: "startDate = Some (eventStart row')" "ae_id row' = next_id s"
      by (simp_all add: r v)
    from None e f g h show ?thesis by simp
  next
    case (Some row0)
    with assms v have r: "row' = row0 \<lparr> eventTitle := title_of event, eventStart := sd, eventEnd := ed,
                                 eventData := event, ae_eventType := et, ae_requiresSitter := rs,
                                 ae_requiresTravel := rt, ae_requiresFormalAttire := rf,
                                 analysisData := analysis, analyzedAt := Some now \<rparr>"
      and s1: "s1 = s \<lparr> analyzedEvent_table :=
                                   map (\<lambda>r. if eventId r = event_id event then row' else r)
                                     (analyzedEvent_table s) \<rparr>"
      by (auto simp: upsert_def Let_def)
    have e0: "eventId row0 = event_id event"
      using Some by (auto simp: findUnique_def dest: find_eventId)
    have e: "eventId row' = event_id event" using e0 by (simp add: r)
    have f: "findUnique s1 (event_id event) = Some row'"
      using Some find_map_update [OF _ e, of "analyzedEvent_table s" row0]
      by (simp add: findUnique_def s1)
    have g: "suggestedTask_table s1 = suggestedTask_table s" "next_id s \<le> next_id s1"
      by (simp_all add: s1)
    have h: "startDate = Some (eventStart row')" "ae_id row' = ae_id row0"
      by (simp_all add: r v)
    from Some e f g h show ?thesis by simp
  qed
qed

lemma upsert_analysisData:
  "upsert now hid event analysis startDate endDate s = Inr (row', s1) \<Longrightarrow>
     analysisData row' = analysis"
  by (auto simp: upsert_def Let_def split: option.splits js_value.splits)

lemma count_unique:
  "distinct (map eventId rows) \<Longrightarrow> find (\<lambda>r. eventId r = k) rows = Some row \<Longrightarrow>
     length (filter (\<lambda>r. eventId r = k) rows) = 1"
proof (induction rows)
  case Nil
  then show ?case by simp
next
  case (Cons x rows)
  show ?case
  proof (cases "eventId x = k")
    case True
    then have "k \<notin> eventId ` set rows" using Cons.prems(1) by auto
    then have "filter (\<lambda>r. eventId r = k) rows = []"
      by (auto simp: filter_empty_conv)
    then show ?thesis using True by simp
  next
    case False
    then show ?thesis using Cons by simp
  qed
qed

lemma upsert_table:
  assumes "upsert now hid event analysis startDate endDate s = Inr (row', s1)"
  shows "map eventId (analyzedEvent_table s1) =
           (case findUnique s (event_id event) of
              Some row \<Rightarrow> map eventId (analyzedEvent_table s)
            | None \<Rightarrow> map eventId (analyzedEvent_table s) @ [event_id event])
         \<and> next_id s1 = (case findUnique s (event_id event) of
              Some row \<Rightarrow> next_id s | None \<Rightarrow> next_id s + 1)"
proof -
  from assms obtain sd ed et rs rt rf where v: "startDate = Some sd" "endDate = Some ed"
    "arg_eventType analysis = JStr et" "arg_requiresSitter analysis = JBool rs"
    "arg_requiresTravel analysis = JBool rt" "arg_requiresFormalAttire analysis = JBool rf"
    by (auto simp: upsert_def split: option.splits js_value.splits)
  show ?thesis
  proof (cases "findUnique s (event_id event)")
    case None
    with assms v show ?thesis by (auto simp: upsert_def Let_def)
  next
    case (Some row0)
    have e0: "eventId row0 = event_id event"
      using Some by (auto simp: findUnique_def dest: find_eventId)
    have i0: "row0 \<in> set (analyzedEvent_table s)"
      using Some by (auto simp: findUnique_def find_Some_iff)
    from Some assms v have s1: "s1 = s \<lparr> analyzedEvent_table :=
         map (\<lambda>r. if eventId r = event_id event then row' else r) (analyzedEvent_table s) \<rparr>"
      and r: "eventId row' = eventId row0" "ae_id row' = ae_id row0"
      by (auto simp: upsert_def Let_def)
    have a: "map eventId (analyzedEvent_table s1) = map eventId (analyzedEvent_table s)"
      unfolding s1 using r e0 by (auto simp: comp_def)
    show ?thesis using Some a s1 by simp
  qed
qed

lemma find_None_eventId:
  "find (\<lambda>r. eventId r = k) rows = None \<Longrightarrow> k \<notin> eventId ` set rows"
  by (induction rows) (auto split: if_splits)

lemma upsert_wf:
  assumes wf: "wf_store s"
    and up: "upsert now hid event analysis startDate endDate s = Inr (row', s1)"
  shows "wf_store s1"
proof -
  note t = upsert_table [OF up]
  note u = upsert_InrD [OF up]
  show ?thesis
  proof (cases "findUnique s (event_id event)")
    case None
    then have fresh: "event_id event \<notin> eventId ` set (analyzedEvent_table s)"
      by (simp add: findUnique_def find_None_eventId)
    from up None obtain sd ed et rs rt rf where
      s1: "s1 = s \<lparr> analyzedEvent_table := analyzedEvent_table s @ [row'],
                                  next_id := next_id s + 1 \<rparr>"
      by (auto simp: upsert_def Let_def split: option.splits js_value.splits)
    have id: "ae_id row' = next_id s" using u None by simp
    show ?thesis
      using wf fresh t None id
      by (auto simp: wf_store_def s1 list_all_iff)
  next
    case (Some row0)
    have i0: "row0 \<in> set (analyzedEvent_table s)"
      using Some by (auto simp: findUnique_def find_Some_iff)
    from up Some have s1: "s1 = s \<lparr> analyzedEvent_table :=
         map (\<lambda>r. if eventId r = event_id event then row' else r) (analyzedEvent_table s) \<rparr>"
      by (auto simp: upsert_def Let_def split: option.splits js_value.splits)
    have id: "ae_id row' = ae_id row0" using u Some by simp
    have d: "distinct (map eventId (analyzedEvent_table s1))"
      using wf t Some by (simp add: wf_store_def)
    show ?thesis
      using wf i0 id d
      by (auto simp: wf_store_def s1 list_all_iff)
  qed
qed

text \<open>
  What a successful write has done: the upsert, then the deletion of the tasks of the
  row, then one create per suggested task, each with a valid due date.
\<close>

lemma write_analysis_unfold:
  assumes ok: "write_analysis cal now hid event analysis startDate endDate s = (Inr r, s')"
  shows "\<exists>s1 sts. upsert now hid event analysis startDate endDate s = Inr (saved_event r, s1)
           \<and> suggestedTasks analysis = Some sts
           \<and> map Some (saved_tasks r) =
               map (\<lambda>(i, t). map_option (\<lambda>due. new_task hid (ae_id (saved_event r)) due i t)
                               (due_date cal startDate t))
                 (enumerate (next_id s1) sts)
           \<and> suggestedTask_table s' =
               filter (\<lambda>t. analyzedEventId t \<noteq> ae_id (saved_event r)) (suggestedTask_table s1)
                 @ saved_tasks r
           \<and> analyzedEvent_table s' = analyzedEvent_table s1
           \<and> next_id s' = next_id s1 + length sts"
proof -
  from ok obtain row' s1 where up: "upsert now hid event analysis startDate endDate s = Inr (row', s1)"
    by (auto simp: write_analysis_def split: sum.splits)
  from ok up obtain sts where sts: "suggestedTasks analysis = Some sts"
    by (auto simp: write_analysis_def Let_def split: option.splits)
  obtain rows s3 where ct: "create_tasks cal hid (ae_id row') startDate sts
      (deleteMany_tasks (ae_id row') s1) = (rows, s3)"
    by (cases "create_tasks cal hid (ae_id row') startDate sts (deleteMany_tasks (ae_id row') s1)")
  from ok up sts ct obtain created where th: "those rows = Some created"
    and r: "r = \<lparr> saved_event = row', saved_tasks = created \<rparr>" and s': "s' = s3"
    by (auto simp: write_analysis_def Let_def split: option.splits)
  note c = create_tasks_those [OF ct th]
  show ?thesis
    apply (rule exI [of _ s1])
    apply (rule exI [of _ sts])
    using up sts c by (simp add: r s' deleteMany_tasks_def)
qed

lemma write_analysis_InrD:
  assumes "write_analysis cal now hid event analysis startDate endDate s = (Inr r, s')"
  shows "findUnique s' (event_id event) = Some (saved_event r)"
    and "tasks_of s' (ae_id (saved_event r)) = saved_tasks r"
proof -
  from write_analysis_unfold [OF assms] obtain s1 sts where
    up: "upsert now hid event analysis startDate endDate s = Inr (saved_event r, s1)"
    and new: "map Some (saved_tasks r) =
               map (\<lambda>(i, t). map_option (\<lambda>due. new_task hid (ae_id (saved_event r)) due i t)
                               (due_date cal startDate t))
                 (enumerate (next_id s1) sts)"
    and tab: "suggestedTask_table s' =
               filter (\<lambda>t. analyzedEventId t \<noteq> ae_id (saved_event r)) (suggestedTask_table s1)
                 @ saved_tasks r"
    and ev: "analyzedEvent_table s' = analyzedEvent_table s1"
    by (elim exE conjE)
  note u = upsert_InrD [OF up]
  show "findUnique s' (event_id event) = Some (saved_event r)"
    using u by (simp add: findUnique_def ev)
  have "list_all (\<lambda>row. analyzedEventId row = ae_id (saved_event r)) (saved_tasks r)"
    using created_rows [OF new] by (simp add: list_all_iff)
  then have own: "filter (\<lambda>t. analyzedEventId t = ae_id (saved_event r)) (saved_tasks r) = saved_tasks r"
    by (simp add: list_all_iff)
  have none: "filter (\<lambda>t. analyzedEventId t = ae_id (saved_event r))
                (filter (\<lambda>t. analyzedEventId t \<noteq> ae_id (saved_event r)) (suggestedTask_table s1)) = []"
    by (simp add: filter_empty_conv)
  show "tasks_of s' (ae_id (saved_event r)) = saved_tasks r"
    unfolding tasks_of_def tab using own none by simp
qed

lemma write_analysis_facts:
  assumes ok: "write_analysis cal now hid event analysis startDate endDate s = (Inr r, s')"
  shows "\<exists>sd sts n. startDate = Some sd \<and> suggestedTasks analysis = Some sts
           \<and> n = (case findUnique s (event_id event) of Some row \<Rightarrow> next_id s | None \<Rightarrow> next_id s + 1)
           \<and> ae_id (saved_event r) = (case findUnique s (event_id event) of Some row \<Rightarrow> ae_id row | None \<Rightarrow> next_id s)
           \<and> analysisData (saved_event r) = analysis
           \<and> eventStart (saved_event r) = sd
           \<and> map Some (saved_tasks r) =
               map (\<lambda>(i, t). map_option (\<lambda>due. new_task hid (ae_id (saved_event r)) due i t)
                               (due_date cal (Some sd) t))
                 (enumerate n sts)
           \<and> suggestedTask_table s' =
                 filter (\<lambda>t. analyzedEventId t \<noteq> ae_id (saved_event r)) (suggestedTask_table s) @ saved_tasks r
           \<and> next_id s' = n + length sts
           \<and> map eventId (analyzedEvent_table s') =
                (case findUnique s (event_id event) of
                   Some row \<Rightarrow> map eventId (analyzedEvent_table s)
                 | None \<Rightarrow> map eventId (analyzedEvent_table s) @ [event_id event])"
proof -
  from write_analysis_unfold [OF ok] obtain s1 sts where
    up: "upsert now hid event analysis startDate endDate s = Inr (saved_event r, s1)"
    and sts: "suggestedTasks analysis = Some sts"
    and new: "map Some (saved_tasks r) =
               map (\<lambda>(i, t). map_option (\<lambda>due. new_task hid (ae_id (saved_event r)) due i t)
                               (due_date cal startDate t))
                 (enumerate (next_id s1) sts)"
    and tab: "suggestedTask_table s' =
               filter (\<lambda>t. analyzedEventId t \<noteq> ae_id (saved_event r)) (suggestedTask_table s1)
                 @ saved_tasks r"
    and ev: "analyzedEvent_table s' = analyzedEvent_table s1"
    and nx: "next_id s' = next_id s1 + length sts"
    by (elim exE conjE)
  note u = upsert_InrD [OF up]
  note t = upsert_table [OF up]
  have ad: "analysisData (saved_event r) = analysis"
    by (rule upsert_analysisData [OF up])
  from u have sd: "startDate = Some (eventStart (saved_event r))" by simp
  show ?thesis
    apply (rule exI [of _ "eventStart (saved_event r)"])
    apply (rule exI [of _ sts])
    apply (rule exI [of _ "next_id s1"])
    using u t sts ad new tab ev nx sd
    by (cases "findUnique s (event_id event)") simp_all
qed

lemma write_analysis_wf:
  assumes wf: "wf_store s"
    and ok: "write_analysis cal now hid event analysis startDate endDate s = (Inr r, s')"
  shows "wf_store s'"
proof -
  from write_analysis_unfold [OF ok] obtain s1 sts where
    up: "upsert now hid event analysis startDate endDate s = Inr (saved_event r, s1)"
    and new: "map Some (saved_tasks r) =
               map (\<lambda>(i, t). map_option (\<lambda>due. new_task hid (ae_id (saved_event r)) due i t)
                               (due_date cal startDate t))
                 (enumerate (next_id s1) sts)"
    and tab: "suggestedTask_table s' =
               filter (\<lambda>t. analyzedEventId t \<noteq> ae_id (saved_event r)) (suggestedTask_table s1)
                 @ saved_tasks r"
    and ev: "analyzedEvent_table s' = analyzedEvent_table s1"
    and nx: "next_id s' = next_id s1 + length sts"
    by (elim exE conjE)
  have w1: "wf_store s1" by (rule upsert_wf [OF wf up])
  have ids: "\<And>row. row \<in> set (saved_tasks r) \<Longrightarrow> task_id row < next_id s1 + length sts"
    using created_rows [OF new] by (simp add: list_all_iff)
  show ?thesis
    using w1 ids unfolding wf_store_def tab ev nx
    by (auto simp: list_all_iff)
qed


lemma saveAnalyzedEvent_written:
  assumes ok: "saveAnalyzedEvent cal P now hid e a s = (Inr r, s')"
    and written: "findUnique s (event_id e) = None \<or> truthy (forceReanalysis a)"
  shows "\<exists>ts fin. event_start e = Some ts \<and> event_end e = Some fin
     \<and> write_analysis cal now hid e a (resolve_date P now ts) (resolve_date P now fin) s = (Inr r, s')"
proof -
  from ok obtain ts where ts: "event_start e = Some ts"
    by (cases "event_start e") (auto simp: saveAnalyzedEvent_def)
  from ok ts obtain fin where fin: "event_end e = Some fin"
    by (cases "event_end e") (auto simp: saveAnalyzedEvent_def)
  from ok written ts fin
  have "write_analysis cal now hid e a (resolve_date P now ts) (resolve_date P now fin) s = (Inr r, s')"
    by (auto simp: saveAnalyzedEvent_def Let_def split: option.splits if_splits)
  with ts fin show ?thesis by simp
qed

text \<open>
  C6. When saveAnalyzedEvent has returned for an event and an analysis that does not force
  re-analysis, a second call with the same event and analysis returns the same record and
  leaves the store as it is; the store holds exactly one AnalyzedEvent for the event id,
  and the tasks it owns are the tasks of the first call.
\<close>

theorem saveAnalyzedEvent_idempotent:
  assumes first: "saveAnalyzedEvent cal P now hid e a s = (Inr r, s1)"
    and noforce: "\<not> truthy (forceReanalysis a)"
    and uniq: "distinct (map eventId (analyzedEvent_table s))"
  shows "saveAnalyzedEvent cal P now' hid e a s1 = (Inr r, s1)
       \<and> length (filter (\<lambda>row. eventId row = event_id e) (analyzedEvent_table s1)) = 1
       \<and> tasks_of s1 (ae_id (saved_event r)) = saved_tasks r"
proof -
  from first obtain ts where ts: "event_start e = Some ts"
    by (cases "event_start e") (auto simp: saveAnalyzedEvent_def)
  from first ts obtain fin where fin: "event_end e = Some fin"
    by (cases "event_end e") (auto simp: saveAnalyzedEvent_def)
  show ?thesis
  proof (cases "findUnique s (event_id e)")
    case (Some existing)
    with first noforce ts fin
    have r: "r = \<lparr> saved_event = existing, saved_tasks = tasks_of s (ae_id existing) \<rparr>"
      and s1: "s1 = s"
      by (auto simp: saveAnalyzedEvent_def Let_def)
    have again: "saveAnalyzedEvent cal P now' hid e a s1 = (Inr r, s1)"
      using Some noforce ts fin by (simp add: saveAnalyzedEvent_def Let_def r s1)
    have one: "length (filter (\<lambda>row. eventId row = event_id e) (analyzedEvent_table s1)) = 1"
      using count_unique [OF uniq] Some by (simp add: findUnique_def s1)
    show ?thesis using again one by (simp add: r s1)
  next
    case None
    with first ts fin
    have w: "write_analysis cal now hid e a (resolve_date P now ts) (resolve_date P now fin) s = (Inr r, s1)"
      by (simp add: saveAnalyzedEvent_def Let_def)
    note d = write_analysis_InrD [OF w]
    have again: "saveAnalyzedEvent cal P now' hid e a s1 = (Inr r, s1)"
      using d(1) d(2) noforce ts fin by (simp add: saveAnalyzedEvent_def Let_def)
    from write_analysis_facts [OF w] None
    have tab: "map eventId (analyzedEvent_table s1) = map eventId (analyzedEvent_table s) @ [event_id e]"
      by auto
    have fresh: "event_id e \<notin> eventId ` set (analyzedEvent_table s)"
      using None by (simp add: findUnique_def find_None_eventId)
    have u1: "distinct (map eventId (analyzedEvent_table s1))"
      using uniq fresh by (simp add: tab)
    have one: "length (filter (\<lambda>row. eventId row = event_id e) (analyzedEvent_table s1)) = 1"
      using count_unique [OF u1] d(1) by (simp add: findUnique_def)
    show ?thesis using again one d(2) by simp
  qed
qed

text \<open>
  C7. When an AnalyzedEvent exists for the event id and the analysis forces re-analysis,
  a successful saveAnalyzedEvent keeps the row's id, stores the new analysis, and leaves
  the row owning exactly the tasks created from the new analysis's suggested tasks, with
  fresh ids and with the due dates computed from the start date of the event; no task
  that the row owned before is left in the store, and the store still holds exactly one
  AnalyzedEvent for the event id.
\<close>

theorem saveAnalyzedEvent_force_replaces:
  assumes wf: "wf_store s"
    and existing: "findUnique s (event_id e) = Some row0"
    and force: "truthy (forceReanalysis a)"
    and ok: "saveAnalyzedEvent cal P now hid e a s = (Inr r, s')"
  shows "ae_id (saved_event r) = ae_id row0
       \<and> analysisData (saved_event r) = a
       \<and> tasks_of s' (ae_id row0) = saved_tasks r
       \<and> (\<exists>ts sd sts. event_start e = Some ts \<and> resolve_date P now ts = Some sd
             \<and> suggestedTasks a = Some sts
             \<and> map Some (saved_tasks r) =
                 map (\<lambda>(i, t). map_option (\<lambda>due. new_task hid (ae_id row0) due i t)
                                 (due_date cal (Some sd) t))
                   (enumerate (next_id s) sts))
       \<and> set (tasks_of s (ae_id row0)) \<inter> set (suggestedTask_table s') = {}
       \<and> length (filter (\<lambda>row. eventId row = event_id e) (analyzedEvent_table s')) = 1
       \<and> findUnique s' (event_id e) = Some (saved_event r)"
proof -
  from saveAnalyzedEvent_written [OF ok disjI2 [OF force]] obtain ts fin where
    ts: "event_start e = Some ts"
    and w: "write_analysis cal now hid e a (resolve_date P now ts) (resolve_date P now fin) s = (Inr r, s')"
    by (elim exE conjE)
  note d = write_analysis_InrD [OF w]
  from write_analysis_facts [OF w] existing obtain sd sts where
    sd: "resolve_date P now ts = Some sd" and sts: "suggestedTasks a = Some sts"
    and id: "ae_id (saved_event r) = ae_id row0"
    and ad: "analysisData (saved_event r) = a"
    and new: "map Some (saved_tasks r) =
               map (\<lambda>(i, t). map_option (\<lambda>due. new_task hid (ae_id (saved_event r)) due i t)
                               (due_date cal (Some sd) t))
                 (enumerate (next_id s) sts)"
    and tab: "suggestedTask_table s' =
                 filter (\<lambda>t. analyzedEventId t \<noteq> ae_id (saved_event r)) (suggestedTask_table s) @ saved_tasks r"
    and ev: "map eventId (analyzedEvent_table s') = map eventId (analyzedEvent_table s)"
    by auto
  have old_ids: "\<And>t. t \<in> set (suggestedTask_table s) \<Longrightarrow> task_id t < next_id s"
    using wf by (simp add: wf_store_def list_all_iff)
  have new_ids: "\<And>t. t \<in> set (saved_tasks r) \<Longrightarrow> next_id s \<le> task_id t"
    using created_rows [OF new] by (simp add: list_all_iff)
  have disj: "set (tasks_of s (ae_id row0)) \<inter> set (suggestedTask_table s') = {}"
  proof -
    have "\<And>t. t \<in> set (tasks_of s (ae_id row0)) \<Longrightarrow> t \<notin> set (suggestedTask_table s')"
    proof
      fix t assume a: "t \<in> set (tasks_of s (ae_id row0))" and b: "t \<in> set (suggestedTask_table s')"
      from a have o: "analyzedEventId t = ae_id row0" "t \<in> set (suggestedTask_table s)"
        by (simp_all add: tasks_of_def)
      from b o(1) have "t \<in> set (saved_tasks r)" by (simp add: tab id)
      with new_ids old_ids [OF o(2)] show False by fastforce
    qed
    then show ?thesis by blast
  qed
  have u1: "distinct (map eventId (analyzedEvent_table s'))"
    using wf by (simp add: ev wf_store_def)
  have one: "length (filter (\<lambda>row. eventId row = event_id e) (analyzedEvent_table s')) = 1"
    using count_unique [OF u1] d(1) by (simp add: findUnique_def)
  have ex: "\<exists>ts sd sts. event_start e = Some ts \<and> resolve_date P now ts = Some sd
             \<and> suggestedTasks a = Some sts
             \<and> map Some (saved_tasks r) =
                 map (\<lambda>(i, t). map_option (\<lambda>due. new_task hid (ae_id row0) due i t)
                                 (due_date cal (Some sd) t))
                   (enumerate (next_id s) sts)"
    using ts sd sts new unfolding id by (intro exI [of _ ts] exI [of _ sd] exI [of _ sts]) simp
  show ?thesis
    using id ad d(1) d(2) ex disj one by simp
qed


lemmas example_eval =
  saveAnalyzedEvent_def write_analysis_def upsert_def findUnique_def deleteMany_tasks_def
  new_task_def resolve_date_def first_truthy_def title_of_def tasks_of_def
  example_Date_parse_def example_analysis_def example_event_def all_day_event_def example_now_def
  empty_store_def Let_def due_date_def example_calendar_def day_ms_def

lemma example_first_save:
  "\<exists>r. saveAnalyzedEvent example_calendar example_Date_parse example_now ''h1'' (example_event ''e1'')
         (example_analysis JUndefined ''Book babysitter'' 7) empty_store = (Inr r, example_store)
       \<and> map dueDate (saved_tasks r) = [1762452000000]"
  unfolding example_store_def by (simp add: example_eval)


lemma example_store_facts:
  "wf_store example_store"
  "\<exists>row0. findUnique example_store ''e1'' = Some row0 \<and> ae_id row0 = 0"
  "map title (suggestedTask_table example_store) = [''Book babysitter'']"
  "map task_id (suggestedTask_table example_store) = [1]"
  "next_id example_store = 2"
  unfolding example_store_def by (simp_all add: example_eval wf_store_def)

theorem saveAnalyzedEvent_idempotent_witness:
  "\<not> truthy JUndefined
   \<and> distinct (map eventId (analyzedEvent_table empty_store))
   \<and> (\<exists>r. saveAnalyzedEvent example_calendar example_Date_parse example_now ''h1'' (example_event ''e1'')
             (example_analysis JUndefined ''Book babysitter'' 7) empty_store = (Inr r, example_store)
         \<and> saveAnalyzedEvent example_calendar example_Date_parse (example_now + 5) ''h1'' (example_event ''e1'')
             (example_analysis JUndefined ''Book babysitter'' 7) example_store = (Inr r, example_store)
         \<and> length (filter (\<lambda>row. eventId row = ''e1'') (analyzedEvent_table example_store)) = 1
         \<and> tasks_of example_store (ae_id (saved_event r)) = saved_tasks r)"
proof -
  from example_first_save obtain r where
    first: "saveAnalyzedEvent example_calendar example_Date_parse example_now ''h1'' (example_event ''e1'')
         (example_analysis JUndefined ''Book babysitter'' 7) empty_store = (Inr r, example_store)"
    by (elim exE conjE)
  have nf: "\<not> truthy (forceReanalysis (example_analysis JUndefined ''Book babysitter'' 7))"
    by (simp add: example_analysis_def)
  have d: "distinct (map eventId (analyzedEvent_table empty_store))"
    by (simp add: empty_store_def)
  have id: "event_id (example_event ''e1'') = ''e1''" by (simp add: example_event_def)
  note T = saveAnalyzedEvent_idempotent [OF first nf d, of "example_now + 5", unfolded id]
  have ex: "\<exists>r. saveAnalyzedEvent example_calendar example_Date_parse example_now ''h1'' (example_event ''e1'')
             (example_analysis JUndefined ''Book babysitter'' 7) empty_store = (Inr r, example_store)
         \<and> saveAnalyzedEvent example_calendar example_Date_parse (example_now + 5) ''h1'' (example_event ''e1'')
             (example_analysis JUndefined ''Book babysitter'' 7) example_store = (Inr r, example_store)
         \<and> length (filter (\<lambda>row. eventId row = ''e1'') (analyzedEvent_table example_store)) = 1
         \<and> tasks_of example_store (ae_id (saved_event r)) = saved_tasks r"
    using first T by (intro exI [of _ r]) simp
  have nt: "\<not> truthy JUndefined" by simp
  show ?thesis
    apply (intro conjI)
    apply (rule nt, rule d, rule ex)
    done
qed

theorem saveAnalyzedEvent_force_replaces_witness:
  "wf_store example_store
   \<and> truthy (JBool True)
   \<and> (\<exists>row0. findUnique example_store ''e1'' = Some row0)
   \<and> (\<exists>r s'. saveAnalyzedEvent example_calendar example_Date_parse (example_now + 5) ''h1''
             (example_event ''e1'') (example_analysis (JBool True) ''Buy gift'' 3) example_store = (Inr r, s')
         \<and> tasks_of s' (ae_id (saved_event r)) = saved_tasks r
         \<and> map title (saved_tasks r) = [''Buy gift'']
         \<and> set (tasks_of example_store (ae_id (saved_event r))) \<inter> set (suggestedTask_table s') = {}
         \<and> length (filter (\<lambda>row. eventId row = ''e1'') (analyzedEvent_table s')) = 1)"
proof -
  define X where "X = saveAnalyzedEvent example_calendar example_Date_parse (example_now + 5) ''h1''
             (example_event ''e1'') (example_analysis (JBool True) ''Buy gift'' 3) example_store"
  have "\<exists>r. fst X = Inr r \<and> map title (saved_tasks r) = [''Buy gift'']"
    unfolding X_def example_store_def by (simp add: example_eval)
  then obtain r where r: "X = (Inr r, snd X)" and ti: "map title (saved_tasks r) = [''Buy gift'']"
    by (cases X) auto
  from example_store_facts(2) obtain row0 where
    row0: "findUnique example_store (event_id (example_event ''e1'')) = Some row0"
    by (auto simp: example_event_def)
  have force: "truthy (forceReanalysis (example_analysis (JBool True) ''Buy gift'' 3))"
    by (simp add: example_analysis_def)
  have id: "event_id (example_event ''e1'') = ''e1''" by (simp add: example_event_def)
  note ok = r [unfolded X_def]
  note T = saveAnalyzedEvent_force_replaces [OF example_store_facts(1) row0 force ok]
  have i: "ae_id (saved_event r) = ae_id row0"
    using T [THEN conjunct1] .
  have own: "tasks_of (snd X) (ae_id row0) = saved_tasks r"
    using T [THEN conjunct2, THEN conjunct2, THEN conjunct1] unfolding X_def .
  have dis: "set (tasks_of example_store (ae_id row0)) \<inter> set (suggestedTask_table (snd X)) = {}"
    using T [THEN conjunct2, THEN conjunct2, THEN conjunct2, THEN conjunct2, THEN conjunct1]
    unfolding X_def .
  have one: "length (filter (\<lambda>row. eventId row = ''e1'') (analyzedEvent_table (snd X))) = 1"
    using T [THEN conjunct2, THEN conjunct2, THEN conjunct2, THEN conjunct2, THEN conjunct2,
        THEN conjunct1]
    unfolding X_def id .
  have "X = (Inr r, snd X)
         \<and> tasks_of (snd X) (ae_id (saved_event r)) = saved_tasks r
         \<and> map title (saved_tasks r) = [''Buy gift'']
         \<and> set (tasks_of example_store (ae_id (saved_event r))) \<inter> set (suggestedTask_table (snd X)) = {}
         \<and> length (filter (\<lambda>row. eventId row = ''e1'') (analyzedEvent_table (snd X))) = 1"
    unfolding i
    apply (intro conjI)
    apply (rule r, rule own, rule ti, rule dis, rule one)
    done
  then have ex: "\<exists>r s'. X = (Inr r, s')
         \<and> tasks_of s' (ae_id (saved_event r)) = saved_tasks r
         \<and> map title (saved_tasks r) = [''Buy gift'']
         \<and> set (tasks_of example_store (ae_id (saved_event r))) \<inter> set (suggestedTask_table s') = {}
         \<and> length (filter (\<lambda>row. eventId row = ''e1'') (analyzedEvent_table s')) = 1"
    by (intro exI [of _ r] exI [of _ "snd X"])
  have tr: "truthy (JBool True)" by simp
  have ex0: "\<exists>row0. findUnique example_store ''e1'' = Some row0"
    using row0 unfolding id by (rule exI)
  show ?thesis
    unfolding X_def [symmetric]
    apply (intro conjI)
    apply (rule example_store_facts(1), rule tr, rule ex0, rule ex)
    done
qed


text \<open>
  An Invalid Date among the due dates (an offset that is not a finite number) makes
  saveAnalyzedEvent throw after the row of the event has been written.
\<close>

lemma saveAnalyzedEvent_invalid_offset:
  "fst (saveAnalyzedEvent example_calendar example_Date_parse example_now ''h1'' (example_event ''e1'')
      \<lparr> forceReanalysis = JUndefined, arg_eventType = JStr ''social'', arg_requiresSitter = JBool True,
        arg_requiresTravel = JBool False, arg_requiresFormalAttire = JBool False,
        suggestedTasks = Some [\<lparr> st_title = ''Book babysitter'', st_type = ''booking'',
                                 daysBeforeEvent = NaN, st_priority = ''high'',
                                 st_description = None \<rparr>] \<rparr> empty_store)
   = Inl (JsError ''PrismaClientValidationError'')"
  by (simp add: example_eval)

section \<open>The analyze route and the skip-cache flag\<close>

text \<open>
  The response and the store after POST do not depend on the skip-cache flag.
\<close>

lemma POST_ignores_skipCache:
  "map_option response (POST_analyze cal P provider D now dev hid \<lparr> req_events = evs, req_skipCache = sc \<rparr> s)
     = map_option response (POST_analyze cal P provider D now dev' hid \<lparr> req_events = evs, req_skipCache = sc' \<rparr> s)
   \<and> map_option store_after (POST_analyze cal P provider D now dev hid \<lparr> req_events = evs, req_skipCache = sc \<rparr> s)
     = map_option store_after (POST_analyze cal P provider D now dev' hid \<lparr> req_events = evs, req_skipCache = sc' \<rparr> s)"
  by (simp add: POST_analyze_def Let_def split: option.splits sum.splits prod.splits)

lemma saveAnalyzedEvent_cache_hit:
  "has_start_end e \<Longrightarrow> findUnique s (event_id e) = Some row \<Longrightarrow>
     saveAnalyzedEvent cal D now hid e (as_analysis_arg a) s
       = (Inr \<lparr> saved_event = row, saved_tasks = tasks_of s (ae_id row) \<rparr>, s)"
  by (auto simp: saveAnalyzedEvent_def as_analysis_arg_def Let_def has_start_end_def)

lemma save_all_cached:
  "list_all (\<lambda>e. has_start_end e \<and> findUnique s (event_id e) \<noteq> None) es \<Longrightarrow>
     snd (save_all cal D now hid res es acc s) = s
     \<and> (\<exists>svs. fst (save_all cal D now hid res es acc s) = Inr svs)"
proof (induction es arbitrary: acc)
  case Nil
  then show ?case by simp
next
  case (Cons e es)
  then obtain row where row: "findUnique s (event_id e) = Some row" and se: "has_start_end e" by auto
  from Cons.prems have rest: "list_all (\<lambda>e. has_start_end e \<and> findUnique s (event_id e) \<noteq> None) es" by simp
  show ?case
    using Cons.IH [OF rest]
    by (cases "map_of res (event_id e)") (simp_all add: saveAnalyzedEvent_cache_hit [OF se row])
qed

lemma POST_cached_store_unchanged:
  assumes "list_all (\<lambda>e. has_start_end e \<and> findUnique s (event_id e) \<noteq> None) events"
  shows "map_option store_after
           (POST_analyze cal P provider D now dev hid \<lparr> req_events = Some events, req_skipCache = sc \<rparr> s)
         = Some s"
proof -
  let ?es = "take 10 (filter (is_relevant cal D now) events)"
  have c: "list_all (\<lambda>e. has_start_end e \<and> findUnique s (event_id e) \<noteq> None) ?es"
    using assms by (auto simp: list_all_iff dest: in_set_takeD)
  have kb: "stringify_all (case (None :: KnowledgeBaseItem list option) of None \<Rightarrow> [] | Some items \<Rightarrow> items) = Inr []"
    by simp
  from run_any [OF kb, of P provider ?es None]
  obtain m where m: "analyzeBatchEvents P provider ?es None None = Some m"
    by (auto simp: analyzeBatchEvents_def)
  from save_all_cached [OF c, of cal D now hid m "[]"] obtain svs where
    "save_all cal D now hid m ?es [] s = (Inr svs, s)"
    by (cases "save_all cal D now hid m ?es [] s") auto
  then show ?thesis
    by (simp add: POST_analyze_def Let_def m)
qed

text \<open>
  C9. A request with \<^verbatim>\<open>skipCache: true\<close>, in development, for an event that has
  been analysed before: the flag is logged and nothing else is done with it, the analysis
  passed to saveAnalyzedEvent has no \<^verbatim>\<open>forceReanalysis\<close>, and so the cached record
  is returned and the stored analysis and tasks stay as they were.
\<close>

theorem skipCache_does_not_force_reanalysis:
  "map_option store_after
     (POST_analyze example_calendar example_JSON_parse example_provider example_Date_parse
        (example_now + 5) True ''h1''
        \<lparr> req_events = Some [example_event ''e1''], req_skipCache = Some True \<rparr> example_store)
   = Some example_store
   \<and> map_option skip_cache_logged
     (POST_analyze example_calendar example_JSON_parse example_provider example_Date_parse
        (example_now + 5) True ''h1''
        \<lparr> req_events = Some [example_event ''e1''], req_skipCache = Some True \<rparr> example_store)
   = Some True
   \<and> map_option response
     (POST_analyze example_calendar example_JSON_parse example_provider example_Date_parse
        (example_now + 5) True ''h1''
        \<lparr> req_events = Some [example_event ''e1''], req_skipCache = Some True \<rparr> example_store)
   = Some (Inr [\<lparr> saved_event = hd (analyzedEvent_table example_store),
                   saved_tasks = suggestedTask_table example_store \<rparr>])
   \<and> map analysisData (analyzedEvent_table example_store)
   = [example_analysis JUndefined ''Book babysitter'' 7]"
proof -
  have row: "findUnique example_store (event_id (example_event ''e1''))
      = Some (hd (analyzedEvent_table example_store))"
    unfolding example_store_def by (simp add: example_eval)
  have own: "tasks_of example_store (ae_id (hd (analyzedEvent_table example_store)))
      = suggestedTask_table example_store"
    unfolding example_store_def by (simp add: example_eval)
  have rel: "is_relevant example_calendar example_Date_parse (example_now + 5) (example_event ''e1'')"
    by (simp add: is_relevant_def date_ge_def example_eval)
  have se: "has_start_end (example_event ''e1'')"
    by (simp add: has_start_end_def example_event_def)
  have se1: "list_all has_start_end [example_event ''e1'']" using se by simp
  have kb: "stringify_all (case (None :: KnowledgeBaseItem list option) of None \<Rightarrow> [] | Some items \<Rightarrow> items) = Inr []"
    by simp
  have res: "analyzeBatchEvents example_JSON_parse example_provider [example_event ''e1''] None None
      = Some [(''e1'', client_value example_JSON_parse example_provider None [] 0 (example_event ''e1''))]"
    unfolding analyzeBatchEvents_def run_eq [OF se1 kb] by (simp add: example_event_def)
  have id: "event_id (example_event ''e1'') = ''e1''" by (simp add: example_event_def)
  have post: "POST_analyze example_calendar example_JSON_parse example_provider example_Date_parse
        (example_now + 5) True ''h1''
        \<lparr> req_events = Some [example_event ''e1''], req_skipCache = Some True \<rparr> example_store
     = Some \<lparr> response = Inr [\<lparr> saved_event = hd (analyzedEvent_table example_store),
                   saved_tasks = suggestedTask_table example_store \<rparr>],
              store_after = example_store, skip_cache_logged = True \<rparr>"
    by (simp add: POST_analyze_def Let_def rel res id saveAnalyzedEvent_cache_hit [OF se row] own)
  have ad: "map analysisData (analyzedEvent_table example_store)
   = [example_analysis JUndefined ''Book babysitter'' 7]"
    unfolding example_store_def by (simp add: example_eval)
  show ?thesis by (simp add: post ad)
qed

section \<open>The simple variants, and the two claims about both variants\<close>

lemma analyze_try_v1_simps:
  "analyze_try_v1 P (Rejected err) = Inl err"
  "analyze_try_v1 P (Resolved []) = Inl (JsError ''TypeError: Cannot read properties of undefined'')"
  "analyze_try_v1 P (Resolved (OtherBlock # rest)) = Inl (JsError ''Unexpected response type from Claude'')"
  "analyze_try_v1 P (Resolved (TextBlock text # rest)) =
     (case match_braces text of
        None \<Rightarrow> Inl (JsError ''No JSON found in response'')
      | Some jsonMatch \<Rightarrow>
          (case P jsonMatch of
             None \<Rightarrow> Inl (JsError ''SyntaxError'')
           | Some analysis \<Rightarrow>
               (case get_prop analysis ''eventType'' of
                  Inl err \<Rightarrow> Inl err
                | Inr et \<Rightarrow>
                    if truthy et \<and> is_array (prop_of analysis ''suggestedTasks'')
                    then Inr analysis
                    else Inl (JsError ''Invalid analysis structure''))))"
  by (simp_all add: analyze_try_v1_def)

lemma analyzeCalendarEvent_v1_value:
  "has_start_end e \<Longrightarrow>
     analyzeCalendarEvent_v1 P (provider n) e = Inr (client_value_v1 P provider n e)"
  by (auto simp: analyzeCalendarEvent_v1_def client_value_v1_def has_start_end_def split: sum.splits)

lemma analyzeCalendarEvent_v1_missing:
  "\<not> has_start_end e \<Longrightarrow>
     analyzeCalendarEvent_v1 P llm e =
       Inl (JsError ''TypeError: Cannot read properties of undefined (reading dateTime)'')"
  by (auto simp: analyzeCalendarEvent_v1_def has_start_end_def split: option.splits)

lemma get_prop_cases:
  "get_prop v k = (if v = JNull \<or> v = JUndefined
     then Inl (JsError (if v = JNull then ''TypeError: Cannot read properties of null''
                        else ''TypeError: Cannot read properties of undefined''))
     else Inr (prop_of v k))"
  by (cases v) simp_all

lemma failure_policy_simple:
  assumes se: "has_start_end e"
  shows "(\<exists>a. analyzeCalendarEvent_v1 P llm e = Inr a)
   \<and> (llm e = Rejected err \<longrightarrow> analyzeCalendarEvent_v1 P llm e = Inr default_analysis_v1)
   \<and> (llm e = Resolved [] \<longrightarrow> analyzeCalendarEvent_v1 P llm e = Inr default_analysis_v1)
   \<and> (llm e = Resolved (OtherBlock # rest) \<longrightarrow> analyzeCalendarEvent_v1 P llm e = Inr default_analysis_v1)
   \<and> (llm e = Resolved (TextBlock text # rest) \<and> match_braces text = None
        \<longrightarrow> analyzeCalendarEvent_v1 P llm e = Inr default_analysis_v1)
   \<and> (llm e = Resolved (TextBlock text # rest) \<and> match_braces text = Some m \<and> P m = None
        \<longrightarrow> analyzeCalendarEvent_v1 P llm e = Inr default_analysis_v1)
   \<and> (llm e = Resolved (TextBlock text # rest) \<and> match_braces text = Some m \<and> P m = Some v
        \<and> \<not> (truthy (prop_of v ''eventType'') \<and> is_array (prop_of v ''suggestedTasks''))
        \<longrightarrow> analyzeCalendarEvent_v1 P llm e = Inr default_analysis_v1)
   \<and> (llm e = Resolved (TextBlock text # rest) \<and> match_braces text = Some m \<and> P m = Some v
        \<and> truthy (prop_of v ''eventType'') \<and> is_array (prop_of v ''suggestedTasks'')
        \<longrightarrow> analyzeCalendarEvent_v1 P llm e = Inr v)"
proof -
  have ace: "analyzeCalendarEvent_v1 P llm e =
      (case analyze_try_v1 P (llm e) of Inr a \<Rightarrow> Inr a | Inl err \<Rightarrow> Inr default_analysis_v1)"
    using se by (auto simp: analyzeCalendarEvent_v1_def has_start_end_def)
  have c1: "\<exists>a. analyzeCalendarEvent_v1 P llm e = Inr a"
    unfolding ace by (cases "analyze_try_v1 P (llm e)") simp_all
  have c2: "llm e = Rejected err \<longrightarrow> analyzeCalendarEvent_v1 P llm e = Inr default_analysis_v1"
    unfolding ace by (simp add: analyze_try_v1_simps)
  have c3: "llm e = Resolved [] \<longrightarrow> analyzeCalendarEvent_v1 P llm e = Inr default_analysis_v1"
    unfolding ace by (simp add: analyze_try_v1_simps)
  have c4: "llm e = Resolved (OtherBlock # rest)
      \<longrightarrow> analyzeCalendarEvent_v1 P llm e = Inr default_analysis_v1"
    unfolding ace by (simp add: analyze_try_v1_simps)
  have c5: "llm e = Resolved (TextBlock text # rest) \<and> match_braces text = None
        \<longrightarrow> analyzeCalendarEvent_v1 P llm e = Inr default_analysis_v1"
    unfolding ace by (simp add: analyze_try_v1_simps)
  have c6: "llm e = Resolved (TextBlock text # rest) \<and> match_braces text = Some m \<and> P m = None
        \<longrightarrow> analyzeCalendarEvent_v1 P llm e = Inr default_analysis_v1"
    unfolding ace by (simp add: analyze_try_v1_simps)
  have c7: "llm e = Resolved (TextBlock text # rest) \<and> match_braces text = Some m \<and> P m = Some v
        \<and> \<not> (truthy (prop_of v ''eventType'') \<and> is_array (prop_of v ''suggestedTasks''))
        \<longrightarrow> analyzeCalendarEvent_v1 P llm e = Inr default_analysis_v1"
    unfolding ace by (simp add: analyze_try_v1_simps get_prop_cases)
  have c8: "llm e = Resolved (TextBlock text # rest) \<and> match_braces text = Some m \<and> P m = Some v
        \<and> truthy (prop_of v ''eventType'') \<and> is_array (prop_of v ''suggestedTasks'')
        \<longrightarrow> analyzeCalendarEvent_v1 P llm e = Inr v"
  proof
    assume a: "llm e = Resolved (TextBlock text # rest) \<and> match_braces text = Some m \<and> P m = Some v
        \<and> truthy (prop_of v ''eventType'') \<and> is_array (prop_of v ''suggestedTasks'')"
    then have "v \<noteq> JNull" "v \<noteq> JUndefined" by auto
    with a show "analyzeCalendarEvent_v1 P llm e = Inr v"
      unfolding ace by (simp add: analyze_try_v1_simps get_prop_cases)
  qed
  show ?thesis
    apply (intro conjI)
    apply (rule c1, rule c2, rule c3, rule c4, rule c5, rule c6, rule c7, rule c8)
    done
qed

lemma default_analysis_v1_fields:
  "get_prop default_analysis_v1 ''confidence'' = Inr JUndefined
   \<and> get_prop default_analysis_v1 ''reasoning'' = Inr JUndefined
   \<and> get_prop default_analysis_v1 ''notes'' = Inr (JStr ''Analysis failed - manual review recommended'')"
  by (simp add: default_analysis_v1_def field_of_def)

text \<open>
  C2 (as amended). Whether analyzeCalendarEvent returns depends on its arguments: the
  statements before the try block build the prompt, and they throw a TypeError when the
  event has no \<^verbatim>\<open>start\<close> or no \<^verbatim>\<open>end\<close> (both variants) or when a value of the
  knowledge base cannot be serialised (settings-aware variant); what they throw leaves
  the function. When the prompt has been built, the function returns and never throws.

  The settings-aware client then returns the default analysis (type other, the three
  flags false, no tasks, confidence 0.1, reasoning "Analysis failed - using defaults")
  whenever the provider call rejects, the reply has no first block or a first block that
  is not text, JSON.parse throws on the extracted text, or the text parses to null. A
  reply that parses to any other value is not a failure, whatever it lacks: each missing
  or falsy field takes its own default, so the empty object, and a number, a string or
  an array, give type other, flags false, no tasks, empty reasoning and confidence 0.8.

  The simple client returns its default (type other, the three flags false, no suggested
  tasks, no preparations, notes "Analysis failed - manual review recommended") in the same
  cases and also when the reply has no \<^verbatim>\<open>{...}\<close> span or the parsed value lacks an
  event type or an array of suggested tasks; this default has no confidence and no
  reasoning field.
\<close>

theorem analyzeCalendarEvent_failure_policy:
  "(build_prompt e settings knowledgeBase = Inr prompt \<longrightarrow>
     (\<exists>a. analyzeCalendarEvent P llm e settings knowledgeBase = Inr a)
   \<and> (llm prompt = Rejected err
        \<longrightarrow> analyzeCalendarEvent P llm e settings knowledgeBase = Inr default_analysis)
   \<and> (llm prompt = Resolved []
        \<longrightarrow> analyzeCalendarEvent P llm e settings knowledgeBase = Inr default_analysis)
   \<and> (llm prompt = Resolved (OtherBlock # rest)
        \<longrightarrow> analyzeCalendarEvent P llm e settings knowledgeBase = Inr default_analysis)
   \<and> (llm prompt = Resolved (TextBlock text # rest) \<and> P (analysisText_of text) = None
        \<longrightarrow> analyzeCalendarEvent P llm e settings knowledgeBase = Inr default_analysis)
   \<and> (llm prompt = Resolved (TextBlock text # rest) \<and> P (analysisText_of text) = Some JNull
        \<longrightarrow> analyzeCalendarEvent P llm e settings knowledgeBase = Inr default_analysis)
   \<and> (llm prompt = Resolved (TextBlock text # rest) \<and> P (analysisText_of text) = Some v
        \<and> v \<noteq> JNull \<and> v \<noteq> JUndefined
        \<longrightarrow> analyzeCalendarEvent P llm e settings knowledgeBase =
              Inr \<lparr> eventType = js_or (prop_of v ''eventType'') (JStr ''other''),
                    requiresSitter = js_or (prop_of v ''requiresSitter'') (JBool False),
                    requiresTravel = js_or (prop_of v ''requiresTravel'') (JBool False),
                    requiresFormalAttire = js_or (prop_of v ''requiresFormalAttire'') (JBool False),
                    tasks = js_or (prop_of v ''tasks'') (JArr []),
                    reasoning = js_or (prop_of v ''reasoning'') (JStr []),
                    confidence = js_or (prop_of v ''confidence'') (JNum (8 / 10)) \<rparr>)
   \<and> (llm prompt = Resolved (TextBlock text # rest) \<and> P (analysisText_of text) = Some v
        \<and> v \<noteq> JNull \<and> v \<noteq> JUndefined \<and> (v = JObj [] \<or> (\<forall>kvs. v \<noteq> JObj kvs))
        \<longrightarrow> analyzeCalendarEvent P llm e settings knowledgeBase =
              Inr \<lparr> eventType = JStr ''other'', requiresSitter = JBool False,
                    requiresTravel = JBool False, requiresFormalAttire = JBool False,
                    tasks = JArr [], reasoning = JStr [], confidence = JNum (8 / 10) \<rparr>))
   \<and> ((\<exists>prompt. build_prompt e settings knowledgeBase = Inr prompt)
        \<longleftrightarrow> has_start_end e
            \<and> (\<exists>knowledge. stringify_all (case knowledgeBase of None \<Rightarrow> [] | Some items \<Rightarrow> items)
                  = Inr knowledge))
   \<and> (build_prompt e settings knowledgeBase = Inl err0
        \<longrightarrow> analyzeCalendarEvent P llm e settings knowledgeBase = Inl err0)
   \<and> (\<not> has_start_end e \<longrightarrow>
        analyzeCalendarEvent P llm e settings knowledgeBase =
          Inl (JsError ''TypeError: Cannot read properties of undefined (reading dateTime)'')
      \<and> analyzeCalendarEvent_v1 P llm' e =
          Inl (JsError ''TypeError: Cannot read properties of undefined (reading dateTime)''))
   \<and> (has_start_end e \<longrightarrow>
     (\<exists>a. analyzeCalendarEvent_v1 P llm' e = Inr a)
   \<and> (llm' e = Rejected err \<longrightarrow> analyzeCalendarEvent_v1 P llm' e = Inr default_analysis_v1)
   \<and> (llm' e = Resolved [] \<longrightarrow> analyzeCalendarEvent_v1 P llm' e = Inr default_analysis_v1)
   \<and> (llm' e = Resolved (OtherBlock # rest) \<longrightarrow> analyzeCalendarEvent_v1 P llm' e = Inr default_analysis_v1)
   \<and> (llm' e = Resolved (TextBlock text # rest) \<and> match_braces text = None
        \<longrightarrow> analyzeCalendarEvent_v1 P llm' e = Inr default_analysis_v1)
   \<and> (llm' e = Resolved (TextBlock text # rest) \<and> match_braces text = Some m \<and> P m = None
        \<longrightarrow> analyzeCalendarEvent_v1 P llm' e = Inr default_analysis_v1)
   \<and> (llm' e = Resolved (TextBlock text # rest) \<and> match_braces text = Some m \<and> P m = Some v
        \<and> \<not> (truthy (prop_of v ''eventType'') \<and> is_array (prop_of v ''suggestedTasks''))
        \<longrightarrow> analyzeCalendarEvent_v1 P llm' e = Inr default_analysis_v1)
   \<and> (llm' e = Resolved (TextBlock text # rest) \<and> match_braces text = Some m \<and> P m = Some v
        \<and> truthy (prop_of v ''eventType'') \<and> is_array (prop_of v ''suggestedTasks'')
        \<longrightarrow> analyzeCalendarEvent_v1 P llm' e = Inr v))
   \<and> (get_prop default_analysis_v1 ''confidence'' = Inr JUndefined
   \<and> get_prop default_analysis_v1 ''reasoning'' = Inr JUndefined
   \<and> get_prop default_analysis_v1 ''notes'' = Inr (JStr ''Analysis failed - manual review recommended''))"
proof -
  have D: "\<not> has_start_end e \<longrightarrow>
        analyzeCalendarEvent P llm e settings knowledgeBase =
          Inl (JsError ''TypeError: Cannot read properties of undefined (reading dateTime)'')
      \<and> analyzeCalendarEvent_v1 P llm' e =
          Inl (JsError ''TypeError: Cannot read properties of undefined (reading dateTime)'')"
    by (simp add: analyzeCalendarEvent_missing analyzeCalendarEvent_v1_missing)
  have C: "build_prompt e settings knowledgeBase = Inl err0
        \<longrightarrow> analyzeCalendarEvent P llm e settings knowledgeBase = Inl err0"
    by (simp add: analyzeCalendarEvent_def)
  show ?thesis
    apply (rule conjI)
     apply (rule impI)
     apply (erule failure_policy_settings_aware)
    apply (rule conjI)
     apply (rule build_prompt_Inr_iff)
    apply (rule conjI)
     apply (rule C)
    apply (rule conjI)
     apply (rule D)
    apply (rule conjI)
     apply (rule impI)
     apply (erule failure_policy_simple)
    apply (rule default_analysis_v1_fields)
    done
qed

theorem analyzeCalendarEvent_failure_policy_witness:
  "build_prompt (example_event ''e1'') None None
     = Inr \<lparr> prompt_event = example_event ''e1'', prompt_settings = None, prompt_knowledge = [] \<rparr>
   \<and> has_start_end (example_event ''e1'')
   \<and> \<not> has_start_end (event_without_end ''e1'')
   \<and> analyzeCalendarEvent example_JSON_parse empty_object_reply (example_event ''e1'') None None =
              Inr \<lparr> eventType = JStr ''other'', requiresSitter = JBool False,
                    requiresTravel = JBool False, requiresFormalAttire = JBool False,
                    tasks = JArr [], reasoning = JStr [], confidence = JNum (8 / 10) \<rparr>
   \<and> analyzeCalendarEvent example_JSON_parse number_reply (example_event ''e1'') None None =
              Inr \<lparr> eventType = JStr ''other'', requiresSitter = JBool False,
                    requiresTravel = JBool False, requiresFormalAttire = JBool False,
                    tasks = JArr [], reasoning = JStr [], confidence = JNum (8 / 10) \<rparr>
   \<and> analyzeCalendarEvent example_JSON_parse (rate_limited_provider 0) (example_event ''e1'') None None
       = Inr default_analysis
   \<and> analyzeCalendarEvent_v1 example_JSON_parse (example_provider_v1 0) (example_event ''e1'')
       = Inr default_analysis_v1
   \<and> analyzeCalendarEvent_v1 example_JSON_parse (example_provider_v1 0) (example_event ''e2'')
       = Inr default_analysis_v1
   \<and> analyzeCalendarEvent example_JSON_parse empty_object_reply (event_without_end ''e1'') None None
       = Inl (JsError ''TypeError: Cannot read properties of undefined (reading dateTime)'')
   \<and> analyzeCalendarEvent_v1 example_JSON_parse (example_provider_v1 0) (event_without_end ''e1'')
       = Inl (JsError ''TypeError: Cannot read properties of undefined (reading dateTime)'')"
proof -
  let ?p = "\<lparr> prompt_event = example_event ''e1'', prompt_settings = None, prompt_knowledge = [] \<rparr>"
  have bp: "build_prompt (example_event ''e1'') None None = Inr ?p"
    by (simp add: build_prompt_def example_event_def)
  have se1: "has_start_end (example_event ''e1'')" and se2: "has_start_end (example_event ''e2'')"
    by (simp_all add: has_start_end_def example_event_def)
  have ns: "\<not> has_start_end (event_without_end ''e1'')"
    by (simp add: has_start_end_def event_without_end_def)
  have a: "empty_object_reply ?p = Resolved [TextBlock ''{}''] \<and>
      example_JSON_parse (analysisText_of ''{}'') = Some (JObj []) \<and> JObj [] \<noteq> JNull \<and>
      JObj [] \<noteq> JUndefined \<and> (JObj [] = JObj [] \<or> (\<forall>kvs. JObj [] \<noteq> JObj kvs))"
    by (simp add: empty_object_reply_def example_JSON_parse_def analysisText_of_def match_braces_def)
  have b: "number_reply ?p = Resolved [TextBlock ''42''] \<and>
      example_JSON_parse (analysisText_of ''42'') = Some (JNum 42) \<and> JNum 42 \<noteq> JNull \<and>
      JNum 42 \<noteq> JUndefined \<and> (JNum 42 = JObj [] \<or> (\<forall>kvs. JNum 42 \<noteq> JObj kvs))"
    by (simp add: number_reply_def example_JSON_parse_def analysisText_of_def match_braces_def)
  have c: "rate_limited_provider 0 ?p = Rejected (JsError ''429 rate_limit_error'')"
    by (simp add: rate_limited_provider_def)
  have d: "example_provider_v1 0 (example_event ''e1'') = Resolved [TextBlock ''{}'']
      \<and> match_braces ''{}'' = Some ''{}'' \<and> example_JSON_parse ''{}'' = Some (JObj [])
      \<and> \<not> (truthy (prop_of (JObj []) ''eventType'') \<and> is_array (prop_of (JObj []) ''suggestedTasks''))"
    by (simp add: example_provider_v1_def example_event_def match_braces_def example_JSON_parse_def
        field_of_def)
  have e: "example_provider_v1 0 (example_event ''e2'') = Rejected (JsError ''429 rate_limit_error'')"
    by (simp add: example_provider_v1_def example_event_def)
  note T1 = analyzeCalendarEvent_failure_policy
      [where e = "example_event ''e1''" and settings = None and knowledgeBase = None and prompt = "?p"
         and P = example_JSON_parse and llm = empty_object_reply and ?text = "''{}''" and rest = "[]"
         and v = "JObj []" and llm' = "example_provider_v1 0" and m = "''{}''"]
  note T2 = analyzeCalendarEvent_failure_policy
      [where e = "example_event ''e1''" and settings = None and knowledgeBase = None and prompt = "?p"
         and P = example_JSON_parse and llm = number_reply and ?text = "''42''" and rest = "[]"
         and v = "JNum 42"]
  note T3 = analyzeCalendarEvent_failure_policy
      [where e = "example_event ''e1''" and settings = None and knowledgeBase = None and prompt = "?p"
         and P = example_JSON_parse and llm = "rate_limited_provider 0"
         and err = "JsError ''429 rate_limit_error''"]
  note T4 = analyzeCalendarEvent_failure_policy
      [where e = "example_event ''e2''" and P = example_JSON_parse
         and err = "JsError ''429 rate_limit_error''" and llm' = "example_provider_v1 0"]
  note T5 = analyzeCalendarEvent_failure_policy
      [where e = "event_without_end ''e1''" and settings = None and knowledgeBase = None
         and P = example_JSON_parse and llm = empty_object_reply
         and llm' = "example_provider_v1 0"]
  note A1 = T1 [THEN conjunct1, THEN mp, OF bp]
  note A2 = T2 [THEN conjunct1, THEN mp, OF bp]
  note A3 = T3 [THEN conjunct1, THEN mp, OF bp]
  note E1 = T1 [THEN conjunct2, THEN conjunct2, THEN conjunct2, THEN conjunct2, THEN conjunct1,
      THEN mp, OF se1]
  note E4 = T4 [THEN conjunct2, THEN conjunct2, THEN conjunct2, THEN conjunct2, THEN conjunct1,
      THEN mp, OF se2]
  note D5 = T5 [THEN conjunct2, THEN conjunct2, THEN conjunct2, THEN conjunct1, THEN mp, OF ns]
  have r1: "analyzeCalendarEvent example_JSON_parse empty_object_reply (example_event ''e1'') None None =
              Inr \<lparr> eventType = JStr ''other'', requiresSitter = JBool False,
                    requiresTravel = JBool False, requiresFormalAttire = JBool False,
                    tasks = JArr [], reasoning = JStr [], confidence = JNum (8 / 10) \<rparr>"
    using A1 [THEN conjunct2, THEN conjunct2, THEN conjunct2, THEN conjunct2, THEN conjunct2,
        THEN conjunct2, THEN conjunct2, THEN mp, OF a] .
  have r2: "analyzeCalendarEvent example_JSON_parse number_reply (example_event ''e1'') None None =
              Inr \<lparr> eventType = JStr ''other'', requiresSitter = JBool False,
                    requiresTravel = JBool False, requiresFormalAttire = JBool False,
                    tasks = JArr [], reasoning = JStr [], confidence = JNum (8 / 10) \<rparr>"
    using A2 [THEN conjunct2, THEN conjunct2, THEN conjunct2, THEN conjunct2, THEN conjunct2,
        THEN conjunct2, THEN conjunct2, THEN mp, OF b] .
  have r3: "analyzeCalendarEvent example_JSON_parse (rate_limited_provider 0) (example_event ''e1'') None None
       = Inr default_analysis"
    using A3 [THEN conjunct2, THEN conjunct1, THEN mp, OF c] .
  have r4: "analyzeCalendarEvent_v1 example_JSON_parse (example_provider_v1 0) (example_event ''e1'')
       = Inr default_analysis_v1"
    using E1 [THEN conjunct2, THEN conjunct2, THEN conjunct2, THEN conjunct2, THEN conjunct2,
        THEN conjunct2, THEN conjunct1, THEN mp, OF d] .
  have r5: "analyzeCalendarEvent_v1 example_JSON_parse (example_provider_v1 0) (example_event ''e2'')
       = Inr default_analysis_v1"
    using E4 [THEN conjunct2, THEN conjunct1, THEN mp, OF e] .
  have r6: "analyzeCalendarEvent example_JSON_parse empty_object_reply (event_without_end ''e1'') None None
       = Inl (JsError ''TypeError: Cannot read properties of undefined (reading dateTime)'')"
    using D5 [THEN conjunct1] .
  have r7: "analyzeCalendarEvent_v1 example_JSON_parse (example_provider_v1 0) (event_without_end ''e1'')
       = Inl (JsError ''TypeError: Cannot read properties of undefined (reading dateTime)'')"
    using D5 [THEN conjunct2] .
  show ?thesis
    apply (intro conjI)
    apply (rule bp, rule se1, rule ns, rule r1, rule r2, rule r3, rule r4, rule r5, rule r6, rule r7)
    done
qed

text \<open>
  C2 as stated fails. For a reply with missing required fields, \<^verbatim>\<open>{}\<close>, and for a
  reply that is no object, \<^verbatim>\<open>42\<close>, the settings-aware client returns confidence 0.8
  and an empty reasoning, not the default analysis. The default of the simple client has
  no confidence field. And for an event without its \<^verbatim>\<open>end\<close> both clients throw.
\<close>

theorem analyzeCalendarEvent_missing_fields_counterexample:
  "analyzeCalendarEvent example_JSON_parse empty_object_reply (example_event ''e1'') None None
     \<noteq> Inr default_analysis
   \<and> map_sum id confidence
       (analyzeCalendarEvent example_JSON_parse empty_object_reply (example_event ''e1'') None None)
     = Inr (JNum (8 / 10))
   \<and> map_sum id reasoning
       (analyzeCalendarEvent example_JSON_parse empty_object_reply (example_event ''e1'') None None)
     = Inr (JStr [])
   \<and> map_sum id confidence
       (analyzeCalendarEvent example_JSON_parse number_reply (example_event ''e1'') None None)
     = Inr (JNum (8 / 10))
   \<and> analyzeCalendarEvent_v1 example_JSON_parse (example_provider_v1 0) (example_event ''e2'')
     = Inr default_analysis_v1
   \<and> get_prop default_analysis_v1 ''confidence'' = Inr JUndefined
   \<and> analyzeCalendarEvent example_JSON_parse empty_object_reply (event_without_end ''e1'') None None
     = Inl (JsError ''TypeError: Cannot read properties of undefined (reading dateTime)'')
   \<and> analyzeCalendarEvent_v1 example_JSON_parse (example_provider_v1 0) (event_without_end ''e1'')
     = Inl (JsError ''TypeError: Cannot read properties of undefined (reading dateTime)'')"
proof -
  have v: "analyzeCalendarEvent example_JSON_parse empty_object_reply (example_event ''e1'') None None
      = Inr \<lparr> eventType = JStr ''other'', requiresSitter = JBool False,
                    requiresTravel = JBool False, requiresFormalAttire = JBool False,
                    tasks = JArr [], reasoning = JStr [], confidence = JNum (8 / 10) \<rparr>"
    by (simp add: analyzeCalendarEvent_def build_prompt_def example_event_def analyze_try_simps
        empty_object_reply_def example_JSON_parse_def analysisText_of_def match_braces_def
        analysis_from_def js_or_def field_of_def)
  have n: "analyzeCalendarEvent example_JSON_parse number_reply (example_event ''e1'') None None
      = Inr \<lparr> eventType = JStr ''other'', requiresSitter = JBool False,
                    requiresTravel = JBool False, requiresFormalAttire = JBool False,
                    tasks = JArr [], reasoning = JStr [], confidence = JNum (8 / 10) \<rparr>"
    by (simp add: analyzeCalendarEvent_def build_prompt_def example_event_def analyze_try_simps
        number_reply_def example_JSON_parse_def analysisText_of_def match_braces_def
        analysis_from_def js_or_def)
  have s: "analyzeCalendarEvent_v1 example_JSON_parse (example_provider_v1 0) (example_event ''e2'')
     = Inr default_analysis_v1"
    by (simp add: analyzeCalendarEvent_v1_def example_event_def example_provider_v1_def
        analyze_try_v1_simps)
  have t1: "analyzeCalendarEvent example_JSON_parse empty_object_reply (event_without_end ''e1'') None None
     = Inl (JsError ''TypeError: Cannot read properties of undefined (reading dateTime)'')"
    by (simp add: analyzeCalendarEvent_def build_prompt_def event_without_end_def)
  have t2: "analyzeCalendarEvent_v1 example_JSON_parse (example_provider_v1 0) (event_without_end ''e1'')
     = Inl (JsError ''TypeError: Cannot read properties of undefined (reading dateTime)'')"
    by (simp add: analyzeCalendarEvent_v1_def event_without_end_def)
  have c: "get_prop default_analysis_v1 ''confidence'' = Inr JUndefined"
    by (simp add: default_analysis_v1_def field_of_def)
  show ?thesis
    unfolding v n
    apply (intro conjI)
           apply (simp add: default_analysis_def)
          apply simp
         apply simp
        apply simp
       apply (rule s)
      apply (rule c)
     apply (rule t1)
    apply (rule t2)
    done
qed

lemma js_trunc_of_int: "js_trunc (of_int z) = z"
  by (simp add: js_trunc_def)

lemma js_slice_step:
  "0 \<le> i \<Longrightarrow> i < int (length xs) \<Longrightarrow> 1 \<le> k \<Longrightarrow>
     js_slice xs (Finite (of_int i)) (Finite (of_int (i + k))) = take (nat k) (drop (nat i) xs)"
  by (auto simp: js_slice_def relative_index_def js_trunc_of_int Let_def min_def nat_add_distrib
      simp del: of_int_add)

text \<open>
  One batch of the simple dispatcher over a client that returns for the events that have
  their start and end and throws for the others: the ids stored are those of the events
  the client returned for.
\<close>

lemma store_results_some:
  assumes ok: "\<And>n e. has_start_end e \<Longrightarrow> client n e = Inr (f n e)"
    and bad: "\<And>n e. \<not> has_start_end e \<Longrightarrow> \<exists>err. client n e = Inl err"
  shows "fst ` set (store_results (batch_results client n es) m)
           = fst ` set m \<union> event_id ` set (filter has_start_end es)
       \<and> (distinct (map fst m) \<longrightarrow> distinct (map fst (store_results (batch_results client n es) m)))
       \<and> set (store_results (batch_results client n es) m)
           \<subseteq> set m \<union> {(event_id e, f j e) | j e. e \<in> set es \<and> has_start_end e}"
proof (induction es arbitrary: n m)
  case Nil
  then show ?case by simp
next
  case (Cons e es)
  show ?case
  proof (cases "has_start_end e")
    case True
    have sub: "set (AList.update (event_id e) (f n e) m) \<subseteq> set m \<union> {(event_id e, f n e)}"
      using update_entryD [of _ _ "event_id e" "f n e" m] by auto
    show ?thesis
      using Cons.IH [of "Suc n" "AList.update (event_id e) (f n e) m"] sub True
      by (simp add: ok AList.dom_update AList.distinct_update) blast
  next
    case False
    from bad [OF False] obtain err where "client n e = Inl err" by blast
    then show ?thesis
      using Cons.IH [of "Suc n" m] False by simp blast
  qed
qed

lemma batch_loop_v1_some:
  assumes ok: "\<And>n e. has_start_end e \<Longrightarrow> client n e = Inr (f n e)"
    and bad: "\<And>n e. \<not> has_start_end e \<Longrightarrow> \<exists>err. client n e = Inl err"
    and mc: "1 \<le> k"
  shows "0 \<le> i \<Longrightarrow>
     \<exists>m'. batch_loop_v1 client events (Finite (of_int k)) (Finite (of_int i)) n m = Some m'
       \<and> fst ` set m' = fst ` set m \<union> event_id ` set (filter has_start_end (drop (nat i) events))
       \<and> (distinct (map fst m) \<longrightarrow> distinct (map fst m'))
       \<and> set m' \<subseteq> set m \<union> {(event_id e, f j e) | j e. e \<in> set events \<and> has_start_end e}"
proof (induction "length events - nat i" arbitrary: i n m rule: less_induct)
  case less
  have ll: "js_less_length (Finite (of_int i)) (length events) = (i < int (length events))"
    by (simp add: js_less_length_def) (metis of_int_less_iff of_int_of_nat_eq)
  show ?case
  proof (cases "i < int (length events)")
    case False
    then have "drop (nat i) events = []" by simp
    moreover have "batch_loop_v1 client events (Finite (of_int k)) (Finite (of_int i)) n m = Some m"
      using False by (subst batch_loop_v1.simps) (simp add: ll)
    ultimately show ?thesis by auto
  next
    case True
    let ?rest = "drop (nat i) events"
    let ?batch = "take (nat k) ?rest"
    let ?m1 = "store_results (batch_results client n ?batch) m"
    have sl: "js_slice events (Finite (of_int i)) (Finite (of_int (i + k))) = ?batch"
      using less.prems True mc by (rule js_slice_step)
    have nx: "js_add (Finite (of_int i)) (Finite (of_int k)) = Finite (of_int (i + k))" by simp
    have step: "batch_loop_v1 client events (Finite (of_int k)) (Finite (of_int i)) n m
        = batch_loop_v1 client events (Finite (of_int k)) (Finite (of_int (i + k))) (n + length ?batch) ?m1"
      using True
      by (subst batch_loop_v1.simps) (simp only: ll nx sl Let_def if_True)
    have dec: "length events - nat (i + k) < length events - nat i"
      using True less.prems mc by linarith
    have nn: "0 \<le> i + k" using less.prems mc by simp
    from less.hyps [OF dec nn, of "n + length ?batch" ?m1] obtain m' where
      r: "batch_loop_v1 client events (Finite (of_int k)) (Finite (of_int (i + k))) (n + length ?batch) ?m1
          = Some m'"
      and kk: "fst ` set m' = fst ` set ?m1 \<union> event_id ` set (filter has_start_end (drop (nat (i + k)) events))"
      and d: "distinct (map fst ?m1) \<longrightarrow> distinct (map fst m')"
      and v: "set m' \<subseteq> set ?m1 \<union> {(event_id e, f j e) | j e. e \<in> set events \<and> has_start_end e}"
      by (elim exE conjE)
    note b = store_results_some [of client f n ?batch m, OF ok bad]
    have dr: "drop (nat (i + k)) events = drop (nat k) ?rest"
      using less.prems mc by (simp add: nat_add_distrib add.commute)
    have "filter has_start_end ?batch @ filter has_start_end (drop (nat k) ?rest)
        = filter has_start_end ?rest"
      by (metis append_take_drop_id filter_append)
    then have "set (filter has_start_end ?batch) \<union> set (filter has_start_end (drop (nat k) ?rest))
        = set (filter has_start_end ?rest)"
      by (metis set_append)
    then have keys: "fst ` set m' = fst ` set m \<union> event_id ` set (filter has_start_end ?rest)"
      using kk b unfolding dr by (simp add: image_Un [symmetric] Un_assoc)
    have dist: "distinct (map fst m) \<longrightarrow> distinct (map fst m')"
      using d b by blast
    have "set ?batch \<subseteq> set events"
      by (meson set_take_subset set_drop_subset subset_trans)
    then have vals: "set m' \<subseteq> set m \<union> {(event_id e, f j e) | j e. e \<in> set events \<and> has_start_end e}"
      using v b by blast
    show ?thesis
    proof (intro exI [of _ m'] conjI)
      show "batch_loop_v1 client events (Finite (of_int k)) (Finite (of_int i)) n m = Some m'"
        using step r by simp
    qed (rule keys, rule dist, rule vals)
  qed
qed

lemma batch_v1_complete:
  assumes "case opt of None \<Rightarrow> True | Some mc \<Rightarrow> \<exists>k. 1 \<le> k \<and> mc = Finite (of_int k)"
  shows "\<exists>m. analyzeBatchEvents_v1 P provider events opt = Some m
     \<and> distinct (map fst m)
     \<and> fst ` set m = event_id ` set (filter has_start_end events)
     \<and> (\<forall>(k, a) \<in> set m. \<exists>n e. e \<in> set events \<and> has_start_end e \<and> event_id e = k
           \<and> (analyze_try_v1 P (provider n e) = Inr a
              \<or> (a = default_analysis_v1 \<and> (\<exists>err. analyze_try_v1 P (provider n e) = Inl err))))"
proof -
  from assms obtain k :: int where k: "1 \<le> k"
    and mc: "(case opt of None \<Rightarrow> Finite 3 | Some mc \<Rightarrow> mc) = Finite (of_int k)"
  proof (cases opt)
    case None
    have "(1::int) \<le> 3" "(case opt of None \<Rightarrow> Finite 3 | Some mc \<Rightarrow> mc) = Finite (of_int 3)"
      using None by simp_all
    then show ?thesis by (rule that)
  next
    case (Some mc)
    with assms obtain k where "1 \<le> k" "mc = Finite (of_int k)" by auto
    with Some show ?thesis by (intro that [of k]) simp_all
  qed
  have bad: "\<And>n e. \<not> has_start_end e \<Longrightarrow> \<exists>err. analyzeCalendarEvent_v1 P (provider n) e = Inl err"
    by (simp add: analyzeCalendarEvent_v1_missing)
  have "\<exists>m'. batch_loop_v1 (\<lambda>n. analyzeCalendarEvent_v1 P (provider n)) events (Finite (of_int k))
            (Finite (of_int 0)) 0 [] = Some m'
       \<and> fst ` set m' = fst ` set ([] :: (string \<times> js_value) list)
             \<union> event_id ` set (filter has_start_end (drop (nat 0) events))
       \<and> (distinct (map fst ([] :: (string \<times> js_value) list)) \<longrightarrow> distinct (map fst m'))
       \<and> set m' \<subseteq> set [] \<union> {(event_id e, client_value_v1 P provider j e) | j e.
             e \<in> set events \<and> has_start_end e}"
  proof (rule batch_loop_v1_some [where f = "client_value_v1 P provider"])
    fix n e assume "has_start_end e"
    then show "analyzeCalendarEvent_v1 P (provider n) e = Inr (client_value_v1 P provider n e)"
      by (rule analyzeCalendarEvent_v1_value)
  next
    fix n e assume "\<not> has_start_end e"
    then show "\<exists>err. analyzeCalendarEvent_v1 P (provider n) e = Inl err" by (rule bad)
  qed (rule k, simp)
  then obtain m where r: "analyzeBatchEvents_v1 P provider events opt = Some m"
    and ks: "fst ` set m = event_id ` set (filter has_start_end events)"
    and d: "distinct (map fst m)"
    and v: "set m \<subseteq> {(event_id e, client_value_v1 P provider j e) | j e. e \<in> set events \<and> has_start_end e}"
    by (auto simp: analyzeBatchEvents_v1_def Let_def mc)
  have vals: "\<forall>(k, a) \<in> set m. \<exists>n e. e \<in> set events \<and> has_start_end e \<and> event_id e = k
           \<and> (analyze_try_v1 P (provider n e) = Inr a
              \<or> (a = default_analysis_v1 \<and> (\<exists>err. analyze_try_v1 P (provider n e) = Inl err)))"
  proof (clarify)
    fix k a assume "(k, a) \<in> set m"
    with v obtain j e where e: "e \<in> set events" "has_start_end e" "event_id e = k"
      "a = client_value_v1 P provider j e"
      by auto
    have "analyze_try_v1 P (provider j e) = Inr a
        \<or> (a = default_analysis_v1 \<and> (\<exists>err. analyze_try_v1 P (provider j e) = Inl err))"
      using e(4) by (cases "analyze_try_v1 P (provider j e)") (auto simp: client_value_v1_def)
    with e(1,2,3) show "\<exists>n e. e \<in> set events \<and> has_start_end e \<and> event_id e = k
           \<and> (analyze_try_v1 P (provider n e) = Inr a
              \<or> (a = default_analysis_v1 \<and> (\<exists>err. analyze_try_v1 P (provider n e) = Inl err)))"
      by (intro exI [of _ j] exI [of _ e] conjI)
  qed
  show ?thesis
    apply (rule exI [of _ m])
    apply (intro conjI)
    apply (rule r, rule d, rule ks, rule vals)
    done
qed

lemma dispatch_keys_from_start:
  assumes "dispatch_loop client events 0 initial_dispatch = Some st"
  shows "distinct (map fst (results st)) \<and> fst ` set (results st) = event_id ` set events"
  using dispatch_loop_keys [OF assms] by (simp add: initial_dispatch_def)

text \<open>
  C3 (as amended). The settings-aware analyzeBatchEvents, when the knowledge base can be
  serialised, returns for every input list, and the output mapping has exactly one entry
  per distinct input event id, with no id missing and none added; the entry of an event
  that has its \<^verbatim>\<open>start\<close> and \<^verbatim>\<open>end\<close> is the value analyzeCalendarEvent returned for
  it, the analysis parsed from the reply or the default analysis of the client; the entry
  of an event without start or end, for which analyzeCalendarEvent throws, is the
  no-task default of the dispatcher. Whenever its loop returns, for any analysis client,
  also one that throws rate-limit errors and succeeds at a later attempt, the mapping
  has exactly one entry per distinct event id.

  The simple analyzeBatchEvents, for the default \<^verbatim>\<open>maxConcurrent\<close> of 3 and for every
  whole \<^verbatim>\<open>maxConcurrent\<close> of at least 1, returns for every input list, and the output
  mapping has exactly one entry per distinct id of the events that have their start and
  end; an event without start or end, for which analyzeCalendarEvent throws, has no
  entry unless another event of its id has one.
\<close>

theorem analyzeBatchEvents_complete:
  "(stringify_all (case knowledgeBase of None \<Rightarrow> [] | Some items \<Rightarrow> items) = Inr knowledge \<longrightarrow>
     (\<exists>m. analyzeBatchEvents P provider events settings knowledgeBase = Some m
       \<and> distinct (map fst m)
       \<and> fst ` set m = event_id ` set events
       \<and> (\<forall>(k, a) \<in> set m. \<exists>n e. e \<in> set events \<and> event_id e = k
             \<and> (if has_start_end e
                 then analyzeCalendarEvent P (provider n) e settings knowledgeBase = Inr a
                    \<and> (analyze_try P (provider n \<lparr> prompt_event = e, prompt_settings = settings,
                                                   prompt_knowledge = knowledge \<rparr>) = Inr a
                       \<or> a = default_analysis)
                 else a = dispatcher_default))))
   \<and> (dispatch_loop client events 0 initial_dispatch = Some st \<longrightarrow>
        distinct (map fst (results st)) \<and> fst ` set (results st) = event_id ` set events)
   \<and> ((case opt of None \<Rightarrow> True | Some mc \<Rightarrow> \<exists>k. 1 \<le> k \<and> mc = Finite (of_int k)) \<longrightarrow>
       (\<exists>m. analyzeBatchEvents_v1 P provider' events opt = Some m
         \<and> distinct (map fst m)
         \<and> fst ` set m = event_id ` set (filter has_start_end events)
         \<and> (\<forall>(k, a) \<in> set m. \<exists>n e. e \<in> set events \<and> has_start_end e \<and> event_id e = k
               \<and> (analyze_try_v1 P (provider' n e) = Inr a
                  \<or> (a = default_analysis_v1 \<and> (\<exists>err. analyze_try_v1 P (provider' n e) = Inl err))))))"
  apply (rule conjI)
   apply (rule impI)
   apply (erule batch_complete_settings_aware)
  apply (rule conjI)
   apply (rule impI)
   apply (erule dispatch_keys_from_start)
  apply (rule impI)
  apply (erule batch_v1_complete)
  done

theorem analyzeBatchEvents_complete_witness:
  "stringify_all (case (None :: KnowledgeBaseItem list option) of None \<Rightarrow> [] | Some items \<Rightarrow> items) = Inr []
   \<and> (\<exists>m. analyzeBatchEvents example_JSON_parse example_provider
        [example_event ''e1'', example_event ''e2'', event_without_end ''e3'', example_event ''e1'']
        None None = Some m
     \<and> distinct (map fst m)
     \<and> fst ` set m = {''e1'', ''e2'', ''e3''})
   \<and> dispatch_loop throwing_client [example_event ''e1''] 0 initial_dispatch
       = Some \<lparr> results = [(''e1'', default_analysis)], calls = 2, sleeps = [60000] \<rparr>
   \<and> distinct (map fst [(''e1'', default_analysis)])
   \<and> fst ` set [(''e1'', default_analysis)] = event_id ` set [example_event ''e1'']
   \<and> (\<exists>m. analyzeBatchEvents_v1 example_JSON_parse example_provider_v1
        [example_event ''e1'', example_event ''e2'', event_without_end ''e3'', example_event ''e1'']
        None = Some m
     \<and> distinct (map fst m)
     \<and> fst ` set m = {''e1'', ''e2''})"
proof -
  let ?es = "[example_event ''e1'', example_event ''e2'', event_without_end ''e3'', example_event ''e1'']"
  have ids: "event_id ` set ?es = {''e1'', ''e2'', ''e3''}"
    by (auto simp: example_event_def event_without_end_def)
  have ids1: "event_id ` set (filter has_start_end ?es) = {''e1'', ''e2''}"
    by (auto simp: example_event_def event_without_end_def has_start_end_def)
  have kb: "stringify_all (case (None :: KnowledgeBaseItem list option) of None \<Rightarrow> [] | Some items \<Rightarrow> items) = Inr []"
    by simp
  have opt: "case (None :: js_number option) of None \<Rightarrow> True | Some mc \<Rightarrow> \<exists>k. 1 \<le> k \<and> mc = Finite (of_int k)"
    by simp
  note retry = dispatch_loop_retries_throwing_client
  note T = analyzeBatchEvents_complete
      [where knowledgeBase = None and knowledge = "[]" and P = example_JSON_parse
         and provider = example_provider and events = ?es and settings = None and opt = None
         and provider' = example_provider_v1]
  note T' = analyzeBatchEvents_complete
      [where client = throwing_client and events = "[example_event ''e1'']"
         and st = "\<lparr> results = [(''e1'', default_analysis)], calls = 2, sleeps = [60000] \<rparr>"]
  from T [THEN conjunct1, THEN mp, OF kb]
  have A: "\<exists>m. analyzeBatchEvents example_JSON_parse example_provider ?es None None = Some m
     \<and> distinct (map fst m) \<and> fst ` set m = {''e1'', ''e2'', ''e3''}"
    unfolding ids by (elim exE conjE) (intro exI conjI, assumption+)
  from T [THEN conjunct2, THEN conjunct2, THEN mp, OF opt]
  have B: "\<exists>m. analyzeBatchEvents_v1 example_JSON_parse example_provider_v1 ?es None = Some m
     \<and> distinct (map fst m) \<and> fst ` set m = {''e1'', ''e2''}"
    unfolding ids1 by (elim exE conjE) (intro exI conjI, assumption+)
  from T' [THEN conjunct2, THEN conjunct1, THEN mp, OF retry]
  have C: "distinct (map fst [(''e1'', default_analysis)])
      \<and> fst ` set [(''e1'', default_analysis)] = event_id ` set [example_event ''e1'']"
    by simp
  show ?thesis
    apply (intro conjI)
    apply (rule kb, rule A, rule retry, rule C [THEN conjunct1], rule C [THEN conjunct2], rule B)
    done
qed

text \<open>
  C3 as stated fails for the simple dispatcher: for an event posted without its
  \<^verbatim>\<open>end\<close> the analysis call throws, the dispatcher turns the throw into
  \<^verbatim>\<open>null\<close> and stores nothing, and the output mapping has no entry for the event.
\<close>

theorem analyzeBatchEvents_missing_entry_counterexample:
  "analyzeBatchEvents_v1 example_JSON_parse example_provider_v1 [event_without_end ''e1''] None = Some []
   \<and> event_id ` set [event_without_end ''e1''] = {''e1''}"
proof (rule conjI)
  have s: "js_slice [event_without_end ''e1''] (Finite 0) (Finite 3) = [event_without_end ''e1'']"
    by (simp add: js_slice_def relative_index_def js_trunc_def Let_def)
  have ns: "\<not> has_start_end (event_without_end ''e1'')"
    by (simp add: has_start_end_def event_without_end_def)
  show "analyzeBatchEvents_v1 example_JSON_parse example_provider_v1 [event_without_end ''e1''] None = Some []"
    unfolding analyzeBatchEvents_v1_def
    apply (simp add: Let_def)
    apply (subst batch_loop_v1.simps)
    apply (simp add: js_less_length_def s Let_def analyzeCalendarEvent_v1_missing [OF ns])
    apply (subst batch_loop_v1.simps)
    apply (simp add: js_less_length_def)
    done
  show "event_id ` set [event_without_end ''e1''] = {''e1''}"
    by (simp add: event_without_end_def)
qed

text \<open>
  With a \<^verbatim>\<open>maxConcurrent\<close> that is not a number the simple dispatcher analyses
  nothing: the first batch is empty, the loop ends after it, and the mapping is empty.
\<close>

lemma analyzeBatchEvents_v1_NaN:
  "analyzeBatchEvents_v1 P provider events (Some NaN) = Some []"
proof (cases events)
  case Nil
  then show ?thesis
    unfolding analyzeBatchEvents_v1_def
    by (subst batch_loop_v1.simps) (simp add: js_less_length_def)
next
  case (Cons e es)
  have b: "js_slice events (Finite 0) NaN = []"
    by (simp add: js_slice_def relative_index_def js_trunc_def Let_def)
  show ?thesis
    unfolding analyzeBatchEvents_v1_def
    apply (simp add: Let_def)
    apply (subst batch_loop_v1.simps)
    apply (simp add: js_less_length_def b Cons [symmetric] Let_def)
    apply (subst batch_loop_v1.simps)
    apply (simp add: js_less_length_def)
    done
qed


end
